(* ===== verification/Prelude.thy ===== *)
theory Prelude
  imports Main "HOL-Library.AList" "HOL-Library.Sublist"
begin

text \<open>
  What every component shares: strings and the string operations of the Rust standard
  library the sources call, hash maps, and the error-and-state computations in which the
  effectful code is written.

  A Rust \<open>String\<close> is a list of characters. A \<open>char\<close> of HOL has 256 values, which are read as
  the Unicode code points U+0000 to U+00FF: \<open>is_whitespace\<close> and \<open>to_lowercase\<close> are those of
  Rust on that range. Lengths and positions, which Rust counts in UTF-8 bytes, are counted in
  characters, which is the same for ASCII.

  A \<open>HashMap\<close> is an association list with distinct keys. Rust leaves the iteration order of a
  hash map open; the list order stands for the order of one run. Operations that iterate are
  defined over the list, and the theorems about them quantify over every list, so they hold for
  every iteration order.
\<close>

section \<open>Strings\<close>

type_synonym path = string

definition is_whitespace :: "char \<Rightarrow> bool" where
  "is_whitespace c \<longleftrightarrow>
     (let n = (of_char c :: nat) in (9 \<le> n \<and> n \<le> 13) \<or> n = 32 \<or> n = 133 \<or> n = 160)"

definition trim_start :: "string \<Rightarrow> string" where
  "trim_start s = dropWhile is_whitespace s"

definition trim_end :: "string \<Rightarrow> string" where
  "trim_end s = rev (dropWhile is_whitespace (rev s))"

definition trim :: "string \<Rightarrow> string" where
  "trim s = trim_end (trim_start s)"

fun starts_with :: "string \<Rightarrow> string \<Rightarrow> bool" where
  "starts_with s [] = True"
| "starts_with [] (p # ps) = False"
| "starts_with (c # s) (p # ps) = (c = p \<and> starts_with s ps)"

definition ends_with :: "string \<Rightarrow> string \<Rightarrow> bool" where
  "ends_with s p = starts_with (rev s) (rev p)"

definition strip_prefix :: "string \<Rightarrow> string \<Rightarrow> string option" where
  "strip_prefix s p = (if starts_with s p then Some (drop (length p) s) else None)"

definition strip_suffix :: "string \<Rightarrow> string \<Rightarrow> string option" where
  "strip_suffix s p = (if ends_with s p then Some (take (length s - length p) s) else None)"

fun contains :: "string \<Rightarrow> string \<Rightarrow> bool" where
  "contains [] p = (p = [])"
| "contains (c # s) p = (starts_with (c # s) p \<or> contains s p)"

text \<open>\<open>str::find\<close> with a character: the index of its first occurrence.\<close>

fun find_char :: "char \<Rightarrow> string \<Rightarrow> nat option" where
  "find_char x [] = None"
| "find_char x (c # s) = (if c = x then Some 0 else map_option Suc (find_char x s))"

text \<open>\<open>str::split\<close> with a character: the pieces between its occurrences, at least one.\<close>

fun split_on :: "char \<Rightarrow> string \<Rightarrow> string list" where
  "split_on x [] = [[]]"
| "split_on x (c # s) =
     (if c = x then [] # split_on x s
      else (case split_on x s of [] \<Rightarrow> [[c]] | w # ws \<Rightarrow> (c # w) # ws))"

fun join_with :: "string \<Rightarrow> string list \<Rightarrow> string" where
  "join_with sep [] = []"
| "join_with sep [w] = w"
| "join_with sep (w # v # ws) = w @ sep @ join_with sep (v # ws)"

text \<open>\<open>BufRead::lines\<close>: the text split at line feeds; a last line without one counts unless it is
  empty, and a carriage return before the line feed is dropped.\<close>

definition nl :: string where
  "nl = [CHR 0x0A]"

definition strip_cr :: "string \<Rightarrow> string" where
  "strip_cr l = (if l \<noteq> [] \<and> last l = CHR 0x0D then butlast l else l)"

fun lines_aux :: "string \<Rightarrow> string \<Rightarrow> string list" where
  "lines_aux acc [] = (if acc = [] then [] else [rev acc])"
| "lines_aux acc (c # s) =
     (if c = CHR 0x0A then strip_cr (rev acc) # lines_aux [] s else lines_aux (c # acc) s)"

definition lines :: "string \<Rightarrow> string list" where
  "lines s = lines_aux [] s"

definition digit_char :: "nat \<Rightarrow> char" where
  "digit_char n = char_of (48 + n)"

fun show_nat :: "nat \<Rightarrow> string" where
  "show_nat n = (if n < 10 then [digit_char n] else show_nat (n div 10) @ [digit_char (n mod 10)])"

declare show_nat.simps [simp del]

definition show_int :: "int \<Rightarrow> string" where
  "show_int i = (if i < 0 then ''-'' @ show_nat (nat (- i)) else show_nat (nat i))"

definition to_lower_char :: "char \<Rightarrow> char" where
  "to_lower_char c =
     (let n = (of_char c :: nat)
      in if (65 \<le> n \<and> n \<le> 90) \<or> (192 \<le> n \<and> n \<le> 222 \<and> n \<noteq> 215) then char_of (n + 32) else c)"

definition to_lowercase :: "string \<Rightarrow> string" where
  "to_lowercase s = map to_lower_char s"

text \<open>\<open>Path::join\<close> on Unix: an absolute argument replaces the base.\<close>

definition is_absolute :: "path \<Rightarrow> bool" where
  "is_absolute p = starts_with p ''/''"

definition path_join :: "path \<Rightarrow> path \<Rightarrow> path" where
  "path_join base p =
     (if is_absolute p then p
      else if base = [] \<or> last base = CHR ''/'' then base @ p
      else base @ ''/'' @ p)"

subsection \<open>Lemmas on strings\<close>

lemma starts_with_append [simp]: "starts_with (p @ s) p"
  by (induction p) auto

lemma starts_with_prefix: "starts_with s p \<longleftrightarrow> prefix p s"
  by (induction s p rule: starts_with.induct) auto

lemma starts_with_refl [simp]: "starts_with s s"
  by (simp add: starts_with_prefix)

lemma ends_with_append [simp]: "ends_with (s @ p) p"
  by (simp add: ends_with_def)

lemma ends_with_suffix: "ends_with s p \<longleftrightarrow> suffix p s"
  by (simp add: ends_with_def starts_with_prefix suffix_to_prefix)

lemma strip_prefix_append [simp]: "strip_prefix (p @ s) p = Some s"
  by (simp add: strip_prefix_def)

lemma strip_suffix_append [simp]: "strip_suffix (s @ p) p = Some s"
  by (simp add: strip_suffix_def)

lemma strip_prefix_SomeD: "strip_prefix s p = Some r \<Longrightarrow> s = p @ r"
  by (auto simp: strip_prefix_def starts_with_prefix prefix_def split: if_splits)

lemma find_char_None: "find_char x s = None \<longleftrightarrow> x \<notin> set s"
  by (induction s) auto

lemma split_on_nonempty [simp]: "split_on x s \<noteq> []"
  by (induction s) (auto split: list.splits)

lemma split_on_no_sep: "x \<notin> set s \<Longrightarrow> split_on x s = [s]"
  by (induction s) (auto split: list.splits)

lemma split_on_sep: "x \<notin> set a \<Longrightarrow> split_on x (a @ x # b) = a # split_on x b"
  by (induction a) (auto split: list.splits)

lemma lines_aux_no_nl:
  "CHR 0x0A \<notin> set l \<Longrightarrow> lines_aux acc (l @ CHR 0x0A # s) = strip_cr (rev acc @ l) # lines_aux [] s"
  by (induction l arbitrary: acc) auto

lemma lines_aux_append:
  "lines_aux acc (t @ CHR 0x0A # s) = lines_aux acc (t @ nl) @ lines_aux [] s"
  by (induction t arbitrary: acc) (auto simp: nl_def)

definition ends_line :: "string \<Rightarrow> bool" where
  "ends_line t \<longleftrightarrow> t = [] \<or> last t = CHR 0x0A"

lemma lines_Nil [simp]: "lines [] = []"
  by (simp add: lines_def)

lemma ends_line_butlast: "ends_line t \<Longrightarrow> t \<noteq> [] \<Longrightarrow> t = butlast t @ nl"
  by (metis append_butlast_last_id ends_line_def nl_def)

lemma lines_append: "ends_line t \<Longrightarrow> lines (t @ s) = lines t @ lines s"
proof (cases "t = []")
  case False
  assume "ends_line t"
  with False obtain u where t: "t = u @ nl" by (metis ends_line_butlast)
  show ?thesis using lines_aux_append [of "[]" u s] by (simp add: t lines_def nl_def)
qed simp

lemma lines_line: "CHR 0x0A \<notin> set l \<Longrightarrow> lines (l @ nl) = [strip_cr l]"
  using lines_aux_no_nl [of l "[]" "[]"] by (simp add: lines_def nl_def)

lemma ends_line_nl [simp]: "ends_line (t @ nl)"
  by (simp add: ends_line_def nl_def)

lemma ends_line_Nil [simp]: "ends_line []"
  by (simp add: ends_line_def)

lemma of_char_digit: "n < 10 \<Longrightarrow> (of_char (digit_char n) :: nat) = 48 + n"
  by (simp add: digit_char_def)

fun read_digits :: "nat \<Rightarrow> string \<Rightarrow> nat" where
  "read_digits acc [] = acc"
| "read_digits acc (c # s) = read_digits (10 * acc + ((of_char c :: nat) - 48)) s"

lemma read_digits_snoc:
  "read_digits acc (s @ [c]) = 10 * read_digits acc s + ((of_char c :: nat) - 48)"
  by (induction s arbitrary: acc) auto

lemma read_show_nat: "read_digits 0 (show_nat n) = n"
proof (induction n rule: show_nat.induct)
  case (1 n)
  show ?case
  proof (cases "n < 10")
    case True
    then show ?thesis by (simp add: show_nat.simps [of n] of_char_digit)
  next
    case False
    with 1 show ?thesis
      by (simp add: show_nat.simps [of n] read_digits_snoc of_char_digit)
  qed
qed

lemma show_nat_inject [simp]: "show_nat a = show_nat b \<longleftrightarrow> a = b"
  by (metis read_show_nat)

section \<open>Hash maps\<close>

type_synonym ('k, 'v) hmap = "('k \<times> 'v) list"

definition hm_get :: "('k, 'v) hmap \<Rightarrow> 'k \<Rightarrow> 'v option" where
  "hm_get m k = map_of m k"

definition hm_insert :: "'k \<Rightarrow> 'v \<Rightarrow> ('k, 'v) hmap \<Rightarrow> ('k, 'v) hmap" where
  "hm_insert k v m = AList.update k v m"

definition hm_remove :: "'k \<Rightarrow> ('k, 'v) hmap \<Rightarrow> ('k, 'v) hmap" where
  "hm_remove k m = AList.delete k m"

definition hm_contains :: "('k, 'v) hmap \<Rightarrow> 'k \<Rightarrow> bool" where
  "hm_contains m k = (hm_get m k \<noteq> None)"

definition hm_wf :: "('k, 'v) hmap \<Rightarrow> bool" where
  "hm_wf m = distinct (map fst m)"

text \<open>\<open>if let Some(v) = m.get_mut(k)\<close> followed by an assignment through \<open>v\<close>.\<close>

definition hm_modify :: "'k \<Rightarrow> ('v \<Rightarrow> 'v) \<Rightarrow> ('k, 'v) hmap \<Rightarrow> ('k, 'v) hmap" where
  "hm_modify k f m = (case hm_get m k of None \<Rightarrow> m | Some v \<Rightarrow> hm_insert k (f v) m)"

text \<open>The interface: what the components rely on, stated against the lookup function.\<close>

locale hash_map =
  fixes lookup :: "'m \<Rightarrow> 'k \<Rightarrow> 'v option"
    and insert :: "'k \<Rightarrow> 'v \<Rightarrow> 'm \<Rightarrow> 'm"
    and remove :: "'k \<Rightarrow> 'm \<Rightarrow> 'm"
    and modify :: "'k \<Rightarrow> ('v \<Rightarrow> 'v) \<Rightarrow> 'm \<Rightarrow> 'm"
    and entries :: "'m \<Rightarrow> ('k \<times> 'v) list"
    and invar :: "'m \<Rightarrow> bool"
  assumes lookup_insert: "lookup (insert k v m) = (lookup m)(k \<mapsto> v)"
    and lookup_remove: "lookup (remove k m) = (lookup m)(k := None)"
    and lookup_modify: "lookup (modify k f m) = (lookup m)(k := map_option f (lookup m k))"
    and entries_lookup: "invar m \<Longrightarrow> (k, v) \<in> set (entries m) \<longleftrightarrow> lookup m k = Some v"
    and entries_distinct: "invar m \<Longrightarrow> distinct (map fst (entries m))"
    and invar_insert: "invar m \<Longrightarrow> invar (insert k v m)"
    and invar_remove: "invar m \<Longrightarrow> invar (remove k m)"
    and invar_modify: "invar m \<Longrightarrow> invar (modify k f m)"
begin

lemma lookup_remove_all:
  "lookup (foldl (\<lambda>m k. remove k m) m ks) = (\<lambda>k. if k \<in> set ks then None else lookup m k)"
  by (induction ks arbitrary: m) (auto simp: lookup_remove fun_eq_iff)

lemma invar_remove_all: "invar m \<Longrightarrow> invar (foldl (\<lambda>m k. remove k m) m ks)"
  by (induction ks arbitrary: m) (auto simp: invar_remove)

lemma lookup_insert_all:
  "lookup (foldl (\<lambda>m (k, v). insert k v m) m kvs) = lookup m ++ map_of (rev kvs)"
  by (induction kvs arbitrary: m) (auto simp: lookup_insert)

text \<open>A filter of the entries that selects the same entries selects the same keys, whatever the
  order of the entries.\<close>

lemma filter_entries_lookup:
  "invar m \<Longrightarrow> (k, v) \<in> set (filter P (entries m)) \<longleftrightarrow> lookup m k = Some v \<and> P (k, v)"
  by (auto simp: entries_lookup)

lemma filter_entries_distinct:
  "invar m \<Longrightarrow> distinct (map fst (filter P (entries m)))"
  using entries_distinct by (simp add: distinct_map_filter)

lemma filter_entries_unique:
  assumes "invar m" and "filter P (entries m) = [(k, v)]"
  shows "lookup m k = Some v \<and> P (k, v) \<and> (\<forall>k' v'. lookup m k' = Some v' \<and> P (k', v') \<longrightarrow> k' = k)"
proof -
  have *: "(k', v') \<in> set [(k, v)] \<longleftrightarrow> lookup m k' = Some v' \<and> P (k', v')" for k' v'
    using filter_entries_lookup [OF assms(1), of k' v' P] unfolding assms(2) .
  have "lookup m k = Some v \<and> P (k, v)" using * [of k v] by simp
  moreover have "k' = k" if "lookup m k' = Some v' \<and> P (k', v')" for k' v'
    using * [of k' v'] that by simp
  ultimately show ?thesis by blast
qed

end

lemma hm_get_insert: "hm_get (hm_insert k v m) = (hm_get m)(k \<mapsto> v)"
  by (simp add: hm_get_def hm_insert_def update_conv' fun_eq_iff)

lemma hm_get_remove: "hm_get (hm_remove k m) = (hm_get m)(k := None)"
  by (simp add: hm_get_def hm_remove_def delete_conv' fun_eq_iff)

lemma hm_get_modify: "hm_get (hm_modify k f m) = (hm_get m)(k := map_option f (hm_get m k))"
  by (auto simp: hm_modify_def hm_get_insert fun_eq_iff split: option.splits)

lemma hm_wf_insert: "hm_wf m \<Longrightarrow> hm_wf (hm_insert k v m)"
  by (simp add: hm_wf_def hm_insert_def distinct_update)

lemma hm_wf_remove: "hm_wf m \<Longrightarrow> hm_wf (hm_remove k m)"
  by (simp add: hm_wf_def hm_remove_def distinct_delete)

interpretation hm: hash_map hm_get hm_insert hm_remove hm_modify "\<lambda>m. m" hm_wf
proof unfold_locales
  show "hm_wf m \<Longrightarrow> ((k, v) \<in> set m) = (hm_get m k = Some v)" for m :: "('k, 'v) hmap" and k v
    by (simp add: hm_wf_def hm_get_def)
  show "hm_wf m \<Longrightarrow> hm_wf (hm_modify k f m)" for m :: "('k, 'v) hmap" and k f
    by (simp add: hm_modify_def hm_wf_insert split: option.split)
qed (simp_all add: hm_get_insert hm_get_remove hm_get_modify hm_wf_insert hm_wf_remove, simp add: hm_wf_def)

lemma hm_get_Nil [simp]: "hm_get [] k = None"
  by (simp add: hm_get_def)

lemma hm_wf_Nil [simp]: "hm_wf []"
  by (simp add: hm_wf_def)

lemma hm_get_insert_if [simp]: "hm_get (hm_insert k v m) j = (if j = k then Some v else hm_get m j)"
  by (simp add: hm_get_insert)

lemma hm_get_remove_if [simp]: "hm_get (hm_remove k m) j = (if j = k then None else hm_get m j)"
  by (simp add: hm_get_remove)

lemma hm_get_modify_if [simp]:
  "hm_get (hm_modify k f m) j = (if j = k then map_option f (hm_get m k) else hm_get m j)"
  by (simp add: hm_get_modify)

lemmas hm_wf_intros [intro] = hm.invar_insert hm.invar_remove hm.invar_modify

text \<open>The first entry that satisfies a test, in iteration order (\<open>values().find(..)\<close>).\<close>

definition hm_find :: "('v \<Rightarrow> bool) \<Rightarrow> ('k, 'v) hmap \<Rightarrow> 'v option" where
  "hm_find P m = List.find P (map snd m)"

lemma hm_find_None: "hm_find P m = None \<longleftrightarrow> (\<forall>v \<in> snd ` set m. \<not> P v)"
  by (auto simp: hm_find_def find_None_iff)

section \<open>Computations with errors and state\<close>

type_synonym ('s, 'e, 'a) comp = "'s \<Rightarrow> ('e + 'a) \<times> 's"

definition ok :: "'a \<Rightarrow> ('s, 'e, 'a) comp" where
  "ok a s = (Inr a, s)"

definition fail :: "'e \<Rightarrow> ('s, 'e, 'a) comp" where
  "fail e s = (Inl e, s)"

text \<open>\<open>m?\<close> followed by the rest: an error returns at once and keeps the state reached so far.\<close>

definition bind :: "('s, 'e, 'a) comp \<Rightarrow> ('a \<Rightarrow> ('s, 'e, 'b) comp) \<Rightarrow> ('s, 'e, 'b) comp" where
  "bind m f s = (case m s of (Inl e, t) \<Rightarrow> (Inl e, t) | (Inr a, t) \<Rightarrow> f a t)"

definition gets :: "('s \<Rightarrow> 'a) \<Rightarrow> ('s, 'e, 'a) comp" where
  "gets f s = (Inr (f s), s)"

definition modify :: "('s \<Rightarrow> 's) \<Rightarrow> ('s, 'e, unit) comp" where
  "modify f s = (Inr (), f s)"

definition map_err :: "('e \<Rightarrow> 'f) \<Rightarrow> ('s, 'e, 'a) comp \<Rightarrow> ('s, 'f, 'a) comp" where
  "map_err g m s = (case m s of (Inl e, t) \<Rightarrow> (Inl (g e), t) | (Inr a, t) \<Rightarrow> (Inr a, t))"

definition ok_or :: "'e \<Rightarrow> 'a option \<Rightarrow> ('s, 'e, 'a) comp" where
  "ok_or e x = (case x of None \<Rightarrow> fail e | Some a \<Rightarrow> ok a)"

definition from_result :: "'e + 'a \<Rightarrow> ('s, 'e, 'a) comp" where
  "from_result r s = (r, s)"

text \<open>Run a computation on a component of a larger state.\<close>

definition on_part ::
  "('t \<Rightarrow> 's) \<Rightarrow> ('s \<Rightarrow> 't \<Rightarrow> 't) \<Rightarrow> ('s, 'e, 'a) comp \<Rightarrow> ('t, 'e, 'a) comp" where
  "on_part get put m t = (case m (get t) of (r, s) \<Rightarrow> (r, put s t))"

lemmas comp_defs = ok_def fail_def bind_def gets_def modify_def map_err_def ok_or_def
  from_result_def on_part_def

text \<open>\<open>preserves P m\<close>: whatever \<open>m\<close> returns, error or value, it keeps \<open>P\<close> of the state.\<close>

definition preserves :: "('s \<Rightarrow> bool) \<Rightarrow> ('s, 'e, 'a) comp \<Rightarrow> bool" where
  "preserves P m \<longleftrightarrow> (\<forall>s. P s \<longrightarrow> P (snd (m s)))"

named_theorems pres_intros

lemma preservesI: "(\<And>s. P s \<Longrightarrow> P (snd (m s))) \<Longrightarrow> preserves P m"
  by (simp add: preserves_def)

lemma preservesD: "preserves P m \<Longrightarrow> P s \<Longrightarrow> m s = (r, t) \<Longrightarrow> P t"
  by (auto simp: preserves_def)

lemma preserves_ok [pres_intros]: "preserves P (ok a)"
  by (simp add: preserves_def ok_def)

lemma preserves_fail [pres_intros]: "preserves P (fail e)"
  by (simp add: preserves_def fail_def)

lemma preserves_gets [pres_intros]: "preserves P (gets f)"
  by (simp add: preserves_def gets_def)

lemma preserves_from_result [pres_intros]: "preserves P (from_result r)"
  by (simp add: preserves_def from_result_def)

lemma preserves_ok_or [pres_intros]: "preserves P (ok_or e x)"
  by (simp add: ok_or_def preserves_ok preserves_fail split: option.split)

lemma preserves_bind [pres_intros]:
  "preserves P m \<Longrightarrow> (\<And>a. preserves P (f a)) \<Longrightarrow> preserves P (bind m f)"
  by (auto simp: preserves_def bind_def split: prod.split sum.split)

lemma preserves_map_err [pres_intros]: "preserves P m \<Longrightarrow> preserves P (map_err g m)"
  by (auto simp: preserves_def map_err_def split: prod.split sum.split)

lemma preserves_case_option [pres_intros]:
  "preserves P a \<Longrightarrow> (\<And>x. preserves P (b x)) \<Longrightarrow> preserves P (case z of None \<Rightarrow> a | Some x \<Rightarrow> b x)"
  by (simp split: option.split)

lemma preserves_if [pres_intros]:
  "preserves P a \<Longrightarrow> preserves P b \<Longrightarrow> preserves P (if c then a else b)"
  by simp

lemma preserves_on_part:
  assumes "preserves P m" and "\<And>s t. get (put s t) = s"
  shows "preserves (\<lambda>t. P (get t)) (on_part get put m)"
  using assms by (auto simp: preserves_def on_part_def split: prod.split)

end
