(* ===== verification/Template.thy ===== *)
theory Template
  imports Prelude
begin

text \<open>
  \<open>crates/runbook/src/template.rs\<close>: interpolation of \<open>${VAR:-default}\<close> from the environment and then
  of \<open>{name}\<close> from a map of variables. Each regular expression is a matcher that says, for a text,
  what the leftmost match starting at its first character is replaced by and how many further
  characters that match covers; \<open>replace_all\<close> scans the text from the left, as the \<open>regex\<close> crate
  documents. The characters that may follow a name end it in both expressions, so a greedy name is
  the only possible one.
\<close>

definition ident_start :: "char \<Rightarrow> bool" where
  "ident_start c \<longleftrightarrow>
     (let n = (of_char c :: nat) in (97 \<le> n \<and> n \<le> 122) \<or> (65 \<le> n \<and> n \<le> 90) \<or> n = 95)"

definition ident_char :: "char \<Rightarrow> bool" where
  "ident_char c \<longleftrightarrow> ident_start c \<or> (let n = (of_char c :: nat) in 48 \<le> n \<and> n \<le> 57)"

text \<open>\<open>\w\<close> is Unicode aware: the letters of U+0080 to U+00FF belong to it.\<close>

definition word_char :: "char \<Rightarrow> bool" where
  "word_char c \<longleftrightarrow>
     ident_char c \<or>
     (let n = (of_char c :: nat)
      in n = 170 \<or> n = 181 \<or> n = 186 \<or> (192 \<le> n \<and> n \<noteq> 215 \<and> n \<noteq> 247))"

fun replace_all :: "(string \<Rightarrow> (string \<times> nat) option) \<Rightarrow> string \<Rightarrow> string" where
  "replace_all m [] = []"
| "replace_all m (c # s) =
     (case m (c # s) of
        None \<Rightarrow> c # replace_all m s
      | Some (r, k) \<Rightarrow> r @ replace_all m (drop k s))"

definition match_var :: "(string, string) hmap \<Rightarrow> string \<Rightarrow> (string \<times> nat) option" where
  "match_var vars s =
     (case s of
        [] \<Rightarrow> None
      | c # r \<Rightarrow>
          (if c = CHR ''{'' then
             (let n = takeWhile ident_char r; t = dropWhile ident_char r
              in if n \<noteq> [] \<and> ident_start (hd n) \<and> starts_with t ''}''
                 then Some (case hm_get vars n of Some v \<Rightarrow> v | None \<Rightarrow> ''{'' @ n @ ''}'',
                            length n + 1)
                 else None)
           else None))"

definition match_env :: "(string \<Rightarrow> string option) \<Rightarrow> string \<Rightarrow> (string \<times> nat) option" where
  "match_env env s =
     (if starts_with s ''${'' then
        (let n = takeWhile word_char (drop 2 s); t = dropWhile word_char (drop 2 s)
         in if n \<noteq> [] \<and> starts_with t '':-'' then
              (let d = takeWhile (\<lambda>c. c \<noteq> CHR ''}'') (drop 2 t)
               in if starts_with (dropWhile (\<lambda>c. c \<noteq> CHR ''}'') (drop 2 t)) ''}''
                  then Some (case env n of Some v \<Rightarrow> v | None \<Rightarrow> d, length n + length d + 4)
                  else None)
            else None)
      else None)"

definition expand_env :: "(string \<Rightarrow> string option) \<Rightarrow> string \<Rightarrow> string" where
  "expand_env env s = replace_all (match_env env) s"

definition expand_vars :: "(string, string) hmap \<Rightarrow> string \<Rightarrow> string" where
  "expand_vars vars s = replace_all (match_var vars) s"

definition interpolate ::
  "(string \<Rightarrow> string option) \<Rightarrow> string \<Rightarrow> (string, string) hmap \<Rightarrow> string" where
  "interpolate env template vars = expand_vars vars (expand_env env template)"

section \<open>Lemmas\<close>

lemma replace_all_skip:
  assumes "\<And>t. P t \<Longrightarrow> t \<noteq> [] \<Longrightarrow> m (t @ s) = None" and "\<And>c t. P (c # t) \<Longrightarrow> P t" and "P a"
  shows "replace_all m (a @ s) = a @ replace_all m s"
  using assms(3)
proof (induction a)
  case Nil
  then show ?case by simp
next
  case (Cons c a)
  have "m ((c # a) @ s) = None" using assms(1) [of "c # a"] Cons.prems by blast
  with Cons assms(2) show ?case by simp
qed

lemma expand_vars_plain: "CHR ''{'' \<notin> set a \<Longrightarrow> expand_vars vars (a @ s) = a @ expand_vars vars s"
  unfolding expand_vars_def
proof (rule replace_all_skip [where P = "\<lambda>t. CHR ''{'' \<notin> set t"])
  fix t
  assume "CHR ''{'' \<notin> set t" "t \<noteq> []"
  then show "match_var vars (t @ s) = None" by (cases t) (auto simp: match_var_def)
qed auto

lemma expand_env_plain: "CHR ''$'' \<notin> set a \<Longrightarrow> expand_env env (a @ s) = a @ expand_env env s"
  unfolding expand_env_def
proof (rule replace_all_skip [where P = "\<lambda>t. CHR ''$'' \<notin> set t"])
  fix t
  assume "CHR ''$'' \<notin> set t" "t \<noteq> []"
  then show "match_env env (t @ s) = None" by (cases t) (auto simp: match_env_def)
qed auto

definition is_name :: "string \<Rightarrow> bool" where
  "is_name n \<longleftrightarrow> n \<noteq> [] \<and> ident_start (hd n) \<and> (\<forall>c \<in> set n. ident_char c)"

lemma ident_char_close [simp]: "\<not> ident_char CHR ''}''"
  by (simp add: ident_char_def ident_start_def)

lemma ident_char_dollar [simp]: "\<not> ident_char CHR ''$''"
  by (simp add: ident_char_def ident_start_def)

lemma takeWhile_name:
  "\<forall>c \<in> set n. P c \<Longrightarrow> \<not> P x \<Longrightarrow> takeWhile P (n @ x # s) = n \<and> dropWhile P (n @ x # s) = x # s"
  by (induction n) auto

lemma expand_vars_name:
  assumes "is_name n"
  shows "expand_vars vars (''{'' @ n @ ''}'' @ s) =
    (case hm_get vars n of Some v \<Rightarrow> v | None \<Rightarrow> ''{'' @ n @ ''}'') @ expand_vars vars s"
  using assms takeWhile_name [of n ident_char "CHR ''}''" s]
  by (simp add: expand_vars_def match_var_def is_name_def split: option.split)

lemma replace_all_id:
  assumes "\<And>s r k. m s = Some (r, k) \<Longrightarrow> r = take (k + 1) s"
  shows "replace_all m s = s"
proof (induction s rule: length_induct)
  case (1 s)
  show ?case
  proof (cases s)
    case (Cons c t)
    have ih: "replace_all m (drop k t) = drop k t" for k
      using 1 Cons by (simp add: less_Suc_eq_le)
    from ih [of 0] have "replace_all m t = t" by simp
    with Cons ih assms [of "c # t"] show ?thesis by (auto split: option.split)
  qed simp
qed

lemma match_var_id:
  assumes "match_var [] s = Some (r, k)"
  shows "r = take (k + 1) s"
proof -
  from assms obtain t where s: "s = CHR ''{'' # t"
    and t: "starts_with (dropWhile ident_char t) ''}''"
    and r: "r = ''{'' @ takeWhile ident_char t @ ''}''" and k: "k = length (takeWhile ident_char t) + 1"
    by (auto simp: match_var_def Let_def split: list.splits if_splits)
  from t obtain u where u: "dropWhile ident_char t = CHR ''}'' # u"
    by (cases "dropWhile ident_char t") auto
  have "t = takeWhile ident_char t @ CHR ''}'' # u"
    by (metis takeWhile_dropWhile_id u)
  then have "take (length (takeWhile ident_char t) + 1) t = takeWhile ident_char t @ ''}''"
    by (metis append_Cons append_Nil append_eq_conv_conj append_assoc length_append_singleton
        Suc_eq_plus1)
  with s r k show ?thesis by simp
qed

text \<open>With no variable defined the second pass leaves every text as it is.\<close>

lemma expand_vars_no_vars: "expand_vars [] s = s"
  unfolding expand_vars_def by (rule replace_all_id) (rule match_var_id)

section \<open>Properties\<close>

text \<open>Interpolation replaces a placeholder by the value of its variable exactly once: text
  without a brace or a dollar before it is copied, a defined variable gives its value as it is
  (braces inside the value are not expanded again), an undefined one stays as the placeholder,
  and the rest of the template is treated in the same way.\<close>

lemma interpolate_placeholder:
  assumes "is_name n" and "CHR ''{'' \<notin> set a" and "CHR ''$'' \<notin> set a"
  shows "interpolate env (a @ ''{'' @ n @ ''}'' @ s) vars =
    a @ (case hm_get vars n of Some v \<Rightarrow> v | None \<Rightarrow> ''{'' @ n @ ''}'') @ interpolate env s vars"
proof -
  have "expand_env env ((a @ ''{'' @ n @ ''}'') @ s) = (a @ ''{'' @ n @ ''}'') @ expand_env env s"
    by (rule expand_env_plain) (use assms(1,3) in \<open>auto simp: is_name_def\<close>)
  then show ?thesis
    using expand_vars_plain [OF assms(2)] expand_vars_name [OF assms(1)]
    by (simp add: interpolate_def)
qed

lemma interpolate_placeholder_witness:
  "interpolate (\<lambda>_. None) ''run {name}!'' [(''name'', ''{x}'')] = ''run {x}!''"
proof -
  have "interpolate (\<lambda>_. None) (''run '' @ ''{'' @ ''name'' @ ''}'' @ ''!'') [(''name'', ''{x}'')] =
    ''run '' @ ''{x}'' @ interpolate (\<lambda>_. None) ''!'' [(''name'', ''{x}'')]"
    by (subst interpolate_placeholder)
      (auto simp: is_name_def ident_char_def ident_start_def hm_get_def)
  moreover have "interpolate (\<lambda>_. None) ''!'' [(''name'', ''{x}'')] = ''!''"
    by (simp add: interpolate_def expand_env_def expand_vars_def match_env_def match_var_def)
  ultimately show ?thesis by simp
qed

end
