(* ===== verification/Arg_Spec.thy ===== *)
theory Arg_Spec
  imports Template "HOL-Library.Multiset"
begin

text \<open>
  The argument specification of a command (\<open>crates/runbook/src/command.rs\<close>): its data, the parser
  \<open>parse_arg_spec\<close> and its helpers, and the conversion of the old table format. The loop over the
  peekable character iterator is a recursive function over the characters not yet consumed; the
  local variables \<open>result\<close>, \<open>seen_optional_positional\<close> and \<open>names\<close> are a record.
\<close>

datatype arg_spec_error =
    InvalidSyntax string
  | VariadicNotLast string
  | OptionalBeforeRequired string
  | DuplicateName string

record arg_def =
  ad_name :: string
  ad_required :: bool

record flag_def =
  fd_name :: string
  fd_short :: "char option"

record option_def =
  od_name :: string
  od_short :: "char option"
  od_required :: bool

record variadic_def =
  vd_name :: string
  vd_required :: bool

record arg_spec =
  positional :: "arg_def list"
  flags :: "flag_def list"
  options :: "option_def list"
  variadic :: "variadic_def option"

definition arg_spec_default :: arg_spec where
  "arg_spec_default = \<lparr>positional = [], flags = [], options = [], variadic = None\<rparr>"

record parse_state =
  result :: arg_spec
  seen_optional :: bool
  names :: "string set"

definition parse_init :: parse_state where
  "parse_init = \<lparr>result = arg_spec_default, seen_optional = False, names = {}\<rparr>"

text \<open>The closure \<open>check_name\<close>.\<close>

definition check_name :: "string \<Rightarrow> parse_state \<Rightarrow> arg_spec_error + parse_state" where
  "check_name n st =
     (if n \<in> names st then Inl (DuplicateName n) else Inr (st\<lparr>names := insert n (names st)\<rparr>))"

definition add_positional :: "arg_def \<Rightarrow> parse_state \<Rightarrow> parse_state" where
  "add_positional a st =
     st\<lparr>result := (result st)\<lparr>positional := positional (result st) @ [a]\<rparr>\<rparr>"

definition add_flag :: "flag_def \<Rightarrow> parse_state \<Rightarrow> parse_state" where
  "add_flag f st = st\<lparr>result := (result st)\<lparr>flags := flags (result st) @ [f]\<rparr>\<rparr>"

definition add_option :: "option_def \<Rightarrow> parse_state \<Rightarrow> parse_state" where
  "add_option od st = st\<lparr>result := (result st)\<lparr>options := options (result st) @ [od]\<rparr>\<rparr>"

definition set_variadic :: "variadic_def \<Rightarrow> parse_state \<Rightarrow> parse_state" where
  "set_variadic v st = st\<lparr>result := (result st)\<lparr>variadic := Some v\<rparr>\<rparr>"

text \<open>\<open>trim_end_matches("...")\<close> removes every trailing group of three dots.\<close>

fun drop_dots :: "string \<Rightarrow> string" where
  "drop_dots (a # b # c # s) =
     (if a = CHR ''.'' \<and> b = CHR ''.'' \<and> c = CHR ''.'' then drop_dots s else a # b # c # s)"
| "drop_dots s = s"

definition trim_end_dots :: "string \<Rightarrow> string" where
  "trim_end_dots s = rev (drop_dots (rev s))"

section \<open>Names of flags\<close>

definition parse_flag_names :: "string \<Rightarrow> arg_spec_error + (char option \<times> string)" where
  "parse_flag_names part =
     (let flag_part = trim part
      in if CHR ''/'' \<in> set flag_part then
           (case split_on CHR ''/'' flag_part of
              [short0, long0] \<Rightarrow>
                (let short_part = trim short0; long_part = trim long0
                 in if starts_with short_part ''-'' \<and> \<not> starts_with short_part ''--'' then
                      (let short = (if length short_part > 1 then Some (short_part ! 1) else None)
                       in case strip_prefix long_part ''--'' of
                            Some stripped \<Rightarrow> Inr (short, stripped)
                          | None \<Rightarrow> Inl (InvalidSyntax (''invalid long flag: '' @ long_part)))
                    else Inl (InvalidSyntax (''invalid short flag: '' @ short_part)))
            | _ \<Rightarrow> Inl (InvalidSyntax (''invalid flag syntax: '' @ flag_part)))
         else
           (case strip_prefix flag_part ''--'' of
              Some stripped \<Rightarrow> Inr (None, stripped)
            | None \<Rightarrow>
                (if starts_with flag_part ''-'' then
                   (if length flag_part > 1 then Inr (Some (flag_part ! 1), [flag_part ! 1])
                    else Inl (InvalidSyntax ''empty flag''))
                 else Inl (InvalidSyntax (''flag must start with -: '' @ flag_part)))))"

definition parse_flag_or_option ::
  "string \<Rightarrow> bool \<Rightarrow> parse_state \<Rightarrow> arg_spec_error + parse_state" where
  "parse_flag_or_option cont required st =
     (let content = trim cont
      in case find_char CHR ''<'' content of
           Some val_start \<Rightarrow>
             (case parse_flag_names (trim (take val_start content)) of
                Inl e \<Rightarrow> Inl e
              | Inr (short, name) \<Rightarrow>
                  (case check_name name st of
                     Inl e \<Rightarrow> Inl e
                   | Inr st1 \<Rightarrow>
                       Inr (add_option \<lparr>od_name = name, od_short = short, od_required = required\<rparr>
                              st1)))
         | None \<Rightarrow>
             (case parse_flag_names content of
                Inl e \<Rightarrow> Inl e
              | Inr (short, name) \<Rightarrow>
                  (case check_name name st of
                     Inl e \<Rightarrow> Inl e
                   | Inr st1 \<Rightarrow> Inr (add_flag \<lparr>fd_name = name, fd_short = short\<rparr> st1))))"

section \<open>The arms of the loop\<close>

text \<open>What both variadic arms do with the name before the dots.\<close>

definition parse_variadic :: "string \<Rightarrow> bool \<Rightarrow> parse_state \<Rightarrow> arg_spec_error + parse_state" where
  "parse_variadic var_name required st =
     (case check_name var_name st of
        Inl e \<Rightarrow> Inl e
      | Inr st1 \<Rightarrow>
          (if variadic (result st1) \<noteq> None then Inl (VariadicNotLast var_name)
           else Inr (set_variadic \<lparr>vd_name = var_name, vd_required = required\<rparr> st1)))"

text \<open>The arm for \<open><\<close>, from the text between the angle brackets on.\<close>

definition parse_angle :: "string \<Rightarrow> parse_state \<Rightarrow> arg_spec_error + parse_state" where
  "parse_angle token st =
     (let name = trim token
      in if ends_with name ''...'' then parse_variadic (trim_end_dots name) True st
         else if variadic (result st) \<noteq> None then Inl (VariadicNotLast name)
         else if seen_optional st then Inl (OptionalBeforeRequired name)
         else (case check_name name st of
                 Inl e \<Rightarrow> Inl e
               | Inr st1 \<Rightarrow> Inr (add_positional \<lparr>ad_name = name, ad_required = True\<rparr> st1)))"

text \<open>The arm for \<open>[\<close>, from the text between the square brackets on.\<close>

definition parse_square :: "string \<Rightarrow> parse_state \<Rightarrow> arg_spec_error + parse_state" where
  "parse_square token st =
     (let content = trim token
      in if starts_with content ''-'' then parse_flag_or_option content False st
         else if ends_with content ''...'' then parse_variadic (trim_end_dots content) False st
         else if variadic (result st) \<noteq> None then Inl (VariadicNotLast content)
         else (case check_name content st of
                 Inl e \<Rightarrow> Inl e
               | Inr st1 \<Rightarrow>
                   Inr (add_positional \<lparr>ad_name = content, ad_required = False\<rparr>
                          (st1\<lparr>seen_optional := True\<rparr>))))"

text \<open>Consume up to and including a character; all of the text if it does not occur.\<close>

fun take_until :: "char \<Rightarrow> string \<Rightarrow> string \<times> string" where
  "take_until x [] = ([], [])"
| "take_until x (c # s) =
     (if c = x then ([], s) else (case take_until x s of (t, r) \<Rightarrow> (c # t, r)))"

text \<open>Consume up to the square bracket that closes the one already read.\<close>

fun take_bracket :: "nat \<Rightarrow> string \<Rightarrow> string \<times> string" where
  "take_bracket d [] = ([], [])"
| "take_bracket d (c # s) =
     (if c = CHR ''['' then (case take_bracket (d + 1) s of (t, r) \<Rightarrow> (c # t, r))
      else if c = CHR '']'' then
        (if d - 1 = 0 then ([], s) else (case take_bracket (d - 1) s of (t, r) \<Rightarrow> (c # t, r)))
      else (case take_bracket d s of (t, r) \<Rightarrow> (c # t, r)))"

definition skip_whitespace :: "string \<Rightarrow> string" where
  "skip_whitespace s = dropWhile is_whitespace s"

text \<open>The arm for \<open>-\<close>: the token up to the next white space, then a value in angle brackets if one
  follows. It gives the new state and the text left.\<close>

definition parse_dash :: "string \<Rightarrow> parse_state \<Rightarrow> (arg_spec_error + parse_state) \<times> string" where
  "parse_dash s st =
     (let token = CHR ''-'' # takeWhile (\<lambda>c. \<not> is_whitespace c) s;
          rest = skip_whitespace (dropWhile (\<lambda>c. \<not> is_whitespace c) s)
      in if starts_with rest ''<'' then
           (case take_until CHR ''>'' (tl rest) of
              (val_name, rest1) \<Rightarrow>
                (parse_flag_or_option (token @ '' <'' @ val_name @ ''>'') True st, rest1))
         else (parse_flag_or_option token True st, rest))"

lemma take_until_length: "length (snd (take_until x s)) \<le> length s"
  by (induction s) (auto split: prod.split)

lemma take_bracket_length: "length (snd (take_bracket d s)) \<le> length s"
proof (induction s arbitrary: d)
  case (Cons c s)
  show ?case using Cons [of "d + 1"] Cons [of "d - 1"] Cons [of d] by (auto split: prod.split)
qed simp

lemma skip_whitespace_length: "length (skip_whitespace s) \<le> length s"
  by (simp add: skip_whitespace_def length_dropWhile_le)

lemma parse_dash_length: "length (snd (parse_dash s st)) \<le> length s"
proof -
  let ?rest = "skip_whitespace (dropWhile (\<lambda>c. \<not> is_whitespace c) s)"
  have 1: "length ?rest \<le> length s"
    using skip_whitespace_length length_dropWhile_le le_trans by blast
  have "length (snd (take_until CHR ''>'' (tl ?rest))) \<le> length s"
    using take_until_length [of "CHR ''>''" "tl ?rest"] 1 by simp
  with 1 show ?thesis by (auto simp: parse_dash_def Let_def split: prod.split)
qed

function parse_loop :: "parse_state \<Rightarrow> string \<Rightarrow> arg_spec_error + arg_spec" where
  "parse_loop st [] = Inr (result st)"
| "parse_loop st (c # s) =
     (if c = CHR ''<'' then
        (let tr = take_until CHR ''>'' s
         in case parse_angle (fst tr) st of Inl e \<Rightarrow> Inl e | Inr st1 \<Rightarrow> parse_loop st1 (snd tr))
      else if c = CHR ''['' then
        (let tr = take_bracket 1 s
         in case parse_square (fst tr) st of Inl e \<Rightarrow> Inl e | Inr st1 \<Rightarrow> parse_loop st1 (snd tr))
      else if c = CHR ''-'' then
        (let xr = parse_dash s st
         in case fst xr of Inl e \<Rightarrow> Inl e | Inr st1 \<Rightarrow> parse_loop st1 (snd xr))
      else if is_whitespace c then parse_loop st s
      else Inl (InvalidSyntax (''unexpected character: '' @ [c])))"
  by pat_completeness auto
termination
proof (relation "measure (\<lambda>(st, s). length s)", goal_cases)
  case (2 st c s tr st1)
  then show ?case using take_until_length [of "CHR ''>''" s] by (simp add: less_Suc_eq_le)
next
  case (3 st c s tr st1)
  then show ?case using take_bracket_length [of 1 s] by (simp add: less_Suc_eq_le)
next
  case (4 st c s xr st1)
  then show ?case using parse_dash_length [of s st] by (simp add: less_Suc_eq_le)
qed auto

definition parse_arg_spec :: "string \<Rightarrow> arg_spec_error + arg_spec" where
  "parse_arg_spec spec =
     (let s = trim spec in if s = [] then Inr arg_spec_default else parse_loop parse_init s)"

text \<open>The table format of \<open>ArgSpec::deserialize\<close>: names of positional arguments and a map of named
  ones (whose values are ignored).\<close>

definition arg_spec_of_table ::
  "string list \<Rightarrow> (string, string option) hmap \<Rightarrow> arg_spec" where
  "arg_spec_of_table pos named =
     \<lparr>positional = map (\<lambda>n. \<lparr>ad_name = n, ad_required = True\<rparr>) pos, flags = [],
      options = map (\<lambda>(n, _). \<lparr>od_name = n, od_short = None, od_required = False\<rparr>) named,
      variadic = None\<rparr>"

definition positional_names :: "arg_spec \<Rightarrow> string list" where
  "positional_names sp = map ad_name (positional sp)"

section \<open>Well-formed specifications\<close>

definition spec_names :: "arg_spec \<Rightarrow> string list" where
  "spec_names sp =
     map ad_name (positional sp) @ map fd_name (flags sp) @ map od_name (options sp) @
     (case variadic sp of None \<Rightarrow> [] | Some v \<Rightarrow> [vd_name v])"

definition required_first :: "arg_spec \<Rightarrow> bool" where
  "required_first sp \<longleftrightarrow>
     sorted_wrt (\<lambda>a b. ad_required b \<longrightarrow> ad_required a) (positional sp)"

definition parse_inv :: "parse_state \<Rightarrow> bool" where
  "parse_inv st \<longleftrightarrow>
     names st = set (spec_names (result st)) \<and> distinct (spec_names (result st)) \<and>
     required_first (result st) \<and>
     (seen_optional st \<longleftrightarrow> (\<exists>a \<in> set (positional (result st)). \<not> ad_required a))"

lemma parse_inv_init: "parse_inv parse_init"
  by (simp add: parse_inv_def parse_init_def arg_spec_default_def spec_names_def required_first_def)

lemma check_name_Inr:
  "check_name n st = Inr st1 \<longleftrightarrow> n \<notin> names st \<and> st1 = st\<lparr>names := insert n (names st)\<rparr>"
  by (auto simp: check_name_def)

text \<open>A new name enters the specification: what is left to show for each arm.\<close>

lemma parse_inv_add:
  assumes "parse_inv st" and "n \<notin> names st"
    and "mset (spec_names (result st')) = add_mset n (mset (spec_names (result st)))"
    and "names st' = insert n (names st)" and "required_first (result st')"
    and "seen_optional st' \<longleftrightarrow> (\<exists>a \<in> set (positional (result st')). \<not> ad_required a)"
  shows "parse_inv st'"
proof -
  have m: "mset (spec_names (result st')) = mset (n # spec_names (result st))"
    using assms(3) by simp
  from mset_eq_imp_distinct_iff [OF m] mset_eq_setD [OF m] assms show ?thesis
    by (simp add: parse_inv_def)
qed

lemma parse_inv_option:
  "parse_inv st \<Longrightarrow> od_name d \<notin> names st \<Longrightarrow>
   parse_inv (add_option d (st\<lparr>names := insert (od_name d) (names st)\<rparr>))"
  by (rule parse_inv_add [of st "od_name d"])
    (auto simp: add_option_def spec_names_def parse_inv_def required_first_def)

lemma parse_inv_flag:
  "parse_inv st \<Longrightarrow> fd_name d \<notin> names st \<Longrightarrow>
   parse_inv (add_flag d (st\<lparr>names := insert (fd_name d) (names st)\<rparr>))"
  by (rule parse_inv_add [of st "fd_name d"])
    (auto simp: add_flag_def spec_names_def parse_inv_def required_first_def)

lemma parse_inv_variadic:
  "parse_inv st \<Longrightarrow> vd_name d \<notin> names st \<Longrightarrow> variadic (result st) = None \<Longrightarrow>
   parse_inv (set_variadic d (st\<lparr>names := insert (vd_name d) (names st)\<rparr>))"
  by (rule parse_inv_add [of st "vd_name d"])
    (auto simp: set_variadic_def spec_names_def parse_inv_def required_first_def)

lemma parse_inv_positional:
  assumes "parse_inv st" and "ad_name d \<notin> names st" and "ad_required d \<longrightarrow> \<not> seen_optional st"
  shows "parse_inv (add_positional d (st\<lparr>names := insert (ad_name d) (names st),
    seen_optional := (seen_optional st \<or> \<not> ad_required d)\<rparr>))"
proof (rule parse_inv_add [OF assms(1,2)])
  show "required_first (result (add_positional d (st\<lparr>names := insert (ad_name d) (names st),
      seen_optional := (seen_optional st \<or> \<not> ad_required d)\<rparr>)))"
    using assms(1,3) by (auto simp: add_positional_def parse_inv_def required_first_def sorted_wrt_append)
qed (use assms(1) in \<open>auto simp: add_positional_def spec_names_def parse_inv_def\<close>)

lemma parse_flag_or_option_cases:
  "parse_flag_or_option c r st = Inr st1 \<Longrightarrow>
   (\<exists>d. od_name d \<notin> names st \<and> st1 = add_option d (st\<lparr>names := insert (od_name d) (names st)\<rparr>)) \<or>
   (\<exists>d. fd_name d \<notin> names st \<and> st1 = add_flag d (st\<lparr>names := insert (fd_name d) (names st)\<rparr>))"
  unfolding parse_flag_or_option_def Let_def check_name_def
  by (auto split: option.splits sum.splits prod.splits if_splits) (metis flag_def.select_convs(1)
      option_def.select_convs(1))+

lemma parse_flag_or_option_inv:
  "parse_inv st \<Longrightarrow> parse_flag_or_option c r st = Inr st1 \<Longrightarrow> parse_inv st1"
  by (auto dest!: parse_flag_or_option_cases intro: parse_inv_option parse_inv_flag)

lemma parse_variadic_inv:
  assumes "parse_inv st" and "parse_variadic n r st = Inr st1"
  shows "parse_inv st1"
  using assms parse_inv_variadic [of st "\<lparr>vd_name = n, vd_required = r\<rparr>"]
  by (auto simp: parse_variadic_def check_name_Inr split: sum.splits if_splits)

lemma parse_angle_inv:
  assumes inv: "parse_inv st" and p: "parse_angle t st = Inr st1"
  shows "parse_inv st1"
proof (cases "ends_with (trim t) ''...''")
  case True
  with p parse_variadic_inv [OF inv] show ?thesis by (auto simp: parse_angle_def Let_def)
next
  case False
  let ?d = "\<lparr>ad_name = trim t, ad_required = True\<rparr>"
  from False p have ns: "\<not> seen_optional st" "trim t \<notin> names st"
    and st1: "st1 = add_positional ?d (st\<lparr>names := insert (trim t) (names st)\<rparr>)"
    by (auto simp: parse_angle_def Let_def check_name_Inr split: sum.splits if_splits)
  have "st1 = add_positional ?d (st\<lparr>names := insert (ad_name ?d) (names st),
      seen_optional := (seen_optional st \<or> \<not> ad_required ?d)\<rparr>)"
    using ns(1) st1 by (cases st) simp
  moreover have "parse_inv (add_positional ?d (st\<lparr>names := insert (ad_name ?d) (names st),
      seen_optional := (seen_optional st \<or> \<not> ad_required ?d)\<rparr>))"
    by (rule parse_inv_positional [OF inv]) (use ns in simp_all)
  ultimately show ?thesis by simp
qed

lemma parse_square_inv:
  assumes inv: "parse_inv st" and p: "parse_square t st = Inr st1"
  shows "parse_inv st1"
proof -
  let ?st2 = "st\<lparr>names := insert (trim t) (names st), seen_optional := True\<rparr>"
  have "parse_flag_or_option (trim t) False st = Inr st1 \<or>
    parse_variadic (trim_end_dots (trim t)) False st = Inr st1 \<or>
    (trim t \<notin> names st \<and> st1 = add_positional \<lparr>ad_name = trim t, ad_required = False\<rparr> ?st2)"
    using p unfolding parse_square_def Let_def check_name_def by (simp split: if_splits)
  moreover have "parse_inv (add_positional \<lparr>ad_name = trim t, ad_required = False\<rparr> ?st2)"
    if "trim t \<notin> names st"
    using parse_inv_positional [OF inv, of "\<lparr>ad_name = trim t, ad_required = False\<rparr>"] that by simp
  ultimately show ?thesis
    using parse_flag_or_option_inv [OF inv] parse_variadic_inv [OF inv] by blast
qed

lemma parse_dash_inv: "parse_inv st \<Longrightarrow> fst (parse_dash s st) = Inr st1 \<Longrightarrow> parse_inv st1"
  by (auto simp: parse_dash_def Let_def dest: parse_flag_or_option_inv split: prod.splits if_splits)

lemma parse_loop_ConsE:
  assumes "parse_loop st (c # s) = Inr sp" and "parse_inv st"
  obtains st1 r where "length r \<le> length s" "parse_inv st1" "parse_loop st1 r = Inr sp"
proof -
  from assms(1) consider
      st1 where "parse_angle (fst (take_until CHR ''>'' s)) st = Inr st1"
        "parse_loop st1 (snd (take_until CHR ''>'' s)) = Inr sp"
    | st1 where "parse_square (fst (take_bracket 1 s)) st = Inr st1"
        "parse_loop st1 (snd (take_bracket 1 s)) = Inr sp"
    | st1 where "fst (parse_dash s st) = Inr st1" "parse_loop st1 (snd (parse_dash s st)) = Inr sp"
    | "parse_loop st s = Inr sp"
    by (auto simp: Let_def split: if_splits sum.splits)
  then show ?thesis
  proof cases
    case 1
    then show ?thesis using that parse_angle_inv [OF assms(2)] take_until_length by blast
  next
    case 2
    then show ?thesis using that parse_square_inv [OF assms(2)] take_bracket_length by blast
  next
    case 3
    then show ?thesis using that parse_dash_inv [OF assms(2)] parse_dash_length by blast
  next
    case 4
    then show ?thesis using that assms(2) by blast
  qed
qed

lemma parse_loop_wf:
  "parse_inv st \<Longrightarrow> parse_loop st s = Inr sp \<Longrightarrow> distinct (spec_names sp) \<and> required_first sp"
proof (induction "length s" arbitrary: st s rule: less_induct)
  case less
  show ?case
  proof (cases s)
    case Nil
    with less.prems show ?thesis by (auto simp: parse_inv_def)
  next
    case (Cons c t)
    with less.prems obtain st1 r where "length r \<le> length t" "parse_inv st1" "parse_loop st1 r = Inr sp"
      by (blast elim: parse_loop_ConsE)
    with less.hyps [of r st1] Cons show ?thesis by simp
  qed
qed

lemma parse_arg_spec_wf_aux:
  assumes "parse_arg_spec s = Inr sp"
  shows "distinct (spec_names sp) \<and> required_first sp"
proof (cases "trim s = []")
  case True
  with assms have "sp = arg_spec_default" by (simp add: parse_arg_spec_def)
  then show ?thesis by (simp add: arg_spec_default_def spec_names_def required_first_def)
next
  case False
  with assms have "parse_loop parse_init (trim s) = Inr sp" by (simp add: parse_arg_spec_def)
  then show ?thesis by (rule parse_loop_wf [OF parse_inv_init])
qed

end
