(* ===== verification/Arg_Spec_Print.thy ===== *)
theory Arg_Spec_Print
  imports Arg_Spec
begin

text \<open>
  A printer for argument specifications in the documented syntax of \<open>parse_arg_spec\<close>, and the proof
  that parsing what it prints gives the specification back. The printer is the abstract reading of
  the syntax (positional arguments, then the variadic one, then flags, then options); it is not
  code of the repository.
\<close>

section \<open>The printer\<close>

definition print_positional :: "arg_def \<Rightarrow> string" where
  "print_positional a =
     (if ad_required a then ''<'' @ ad_name a @ ''>'' else ''['' @ ad_name a @ '']'')"

definition print_variadic :: "variadic_def \<Rightarrow> string" where
  "print_variadic v =
     (if vd_required v then ''<'' @ vd_name v @ ''...>'' else ''['' @ vd_name v @ ''...]'')"

definition print_names :: "char option \<Rightarrow> string \<Rightarrow> string" where
  "print_names short n =
     (case short of None \<Rightarrow> ''--'' @ n | Some c \<Rightarrow> ''-'' @ [c] @ ''/--'' @ n)"

definition print_flag :: "flag_def \<Rightarrow> string" where
  "print_flag f = print_names (fd_short f) (fd_name f)"

definition print_option :: "option_def \<Rightarrow> string" where
  "print_option d =
     (let t = print_names (od_short d) (od_name d) @ '' <value>''
      in if od_required d then t else ''['' @ t @ '']'')"

definition print_items :: "arg_spec \<Rightarrow> string list" where
  "print_items sp =
     map print_positional (positional sp) @
     (case variadic sp of None \<Rightarrow> [] | Some v \<Rightarrow> [print_variadic v]) @
     map print_flag (flags sp) @ map print_option (options sp)"

definition spaced :: "string list \<Rightarrow> string" where
  "spaced xs = concat (map (\<lambda>x. '' '' @ x) xs)"

definition print_arg_spec :: "arg_spec \<Rightarrow> string" where
  "print_arg_spec sp = tl (spaced (print_items sp))"

text \<open>Names made of letters, digits, underscores and inner hyphens; short flags of one letter,
  digit or underscore.\<close>

definition name_char :: "char \<Rightarrow> bool" where
  "name_char c \<longleftrightarrow> ident_char c \<or> c = CHR ''-''"

definition plain_name :: "string \<Rightarrow> bool" where
  "plain_name n \<longleftrightarrow> n \<noteq> [] \<and> (\<forall>c \<in> set n. name_char c) \<and> hd n \<noteq> CHR ''-''"

definition plain_short :: "char option \<Rightarrow> bool" where
  "plain_short s \<longleftrightarrow> (case s of None \<Rightarrow> True | Some c \<Rightarrow> ident_char c)"

definition printable :: "arg_spec \<Rightarrow> bool" where
  "printable sp \<longleftrightarrow>
     (\<forall>n \<in> set (spec_names sp). plain_name n) \<and>
     (\<forall>f \<in> set (flags sp). plain_short (fd_short f)) \<and>
     (\<forall>d \<in> set (options sp). plain_short (od_short d)) \<and>
     distinct (spec_names sp) \<and> required_first sp"

section \<open>Characters\<close>

lemma ident_char_not:
  "ident_char c \<Longrightarrow> \<not> is_whitespace c \<and> c \<notin> {CHR ''<'', CHR ''>'', CHR ''['', CHR '']'', CHR ''/'', CHR ''.'', CHR ''-''}"
  by (auto simp: ident_char_def ident_start_def is_whitespace_def Let_def)

lemma name_char_not:
  "name_char c \<Longrightarrow> \<not> is_whitespace c \<and> c \<notin> {CHR ''<'', CHR ''>'', CHR ''['', CHR '']'', CHR ''/'', CHR ''.''}"
  using ident_char_not by (auto simp: name_char_def is_whitespace_def)

lemma name_notin:
  assumes "plain_name n"
  shows "CHR ''<'' \<notin> set n" "CHR ''>'' \<notin> set n" "CHR ''['' \<notin> set n" "CHR '']'' \<notin> set n"
    "CHR ''/'' \<notin> set n" "CHR ''.'' \<notin> set n" "\<forall>c \<in> set n. \<not> is_whitespace c" "n \<noteq> []"
    "hd n \<noteq> CHR ''-''"
  using assms name_char_not unfolding plain_name_def by blast+

lemma trim_id:
  assumes "s = [] \<or> (\<not> is_whitespace (hd s) \<and> \<not> is_whitespace (last s))"
  shows "trim s = s"
proof (cases "s = []")
  case True
  then show ?thesis by (simp add: trim_def trim_start_def trim_end_def)
next
  case False
  with assms have "dropWhile is_whitespace s = s" by (cases s) auto
  moreover have "dropWhile is_whitespace (rev s) = rev s"
    using assms False by (cases s rule: rev_cases) auto
  ultimately show ?thesis by (simp add: trim_def trim_start_def trim_end_def)
qed

lemma trim_name [simp]: "plain_name n \<Longrightarrow> trim n = n"
  using name_notin(7,8) by (intro trim_id) auto

lemma ws_space [simp]: "is_whitespace CHR '' ''"
  by (simp add: is_whitespace_def)

lemma not_ws [simp]: "\<not> is_whitespace CHR ''-''" "\<not> is_whitespace CHR ''/''"
  "\<not> is_whitespace CHR ''.''" "\<not> is_whitespace CHR ''>''" "\<not> is_whitespace CHR ''<''"
  "\<not> is_whitespace CHR ''[''" "\<not> is_whitespace CHR '']''"
  by (simp_all add: is_whitespace_def)

lemma take_until_app: "x \<notin> set n \<Longrightarrow> take_until x (n @ x # r) = (n, r)"
  by (induction n) auto

lemma take_bracket_app:
  "CHR ''['' \<notin> set n \<Longrightarrow> CHR '']'' \<notin> set n \<Longrightarrow> take_bracket 1 (n @ CHR '']'' # r) = (n, r)"
  by (induction n) auto

lemma ends_with_dots_name: "plain_name n \<Longrightarrow> \<not> ends_with n ''...''"
  using name_notin(6) [of n] by (auto simp: ends_with_suffix suffix_def)

lemma trim_end_dots_name:
  assumes "plain_name n"
  shows "trim_end_dots (n @ ''...'') = n"
proof -
  obtain c t where r: "rev n = c # t" using name_notin(8) [OF assms] by (cases "rev n") auto
  then have "c \<in> set n" by (metis list.set_intros(1) set_rev)
  then have "c \<noteq> CHR ''.''" using name_notin(6) [OF assms] by auto
  then have "drop_dots (rev n) = rev n" unfolding r by (cases "c # t" rule: drop_dots.cases) auto
  then show ?thesis by (simp add: trim_end_dots_def)
qed

section \<open>Each item parses to its effect\<close>

definition put_positional :: "arg_def \<Rightarrow> parse_state \<Rightarrow> parse_state" where
  "put_positional a st = add_positional a (st\<lparr>names := insert (ad_name a) (names st),
     seen_optional := (seen_optional st \<or> \<not> ad_required a)\<rparr>)"

definition put_variadic :: "variadic_def \<Rightarrow> parse_state \<Rightarrow> parse_state" where
  "put_variadic v st = set_variadic v (st\<lparr>names := insert (vd_name v) (names st)\<rparr>)"

definition put_flag :: "flag_def \<Rightarrow> parse_state \<Rightarrow> parse_state" where
  "put_flag f st = add_flag f (st\<lparr>names := insert (fd_name f) (names st)\<rparr>)"

definition put_option :: "option_def \<Rightarrow> parse_state \<Rightarrow> parse_state" where
  "put_option d st = add_option d (st\<lparr>names := insert (od_name d) (names st)\<rparr>)"

lemma flag_eta [simp]: "\<lparr>fd_name = fd_name f, fd_short = fd_short f\<rparr> = f"
  by (cases f) simp

lemma option_eta [simp]:
  "\<lparr>od_name = od_name d, od_short = od_short d, od_required = od_required d\<rparr> = d"
  by (cases d) simp

lemma variadic_eta [simp]: "\<lparr>vd_name = vd_name v, vd_required = vd_required v\<rparr> = v"
  by (cases v) simp

lemma parse_angle_name:
  assumes "plain_name n" and "n \<notin> names st" and "variadic (result st) = None"
    and "\<not> seen_optional st"
  shows "parse_angle n st = Inr (put_positional \<lparr>ad_name = n, ad_required = True\<rparr> st)"
proof -
  have "put_positional \<lparr>ad_name = n, ad_required = True\<rparr> st =
      add_positional \<lparr>ad_name = n, ad_required = True\<rparr> (st\<lparr>names := insert n (names st)\<rparr>)"
    using assms(4) by (cases st) (simp add: put_positional_def)
  with assms show ?thesis
    by (simp add: parse_angle_def ends_with_dots_name check_name_def Let_def)
qed

lemma parse_square_name:
  assumes "plain_name n" and "n \<notin> names st" and "variadic (result st) = None"
  shows "parse_square n st = Inr (put_positional \<lparr>ad_name = n, ad_required = False\<rparr> st)"
  using assms name_notin(8,9) [OF assms(1)]
  by (cases n) (auto simp: parse_square_def ends_with_dots_name check_name_def put_positional_def
      Let_def)

lemma parse_positional:
  assumes "plain_name (ad_name a)" and "ad_name a \<notin> names st" and "variadic (result st) = None"
    and "ad_required a \<longrightarrow> \<not> seen_optional st"
  shows "parse_loop st (print_positional a @ r) = parse_loop (put_positional a st) r"
proof (cases "ad_required a")
  case True
  then have a: "a = \<lparr>ad_name = ad_name a, ad_required = True\<rparr>" by (cases a) simp
  show ?thesis
    using True assms parse_angle_name [OF assms(1-3)] take_until_app [OF name_notin(2) [OF assms(1)], of r] a
    by (simp add: print_positional_def Let_def)
next
  case False
  then have a: "a = \<lparr>ad_name = ad_name a, ad_required = False\<rparr>" by (cases a) simp
  show ?thesis
    using False assms parse_square_name [OF assms(1-3)]
      take_bracket_app [OF name_notin(3) [OF assms(1)] name_notin(4) [OF assms(1)], of r] a
    by (simp add: print_positional_def Let_def)
qed

lemma trim_dots [simp]: "plain_name n \<Longrightarrow> trim (n @ ''...'') = n @ ''...''"
  using name_notin(7,8) by (intro trim_id) auto

lemma parse_variadic_item:
  assumes "plain_name (vd_name v)" and "vd_name v \<notin> names st" and "variadic (result st) = None"
  shows "parse_loop st (print_variadic v @ r) = parse_loop (put_variadic v st) r"
proof -
  let ?n = "vd_name v"
  note nn = name_notin [OF assms(1)]
  have put: "parse_variadic ?n (vd_required v) st = Inr (put_variadic v st)"
    using assms(2,3) by (simp add: parse_variadic_def check_name_def put_variadic_def)
  have ew: "ends_with (?n @ ''...'') ''...''" by simp
  show ?thesis
  proof (cases "vd_required v")
    case True
    have "parse_angle (?n @ ''...'') st = Inr (put_variadic v st)"
      using put True ew by (simp add: parse_angle_def assms(1) trim_end_dots_name del: ends_with_append)
    moreover have "take_until CHR ''>'' ((?n @ ''...'') @ CHR ''>'' # r) = (?n @ ''...'', r)"
      by (rule take_until_app) (use nn in auto)
    ultimately show ?thesis using True by (simp add: print_variadic_def Let_def)
  next
    case False
    have "\<not> starts_with (?n @ ''...'') ''-''" using nn(8,9) by (cases ?n) auto
    then have "parse_square (?n @ ''...'') st = Inr (put_variadic v st)"
      using put False ew by (simp add: parse_square_def assms(1) trim_end_dots_name del: ends_with_append)
    moreover have "take_bracket 1 ((?n @ ''...'') @ CHR '']'' # r) = (?n @ ''...'', r)"
      by (rule take_bracket_app) (use nn in auto)
    ultimately show ?thesis using False by (simp add: print_variadic_def Let_def)
  qed
qed

subsection \<open>Flags and options\<close>

lemma print_names_chars:
  assumes "plain_name n" and "plain_short s"
  shows "\<forall>c \<in> set (print_names s n). \<not> is_whitespace c"
    and "CHR ''<'' \<notin> set (print_names s n)" and "CHR ''['' \<notin> set (print_names s n)"
    and "CHR '']'' \<notin> set (print_names s n)"
    and "print_names s n = CHR ''-'' # tl (print_names s n)"
  using name_notin [OF assms(1)] assms(2) ident_char_not
  by (auto simp: print_names_def plain_short_def split: option.splits)

lemma trim_names [simp]: "plain_name n \<Longrightarrow> plain_short s \<Longrightarrow> trim (print_names s n) = print_names s n"
  using print_names_chars(1,5) [of n s] by (intro trim_id) (metis last_in_set list.distinct(1) list.set_sel(1))

lemma parse_flag_names_print:
  assumes "plain_name n" and "plain_short s"
  shows "parse_flag_names (print_names s n) = Inr (s, n)"
proof (cases s)
  case None
  have "CHR ''/'' \<notin> set (print_names s n)"
    using None name_notin(5) [OF assms(1)] by (simp add: print_names_def)
  with assms None show ?thesis
    by (simp add: parse_flag_names_def Let_def) (simp add: print_names_def strip_prefix_def)
next
  case (Some c)
  have c: "c \<noteq> CHR ''/''" "c \<noteq> CHR ''-''" "\<not> is_whitespace c"
    using assms(2) Some ident_char_not by (auto simp: plain_short_def)
  have "split_on CHR ''/'' ([CHR ''-'', c] @ CHR ''/'' # ''--'' @ n) = [[CHR ''-'', c], ''--'' @ n]"
    by (subst split_on_sep) (use c name_notin(5) [OF assms(1)] in \<open>auto simp: split_on_no_sep\<close>)
  then have sp: "split_on CHR ''/'' (print_names s n) = [[CHR ''-'', c], ''--'' @ n]"
    using Some by (simp add: print_names_def)
  have "trim [CHR ''-'', c] = [CHR ''-'', c]" by (rule trim_id) (use c in auto)
  moreover have "trim (''--'' @ n) = ''--'' @ n"
    by (rule trim_id) (use name_notin(7,8) [OF assms(1)] in auto)
  moreover have "CHR ''/'' \<in> set (print_names s n)" using Some by (simp add: print_names_def)
  ultimately show ?thesis using sp assms c Some
    by (simp add: parse_flag_names_def Let_def strip_prefix_def)
qed

lemma parse_flag_text:
  assumes "plain_name (fd_name f)" and "plain_short (fd_short f)" and "fd_name f \<notin> names st"
  shows "parse_flag_or_option (print_flag f) rq st = Inr (put_flag f st)"
proof -
  have "find_char CHR ''<'' (print_flag f) = None"
    using print_names_chars(2) [OF assms(1,2)] by (simp add: find_char_None print_flag_def)
  with assms show ?thesis
    by (simp add: parse_flag_or_option_def Let_def print_flag_def parse_flag_names_print
        check_name_def put_flag_def)
qed

lemma find_char_app: "x \<notin> set a \<Longrightarrow> find_char x (a @ x # b) = Some (length a)"
  by (induction a) auto

lemma trim_end_space: "s \<noteq> [] \<Longrightarrow> \<not> is_whitespace (hd s) \<Longrightarrow> \<not> is_whitespace (last s) \<Longrightarrow>
    trim (s @ '' '') = s"
proof -
  assume s: "s \<noteq> []" "\<not> is_whitespace (hd s)" "\<not> is_whitespace (last s)"
  then have "trim_start (s @ '' '') = s @ '' ''" by (cases s) (auto simp: trim_start_def)
  moreover have "trim_end (s @ '' '') = s" using s by (cases s rule: rev_cases) (auto simp: trim_end_def)
  ultimately show ?thesis by (simp add: trim_def)
qed

lemma parse_option_text:
  assumes "plain_name (od_name d)" and "plain_short (od_short d)" and "od_name d \<notin> names st"
  shows "parse_flag_or_option (print_names (od_short d) (od_name d) @ '' <value>'') (od_required d) st
    = Inr (put_option d st)"
proof -
  let ?t = "print_names (od_short d) (od_name d)"
  note ch = print_names_chars [OF assms(1,2)]
  have ne: "?t \<noteq> []" "\<not> is_whitespace (hd ?t)" "\<not> is_whitespace (last ?t)"
    using ch(1,5) by (metis list.distinct(1), metis ch(5) list.distinct(1) list.set_sel(1),
        metis ch(5) last_in_set list.distinct(1))
  have tr: "trim (?t @ '' <value>'') = ?t @ '' <value>''"
    by (rule trim_id) (use ne in auto)
  have "find_char CHR ''<'' ((?t @ '' '') @ CHR ''<'' # ''value>'') = Some (length (?t @ '' ''))"
    by (rule find_char_app) (use ch(2) in auto)
  then have fc: "find_char CHR ''<'' (?t @ '' <value>'') = Some (length ?t + 1)" by simp
  have "take (length ?t + 1) (?t @ '' <value>'') = ?t @ '' ''" by simp
  then have tk: "trim (take (length ?t + 1) (?t @ '' <value>'')) = ?t"
    by (simp only: trim_end_space [OF ne])
  show ?thesis
    unfolding parse_flag_or_option_def Let_def tr fc option.case tk
      parse_flag_names_print [OF assms(1,2)] sum.case prod.case
    using assms(3) by (simp add: check_name_def put_option_def)
qed

text \<open>What may follow a flag: nothing, or a space and then no angle bracket.\<close>

definition safe_rest :: "string \<Rightarrow> bool" where
  "safe_rest r \<longleftrightarrow> r = [] \<or> (\<exists>c t. r = CHR '' '' # c # t \<and> c \<noteq> CHR ''<'' \<and> \<not> is_whitespace c)"

lemma parse_loop_skip: "parse_loop st (skip_whitespace r) = parse_loop st r"
proof (induction r)
  case (Cons c r)
  have "c \<noteq> CHR ''<'' \<and> c \<noteq> CHR ''['' \<and> c \<noteq> CHR ''-''" if "is_whitespace c"
    using that by (auto simp: is_whitespace_def)
  with Cons show ?case by (auto simp: skip_whitespace_def)
qed (simp add: skip_whitespace_def)

lemma takeWhile_safe:
  assumes "\<forall>c \<in> set t. \<not> is_whitespace c" and "safe_rest r"
  shows "takeWhile (\<lambda>c. \<not> is_whitespace c) (t @ r) = t"
    and "dropWhile (\<lambda>c. \<not> is_whitespace c) (t @ r) = r"
  using assms by (auto simp: safe_rest_def takeWhile_append dropWhile_append)

lemma parse_flag_item:
  assumes "plain_name (fd_name f)" and "plain_short (fd_short f)" and "fd_name f \<notin> names st"
    and "safe_rest r"
  shows "parse_loop st (print_flag f @ r) = parse_loop (put_flag f st) r"
proof -
  note ch = print_names_chars [OF assms(1,2)]
  obtain t where t: "print_flag f = CHR ''-'' # t" using ch(5) by (auto simp: print_flag_def)
  have ws: "\<forall>c \<in> set t. \<not> is_whitespace c" using ch(1) t by (auto simp: print_flag_def)
  have "\<not> starts_with (skip_whitespace r) ''<''"
    using assms(4) by (auto simp: safe_rest_def skip_whitespace_def)
  then have "parse_dash (t @ r) st = (Inr (put_flag f st), skip_whitespace r)"
    using takeWhile_safe [OF ws assms(4)] parse_flag_text [OF assms(1-3), of True] t
    by (simp add: parse_dash_def Let_def)
  then show ?thesis by (simp add: t parse_loop_skip)
qed

lemma parse_option_item:
  assumes "plain_name (od_name d)" and "plain_short (od_short d)" and "od_name d \<notin> names st"
  shows "parse_loop st (print_option d @ r) = parse_loop (put_option d st) r"
proof -
  let ?t = "print_names (od_short d) (od_name d)"
  note ch = print_names_chars [OF assms(1,2)]
  obtain u where u: "?t = CHR ''-'' # u" using ch(5) by auto
  have ws: "\<forall>c \<in> set u. \<not> is_whitespace c" using ch(1) u by auto
  note pt = parse_option_text [OF assms]
  show ?thesis
  proof (cases "od_required d")
    case True
    let ?r = "'' <value>'' @ r"
    have tw: "takeWhile (\<lambda>c. \<not> is_whitespace c) (u @ ?r) = u"
      "dropWhile (\<lambda>c. \<not> is_whitespace c) (u @ ?r) = ?r"
      using ws by (auto simp: takeWhile_append dropWhile_append)
    have "take_until CHR ''>'' (''value'' @ CHR ''>'' # r) = (''value'', r)"
      by (rule take_until_app) simp
    then have "parse_dash (u @ ?r) st = (Inr (put_option d st), r)"
      using tw pt True u by (simp add: parse_dash_def Let_def skip_whitespace_def)
    then show ?thesis using True u by (simp add: print_option_def Let_def)
  next
    case False
    have "take_bracket 1 ((?t @ '' <value>'') @ CHR '']'' # r) = (?t @ '' <value>'', r)"
      by (rule take_bracket_app) (use ch in auto)
    moreover have "parse_square (?t @ '' <value>'') st = Inr (put_option d st)"
    proof -
      have "trim (?t @ '' <value>'') = ?t @ '' <value>''" by (rule trim_id) (simp add: u)
      with pt False u show ?thesis by (simp add: parse_square_def Let_def)
    qed
    ultimately show ?thesis using False by (simp add: print_option_def Let_def)
  qed
qed

section \<open>Lists of items\<close>

lemma spaced_simps [simp]: "spaced [] = []" "spaced (x # xs) = CHR '' '' # x @ spaced xs"
  "spaced (xs @ ys) = spaced xs @ spaced ys"
  by (simp_all add: spaced_def)

lemma parse_loop_space [simp]: "parse_loop st (CHR '' '' # s) = parse_loop st s"
  by simp

declare parse_loop.simps(2) [simp del]

lemma put_simps:
  "names (put_positional a st) = insert (ad_name a) (names st)"
  "result (put_positional a st) = (result st)\<lparr>positional := positional (result st) @ [a]\<rparr>"
  "seen_optional (put_positional a st) = (seen_optional st \<or> \<not> ad_required a)"
  "names (put_variadic v st) = insert (vd_name v) (names st)"
  "result (put_variadic v st) = (result st)\<lparr>variadic := Some v\<rparr>"
  "names (put_flag f st) = insert (fd_name f) (names st)"
  "result (put_flag f st) = (result st)\<lparr>flags := flags (result st) @ [f]\<rparr>"
  "names (put_option d st) = insert (od_name d) (names st)"
  "result (put_option d st) = (result st)\<lparr>options := options (result st) @ [d]\<rparr>"
  by (simp_all add: put_positional_def put_variadic_def put_flag_def put_option_def
      add_positional_def set_variadic_def add_flag_def add_option_def)

lemma fold_put_positional:
  "names (fold put_positional as st) = names st \<union> ad_name ` set as"
  "result (fold put_positional as st) = (result st)\<lparr>positional := positional (result st) @ as\<rparr>"
  by (induction as arbitrary: st) (auto simp: put_simps)

lemma fold_put_flag:
  "names (fold put_flag fs st) = names st \<union> fd_name ` set fs"
  "result (fold put_flag fs st) = (result st)\<lparr>flags := flags (result st) @ fs\<rparr>"
  by (induction fs arbitrary: st) (auto simp: put_simps)

lemma fold_put_option:
  "result (fold put_option ds st) = (result st)\<lparr>options := options (result st) @ ds\<rparr>"
  by (induction ds arbitrary: st) (auto simp: put_simps)

lemma parse_positionals:
  assumes "\<forall>a \<in> set as. plain_name (ad_name a)" and "distinct (map ad_name as)"
    and "names st \<inter> ad_name ` set as = {}" and "variadic (result st) = None"
    and "sorted_wrt (\<lambda>a b. ad_required b \<longrightarrow> ad_required a) as"
    and "seen_optional st \<longrightarrow> (\<forall>a \<in> set as. \<not> ad_required a)"
  shows "parse_loop st (spaced (map print_positional as) @ r) =
    parse_loop (fold put_positional as st) r"
  using assms
proof (induction as arbitrary: st)
  case (Cons a as)
  then have "parse_loop st (print_positional a @ spaced (map print_positional as) @ r) =
      parse_loop (put_positional a st) (spaced (map print_positional as) @ r)"
    by (intro parse_positional) auto
  also have "\<dots> = parse_loop (fold put_positional as (put_positional a st)) r"
    by (rule Cons.IH) (use Cons.prems in \<open>auto simp: put_simps\<close>)
  finally show ?case by simp
qed simp

lemma print_flag_head:
  "plain_name (fd_name f) \<Longrightarrow> plain_short (fd_short f) \<Longrightarrow> \<exists>t. print_flag f = CHR ''-'' # t"
  using print_names_chars(5) by (metis print_flag_def)

lemma print_option_head:
  assumes "plain_name (od_name d)" and "plain_short (od_short d)"
  shows "\<exists>c t. print_option d = c # t \<and> c \<noteq> CHR ''<'' \<and> \<not> is_whitespace c"
proof -
  obtain u where u: "print_names (od_short d) (od_name d) = CHR ''-'' # u"
    using print_names_chars(5) [OF assms] by auto
  then show ?thesis
    by (cases "od_required d") (auto simp: print_option_def Let_def is_whitespace_def)
qed

lemma safe_options:
  assumes "\<forall>d \<in> set ds. plain_name (od_name d) \<and> plain_short (od_short d)"
  shows "safe_rest (spaced (map print_option ds))"
  using assms print_option_head by (cases ds) (fastforce simp: safe_rest_def)+

lemma safe_flags:
  assumes "\<forall>f \<in> set fs. plain_name (fd_name f) \<and> plain_short (fd_short f)" and "safe_rest r"
  shows "safe_rest (spaced (map print_flag fs) @ r)"
proof (cases fs)
  case (Cons f gs)
  then obtain t where "print_flag f = CHR ''-'' # t" using assms(1) print_flag_head by auto
  with Cons show ?thesis by (simp add: safe_rest_def)
qed (use assms(2) in simp)

lemma parse_flags:
  assumes "\<forall>f \<in> set fs. plain_name (fd_name f) \<and> plain_short (fd_short f)"
    and "distinct (map fd_name fs)" and "names st \<inter> fd_name ` set fs = {}" and "safe_rest r"
  shows "parse_loop st (spaced (map print_flag fs) @ r) = parse_loop (fold put_flag fs st) r"
  using assms
proof (induction fs arbitrary: st)
  case (Cons f fs)
  then have "parse_loop st (print_flag f @ spaced (map print_flag fs) @ r) =
      parse_loop (put_flag f st) (spaced (map print_flag fs) @ r)"
    by (intro parse_flag_item safe_flags) auto
  also have "\<dots> = parse_loop (fold put_flag fs (put_flag f st)) r"
    by (rule Cons.IH) (use Cons.prems in \<open>auto simp: put_simps\<close>)
  finally show ?case by simp
qed simp

lemma parse_options:
  assumes "\<forall>d \<in> set ds. plain_name (od_name d) \<and> plain_short (od_short d)"
    and "distinct (map od_name ds)" and "names st \<inter> od_name ` set ds = {}"
  shows "parse_loop st (spaced (map print_option ds)) = parse_loop (fold put_option ds st) []"
  using assms
proof (induction ds arbitrary: st)
  case (Cons d ds)
  then have "parse_loop st (print_option d @ spaced (map print_option ds)) =
      parse_loop (put_option d st) (spaced (map print_option ds))"
    by (intro parse_option_item) auto
  also have "\<dots> = parse_loop (fold put_option ds (put_option d st)) []"
    by (rule Cons.IH) (use Cons.prems in \<open>auto simp: put_simps\<close>)
  finally show ?case by simp
qed simp

definition print_variadics :: "variadic_def option \<Rightarrow> string list" where
  "print_variadics v = (case v of None \<Rightarrow> [] | Some v \<Rightarrow> [print_variadic v])"

definition put_variadics :: "variadic_def option \<Rightarrow> parse_state \<Rightarrow> parse_state" where
  "put_variadics v st = (case v of None \<Rightarrow> st | Some v \<Rightarrow> put_variadic v st)"

lemma parse_variadics:
  assumes "\<And>w. v = Some w \<Longrightarrow> plain_name (vd_name w) \<and> vd_name w \<notin> names st"
    and "variadic (result st) = None"
  shows "parse_loop st (spaced (print_variadics v) @ r) = parse_loop (put_variadics v st) r"
  using assms parse_variadic_item by (simp add: print_variadics_def put_variadics_def split: option.split)

lemma parse_printed_items:
  assumes "printable sp"
  shows "parse_loop parse_init (spaced (print_items sp)) = Inr sp"
proof -
  let ?vn = "case variadic sp of None \<Rightarrow> {} | Some v \<Rightarrow> {vd_name v}"
  let ?s1 = "fold put_positional (positional sp) parse_init"
  let ?s2 = "put_variadics (variadic sp) ?s1"
  let ?s3 = "fold put_flag (flags sp) ?s2"
  let ?rest3 = "spaced (map print_option (options sp))"
  let ?rest2 = "spaced (map print_flag (flags sp)) @ ?rest3"
  have pl: "\<forall>a \<in> set (positional sp). plain_name (ad_name a)"
      "\<forall>f \<in> set (flags sp). plain_name (fd_name f) \<and> plain_short (fd_short f)"
      "\<forall>d \<in> set (options sp). plain_name (od_name d) \<and> plain_short (od_short d)"
      "\<And>w. variadic sp = Some w \<Longrightarrow> plain_name (vd_name w)"
    using assms by (auto simp: printable_def spec_names_def)
  have ds: "distinct (map ad_name (positional sp))" "distinct (map fd_name (flags sp))"
      "distinct (map od_name (options sp))"
      "ad_name ` set (positional sp) \<inter> fd_name ` set (flags sp) = {}"
      "(ad_name ` set (positional sp) \<union> fd_name ` set (flags sp)) \<inter> od_name ` set (options sp) = {}"
    using assms by (auto simp: printable_def spec_names_def)
  have vd: "?vn \<inter> (ad_name ` set (positional sp) \<union> fd_name ` set (flags sp) \<union> od_name ` set (options sp)) = {}"
    using assms by (auto simp: printable_def spec_names_def split: option.splits)
  have n2: "names ?s2 = ad_name ` set (positional sp) \<union> ?vn"
    by (auto simp: put_variadics_def put_simps fold_put_positional parse_init_def split: option.split)
  have "parse_loop parse_init (spaced (map print_positional (positional sp)) @
      spaced (print_variadics (variadic sp)) @ ?rest2) =
      parse_loop ?s1 (spaced (print_variadics (variadic sp)) @ ?rest2)"
    by (rule parse_positionals) (use pl ds assms in
        \<open>auto simp: parse_init_def arg_spec_default_def printable_def required_first_def\<close>)
  also have "\<dots> = parse_loop ?s2 ?rest2"
    by (rule parse_variadics)
      (use pl vd in \<open>auto simp: fold_put_positional parse_init_def arg_spec_default_def\<close>)
  also have "\<dots> = parse_loop ?s3 ?rest3"
    by (rule parse_flags [OF pl(2) ds(2) _ safe_options [OF pl(3)]]) (use n2 ds vd in auto)
  also have "\<dots> = parse_loop (fold put_option (options sp) ?s3) []"
    by (rule parse_options [OF pl(3) ds(3)]) (use n2 ds vd in \<open>auto simp: fold_put_flag\<close>)
  also have "\<dots> = Inr sp"
    by (cases sp) (auto simp: fold_put_option fold_put_flag fold_put_positional put_variadics_def
        put_simps parse_init_def arg_spec_default_def split: option.split)
  finally show ?thesis
    by (simp add: print_items_def print_variadics_def split: option.splits)
qed

lemma print_ends:
  assumes "printable sp" and "x \<in> set (print_items sp)"
  shows "x \<noteq> [] \<and> \<not> is_whitespace (hd x) \<and> \<not> is_whitespace (last x)"
proof -
  have flag: "print_names s n \<noteq> [] \<and> \<not> is_whitespace (hd (print_names s n)) \<and>
      \<not> is_whitespace (last (print_names s n))" if "plain_name n" "plain_short s" for s n
    using print_names_chars(1,5) [OF that]
    by (metis last_in_set list.distinct(1) list.set_sel(1))
  from assms(2) consider
      a where "a \<in> set (positional sp)" "x = print_positional a"
    | v where "variadic sp = Some v" "x = print_variadic v"
    | f where "f \<in> set (flags sp)" "x = print_flag f"
    | d where "d \<in> set (options sp)" "x = print_option d"
    by (cases "variadic sp") (auto simp: print_items_def)
  then show ?thesis
  proof cases
    case 3
    then show ?thesis using assms(1) flag
      by (auto simp: printable_def spec_names_def print_flag_def)
  next
    case 4
    then have "plain_name (od_name d)" "plain_short (od_short d)"
      using assms(1) by (auto simp: printable_def spec_names_def)
    from flag [OF this] 4 show ?thesis by (auto simp: print_option_def Let_def)
  qed (auto simp: print_positional_def print_variadic_def)
qed

lemma trim_printed:
  assumes "printable sp" and "print_items sp \<noteq> []"
  shows "trim (print_arg_spec sp) = print_arg_spec sp \<and> print_arg_spec sp \<noteq> []"
proof -
  obtain x xs where xs: "print_items sp = x # xs" using assms(2) by (cases "print_items sp") auto
  then have p: "print_arg_spec sp = x @ spaced xs" by (simp add: print_arg_spec_def)
  have x: "x \<noteq> []" "\<not> is_whitespace (hd x)" using print_ends [OF assms(1), of x] xs by auto
  have "spaced xs \<noteq> [] \<Longrightarrow> \<not> is_whitespace (last (spaced xs))"
  proof (cases xs rule: rev_cases)
    case (snoc ys y)
    then show ?thesis using print_ends [OF assms(1), of y] xs by simp
  qed simp
  with x print_ends [OF assms(1), of x] xs have "\<not> is_whitespace (last (x @ spaced xs))"
    by (cases "spaced xs = []") auto
  with x p show ?thesis by (auto intro!: trim_id)
qed

lemma print_parse_aux:
  assumes "printable sp"
  shows "parse_arg_spec (print_arg_spec sp) = Inr sp"
proof (cases "print_items sp = []")
  case True
  then have "sp = arg_spec_default"
    by (cases sp) (auto simp: print_items_def arg_spec_default_def split: option.splits)
  with True show ?thesis by (simp add: print_arg_spec_def parse_arg_spec_def trim_id)
next
  case False
  then have "spaced (print_items sp) = CHR '' '' # print_arg_spec sp"
    by (cases "print_items sp") (auto simp: print_arg_spec_def)
  with parse_printed_items [OF assms] trim_printed [OF assms False] show ?thesis
    by (simp add: parse_arg_spec_def)
qed

section \<open>Properties\<close>

text \<open>C35: when \<open>parse_arg_spec\<close> accepts a specification, all names in it (positional, flags,
  options and the variadic one together) are distinct, and no required positional argument comes
  after an optional one.\<close>

theorem parse_arg_spec_wf:
  assumes "parse_arg_spec s = Inr sp"
  shows "distinct (spec_names sp) \<and> required_first sp"
  by (rule parse_arg_spec_wf_aux [OF assms])

definition demo_spec :: arg_spec where
  "demo_spec =
     \<lparr>positional = [\<lparr>ad_name = ''src'', ad_required = True\<rparr>, \<lparr>ad_name = ''dst'', ad_required = False\<rparr>],
      flags = [\<lparr>fd_name = ''dry-run'', fd_short = Some CHR ''n''\<rparr>],
      options = [\<lparr>od_name = ''depth'', od_short = None, od_required = True\<rparr>,
        \<lparr>od_name = ''out'', od_short = Some CHR ''o'', od_required = False\<rparr>],
      variadic = Some \<lparr>vd_name = ''files'', vd_required = False\<rparr>\<rparr>"

lemma demo_spec_printable: "printable demo_spec"
  by (simp add: printable_def demo_spec_def spec_names_def plain_name_def name_char_def ident_char_def
      ident_start_def plain_short_def required_first_def)

lemma demo_spec_text:
  "print_arg_spec demo_spec = ''<src> [dst] [files...] -n/--dry-run --depth <value> [-o/--out <value>]''"
  by (simp add: print_arg_spec_def print_items_def demo_spec_def print_positional_def
      print_variadic_def print_flag_def print_option_def print_names_def)

theorem parse_arg_spec_wf_witness:
  "parse_arg_spec ''<src> [dst] [files...] -n/--dry-run --depth <value> [-o/--out <value>]'' = Inr demo_spec \<and>
   required_first demo_spec"
proof -
  have "parse_arg_spec ''<src> [dst] [files...] -n/--dry-run --depth <value> [-o/--out <value>]'' =
      Inr demo_spec"
    using print_parse_aux [OF demo_spec_printable] by (simp only: demo_spec_text)
  with parse_arg_spec_wf [OF this] show ?thesis by blast
qed

text \<open>C17: \<open>parse_arg_spec\<close> reads back every specification whose names are plain words: printed in
  the documented syntax (required and optional positional arguments, the variadic one, flags with
  and without a short alias, required and optional options) it parses to the same
  specification.\<close>

theorem parse_arg_spec_print:
  assumes "printable sp"
  shows "parse_arg_spec (print_arg_spec sp) = Inr sp"
  by (rule print_parse_aux [OF assms])

theorem parse_arg_spec_print_witness:
  "parse_arg_spec (print_arg_spec demo_spec) = Inr demo_spec"
  by (rule parse_arg_spec_print [OF demo_spec_printable])

end
