(* ===== verification/Core_Types.thy ===== *)
theory Core_Types
  imports Prelude
begin

text \<open>
  The data of \<open>crates/core\<close>: events (\<open>event.rs\<close>), WAL operations (\<open>operation.rs\<close>), effects with
  their tracing names and fields (\<open>effect.rs\<close>, \<open>traced.rs\<close>), the serialised form of durations,
  clocks and id generators.

  \<open>json\<close> has the variants of the public enum \<open>serde_json::Value\<close>, the payload of custom events;
  a number is kept as its literal. Instants are numbers of nanoseconds since an arbitrary origin,
  durations are numbers of nanoseconds.
\<close>

section \<open>JSON values carried by custom events\<close>

datatype json =
    JNull
  | JBool bool
  | JNumber string
  | JString string
  | JArray "json list"
  | JObject "(string \<times> json) list"

text \<open>\<open>data["key"].as_str()\<close>: indexing a value that is no object, or has no such key, gives
  \<open>Null\<close>, and only a string has a string view. \<open>data.get("key")\<close> is the same lookup as an option.\<close>

definition json_get :: "json \<Rightarrow> string \<Rightarrow> json option" where
  "json_get j k = (case j of JObject kvs \<Rightarrow> map_of kvs k | _ \<Rightarrow> None)"

definition as_str :: "json \<Rightarrow> string option" where
  "as_str j = (case j of JString s \<Rightarrow> Some s | _ \<Rightarrow> None)"

definition json_str_field :: "json \<Rightarrow> string \<Rightarrow> string option" where
  "json_str_field j k = Option.bind (json_get j k) as_str"

definition json_strings :: "(string \<times> string) list \<Rightarrow> json" where
  "json_strings kvs = JObject (map (\<lambda>(k, v). (k, JString v)) kvs)"

lemma json_str_field_strings [simp]: "json_str_field (json_strings kvs) k = map_of kvs k"
  by (induction kvs) (auto simp: json_str_field_def json_get_def json_strings_def as_str_def)

section \<open>Events\<close>

datatype event =
    CommandInvoked (ci_command: string) (ci_args: "(string, string) hmap")
  | WorkerWake (ww_worker: string)
  | SessionStarted (ss_session_id: string)
  | SessionOutput (so_session_id: string) (so_output: string)
  | SessionExited (se_session_id: string) (se_exit_code: int)
  | Timer (tm_id: string)
  | AgentDone (ad_pipeline_id: string)
  | AgentError (ae_pipeline_id: string) (ae_error: string)
  | ShellCompleted (sc_pipeline_id: string) (sc_phase: string) (sc_exit_code: int)
  | Custom (cu_name: string) (cu_data: json)

section \<open>Operations of the write-ahead log\<close>

datatype phase_status = Pending | Running | Waiting | Completed | Failed

datatype operation =
    PipelineCreate (pc_id: string) (pc_kind: string) (pc_name: string)
      (pc_inputs: "(string, string) hmap") (pc_initial_phase: string)
  | PipelineTransition (pt_id: string) (pt_phase: string)
  | PhaseStatusUpdate (ps_pipeline_id: string) (ps_status: phase_status)
  | PipelineDelete (pd_id: string)
  | SessionCreate (sn_id: string) (sn_pipeline_id: string)
  | SessionDelete (sd_id: string)
  | WorkspaceCreate (wc_id: string) (wc_path: path) (wc_branch: string)
  | WorkspaceDelete (wd_id: string)

definition default_init_phase :: string where
  "default_init_phase = ''init''"

section \<open>Effects\<close>

type_synonym duration = nat

datatype effect =
    Emit (em_event: event)
  | Spawn (sp_workspace_id: string) (sp_command: string) (sp_env: "(string \<times> string) list")
      (sp_cwd: "path option")
  | Send (sn_session_id: string) (sn_input: string)
  | Kill (ki_session_id: string)
  | WorktreeAdd (wa_branch: string) (wa_path: path)
  | WorktreeRemove (wr_path: path)
  | SetTimer (st_id: string) (st_duration: duration)
  | CancelTimer (ct_id: string)
  | Persist (pe_operation: operation)
  | Shell (sh_pipeline_id: string) (sh_phase: string) (sh_command: string) (sh_cwd: path)
      (sh_env: "(string, string) hmap")
  | Notify (no_title: string) (no_message: string)

fun effect_name :: "effect \<Rightarrow> string" where
  "effect_name (Emit _) = ''emit''"
| "effect_name (Spawn _ _ _ _) = ''spawn''"
| "effect_name (Send _ _) = ''send''"
| "effect_name (Kill _) = ''kill''"
| "effect_name (WorktreeAdd _ _) = ''worktree_add''"
| "effect_name (WorktreeRemove _) = ''worktree_remove''"
| "effect_name (SetTimer _ _) = ''set_timer''"
| "effect_name (CancelTimer _) = ''cancel_timer''"
| "effect_name (Persist _) = ''persist''"
| "effect_name (Shell _ _ _ _ _) = ''shell''"
| "effect_name (Notify _ _) = ''notify''"

definition as_millis :: "duration \<Rightarrow> nat" where
  "as_millis d = d div 1000000"

definition from_millis :: "nat \<Rightarrow> duration" where
  "from_millis m = m * 1000000"

definition from_secs :: "nat \<Rightarrow> duration" where
  "from_secs s = s * 1000000000"

text \<open>\<open>dbg_event\<close> and \<open>dbg_operation\<close> stand for the derived \<open>Debug\<close> output of the two enums.\<close>

fun effect_fields ::
  "(event \<Rightarrow> string) \<Rightarrow> (operation \<Rightarrow> string) \<Rightarrow> effect \<Rightarrow> (string \<times> string) list" where
  "effect_fields dbg_event dbg_operation (Emit e) = [(''event'', dbg_event e)]"
| "effect_fields dbg_event dbg_operation (Spawn w c _ cwd) =
     [(''workspace_id'', w), (''command'', c), (''cwd'', case cwd of None \<Rightarrow> [] | Some p \<Rightarrow> p)]"
| "effect_fields dbg_event dbg_operation (Send s _) = [(''session_id'', s)]"
| "effect_fields dbg_event dbg_operation (Kill s) = [(''session_id'', s)]"
| "effect_fields dbg_event dbg_operation (WorktreeAdd b p) = [(''branch'', b), (''path'', p)]"
| "effect_fields dbg_event dbg_operation (WorktreeRemove p) = [(''path'', p)]"
| "effect_fields dbg_event dbg_operation (SetTimer i d) =
     [(''timer_id'', i), (''duration_ms'', show_nat (as_millis d))]"
| "effect_fields dbg_event dbg_operation (CancelTimer i) = [(''timer_id'', i)]"
| "effect_fields dbg_event dbg_operation (Persist operation) =
     [(''operation'', dbg_operation operation)]"
| "effect_fields dbg_event dbg_operation (Shell i ph _ cwd _) =
     [(''pipeline_id'', i), (''phase'', ph), (''cwd'', cwd)]"
| "effect_fields dbg_event dbg_operation (Notify t _) = [(''title'', t)]"

text \<open>The \<open>duration_serde\<close> module: milliseconds as a number of 128 bits when written, of 64 bits
  when read; a number that does not fit in 64 bits is rejected (\<open>None\<close>).\<close>

definition duration_serialize :: "duration \<Rightarrow> nat" where
  "duration_serialize d = as_millis d"

definition duration_deserialize :: "nat \<Rightarrow> duration option" where
  "duration_deserialize n = (if n < 2 ^ 64 then Some (from_millis n) else None)"

section \<open>Id generators and clocks\<close>

text \<open>\<open>SequentialIdGen\<close>: \<open>fetch_add\<close> on an \<open>AtomicU64\<close> returns the old value and wraps.\<close>

record sequential_id_gen =
  sig_prefix :: string
  sig_counter :: nat

definition sequential_new :: "string \<Rightarrow> sequential_id_gen" where
  "sequential_new p = \<lparr>sig_prefix = p, sig_counter = 1\<rparr>"

definition sequential_default :: sequential_id_gen where
  "sequential_default = sequential_new ''id''"

definition sequential_next :: "sequential_id_gen \<Rightarrow> string \<times> sequential_id_gen" where
  "sequential_next g =
     (sig_prefix g @ ''-'' @ show_nat (sig_counter g),
      g\<lparr>sig_counter := (sig_counter g + 1) mod 2 ^ 64\<rparr>)"

fun sequential_ids :: "nat \<Rightarrow> sequential_id_gen \<Rightarrow> string list" where
  "sequential_ids 0 g = []"
| "sequential_ids (Suc n) g = (case sequential_next g of (i, g') \<Rightarrow> i # sequential_ids n g')"

type_synonym instant = nat

record fake_clock =
  fc_current :: instant

definition fake_clock_advance :: "duration \<Rightarrow> fake_clock \<Rightarrow> fake_clock" where
  "fake_clock_advance d c = c\<lparr>fc_current := fc_current c + d\<rparr>"

definition fake_clock_set :: "instant \<Rightarrow> fake_clock \<Rightarrow> fake_clock" where
  "fake_clock_set i c = c\<lparr>fc_current := i\<rparr>"

definition fake_clock_now :: "fake_clock \<Rightarrow> instant" where
  "fake_clock_now c = fc_current c"

section \<open>Properties\<close>

lemma duration_roundtrip_aux:
  "duration_deserialize (duration_serialize (from_millis m)) =
     (if m < 2 ^ 64 then Some (from_millis m) else None)"
  by (simp add: duration_deserialize_def duration_serialize_def as_millis_def from_millis_def)

lemma duration_deserialize_serialize:
  assumes "as_millis d < 2 ^ 64"
  shows "\<exists>d'. duration_deserialize (duration_serialize d) = Some d' \<and> d' \<le> d \<and> d - d' < 1000000"
  using assms mod_less_divisor [of 1000000 d] div_mult_mod_eq [of d 1000000]
  by (simp add: duration_deserialize_def duration_serialize_def from_millis_def as_millis_def)

lemma sequential_ids_nth:
  "sig_counter g + n \<le> 2 ^ 64 \<Longrightarrow> i < n \<Longrightarrow>
   sequential_ids n g ! i = sig_prefix g @ ''-'' @ show_nat (sig_counter g + i)"
proof (induction n arbitrary: g i)
  case 0
  then show ?case by simp
next
  case (Suc n)
  show ?case
  proof (cases i)
    case 0
    then show ?thesis by (simp add: sequential_next_def)
  next
    case (Suc k)
    let ?g = "g\<lparr>sig_counter := (sig_counter g + 1) mod 2 ^ 64\<rparr>"
    from Suc.prems Suc have *: "sig_counter ?g = sig_counter g + 1" by simp
    have "sequential_ids n ?g ! k = sig_prefix ?g @ ''-'' @ show_nat (sig_counter ?g + k)"
      by (rule Suc.IH) (use Suc.prems Suc * in auto)
    with Suc * show ?thesis by (simp add: sequential_next_def)
  qed
qed

lemma length_sequential_ids [simp]: "length (sequential_ids n g) = n"
  by (induction n arbitrary: g) (auto split: prod.split)

lemma sequential_ids_distinct:
  "sig_counter g + n \<le> 2 ^ 64 \<Longrightarrow> distinct (sequential_ids n g)"
  by (auto simp: distinct_conv_nth sequential_ids_nth)

end
