(* ===== verification/Session_Log.thy ===== *)
theory Session_Log
  imports Core_Types
begin

text \<open>
  \<open>crates/engine/src/session_log.rs\<close>: the state of an agent read from the last line of its session
  log, and the search for the log file. The JSON parser is a parameter. A log file that can be opened
  is the sequence of its lines, \<open>None\<close> where reading a line fails; a directory is the list of its
  entries, each a file name and the time it was modified, when that is known.
\<close>

section \<open>The state of a session\<close>

datatype failure_reason = Unauthorized | OutOfCredits | NoInternet | RateLimited | OtherReason string

datatype session_state = Working | WaitingForInput | SessionFailed failure_reason | Unknown

definition classify_error :: "string \<Rightarrow> failure_reason" where
  "classify_error err =
     (let l = to_lowercase err
      in if contains l ''unauthorized'' \<or> contains l ''invalid api key'' then Unauthorized
         else if contains l ''credit'' \<or> contains l ''quota'' \<or> contains l ''billing''
         then OutOfCredits
         else if contains l ''network'' \<or> contains l ''connection'' \<or> contains l ''offline''
         then NoInternet
         else if contains l ''rate limit'' \<or> contains l ''too many requests'' then RateLimited
         else OtherReason err)"

text \<open>\<open>json.get("message").and_then(|m| m.get(key)).and_then(|v| v.as_str())\<close>\<close>

definition message_str :: "json \<Rightarrow> string \<Rightarrow> string option" where
  "message_str j k =
     (case json_get j ''message'' of None \<Rightarrow> None | Some m \<Rightarrow> json_str_field m k)"

definition detect_error :: "json \<Rightarrow> failure_reason option" where
  "detect_error j =
     (case (case json_str_field j ''error'' of
              Some e \<Rightarrow> Some e
            | None \<Rightarrow> message_str j ''error'') of
        Some err \<Rightarrow> Some (classify_error err)
      | None \<Rightarrow> None)"

text \<open>The loop of \<open>check_state\<close>: the last line that is not blank, up to the first read error.\<close>

fun last_line :: "string \<Rightarrow> string option list \<Rightarrow> string" where
  "last_line acc [] = acc"
| "last_line acc (None # ls) = acc"
| "last_line acc (Some l # ls) = last_line (if trim l = [] then acc else l) ls"

definition state_of_json :: "json \<Rightarrow> session_state" where
  "state_of_json j =
     (case detect_error j of
        Some e \<Rightarrow> SessionFailed e
      | None \<Rightarrow>
          (if json_str_field j ''type'' = Some ''assistant'' then
             (let stop_reason = message_str j ''stop_reason''
              in if stop_reason = Some ''end_turn'' then WaitingForInput
                 else if stop_reason = Some ''tool_use'' then Working
                 else Unknown)
           else if json_str_field j ''type'' = Some ''user'' then Working
           else Unknown))"

definition check_state :: "(string \<Rightarrow> json option) \<Rightarrow> string option list option \<Rightarrow> session_state" where
  "check_state from_str file =
     (case file of
        None \<Rightarrow> Unknown
      | Some ls \<Rightarrow>
          (let l = last_line [] ls
           in if l = [] then Unknown
              else (case from_str l of None \<Rightarrow> Unknown | Some j \<Rightarrow> state_of_json j)))"

section \<open>Finding the log\<close>

text \<open>\<open>Path::extension\<close> of a file name.\<close>

definition extension :: "string \<Rightarrow> string option" where
  "extension n =
     (let after = takeWhile (\<lambda>c. c \<noteq> CHR ''.'') (rev n);
          rest = dropWhile (\<lambda>c. c \<noteq> CHR ''.'') (rev n)
      in if n = ''..'' \<or> length rest \<le> 1 then None else Some (rev after))"

definition modified_le :: "instant option \<Rightarrow> instant option \<Rightarrow> bool" where
  "modified_le a b =
     (case a of None \<Rightarrow> True | Some x \<Rightarrow> (case b of None \<Rightarrow> False | Some y \<Rightarrow> x \<le> y))"

text \<open>\<open>max_by_key\<close>: the last of the entries whose key is greatest.\<close>

fun max_by_modified :: "(string \<times> instant option) list \<Rightarrow> (string \<times> instant option) option" where
  "max_by_modified [] = None"
| "max_by_modified (e # es) =
     (case max_by_modified es of
        None \<Rightarrow> Some e
      | Some m \<Rightarrow> (if modified_le (snd e) (snd m) then Some m else Some e))"

definition find_session_log_in ::
  "(path \<Rightarrow> bool) \<Rightarrow> (path \<Rightarrow> (string \<times> instant option) list option) \<Rightarrow> (path \<Rightarrow> string) \<Rightarrow>
   path \<Rightarrow> string \<Rightarrow> path \<Rightarrow> path option" where
  "find_session_log_in exists read_dir hash_project_path project_path sid claude_base =
     (let project_dir =
            path_join (path_join claude_base ''projects'') (hash_project_path project_path)
      in if \<not> exists project_dir then None
         else (let session_file = path_join project_dir (sid @ ''.jsonl'')
               in if exists session_file then Some session_file
                  else (case read_dir project_dir of
                          None \<Rightarrow> None
                        | Some es \<Rightarrow>
                            map_option (\<lambda>e. path_join project_dir (fst e))
                              (max_by_modified
                                (filter (\<lambda>e. extension (fst e) = Some ''jsonl'') es)))))"

definition find_session_log ::
  "(string \<Rightarrow> string option) \<Rightarrow> path option \<Rightarrow> (path \<Rightarrow> bool) \<Rightarrow>
   (path \<Rightarrow> (string \<times> instant option) list option) \<Rightarrow> (path \<Rightarrow> string) \<Rightarrow>
   path \<Rightarrow> string \<Rightarrow> path option" where
  "find_session_log env home_dir exists read_dir hash_project_path project_path sid =
     (let claude_base =
            (case env ''CLAUDE_LOCAL_STATE_DIR'' of
               Some d \<Rightarrow> d
             | None \<Rightarrow> path_join (case home_dir of Some d \<Rightarrow> d | None \<Rightarrow> []) ''.claude'')
      in find_session_log_in exists read_dir hash_project_path project_path sid claude_base)"

section \<open>Lemmas\<close>

lemma last_line_append:
  "last_line acc (map Some ls @ rest) = last_line (last_line acc (map Some ls)) rest"
  by (induction ls arbitrary: acc) auto

lemma last_line_blank: "\<forall>l \<in> set ls. trim l = [] \<Longrightarrow> last_line acc (map Some ls) = acc"
  by (induction ls arbitrary: acc) auto

lemma last_line_stop: "last_line acc (ls @ None # rest) = last_line acc ls"
  by (induction acc ls rule: last_line.induct) auto

lemma last_line_ends:
  "trim l \<noteq> [] \<Longrightarrow> \<forall>b \<in> set blanks. trim b = [] \<Longrightarrow>
   last_line acc (map Some (ls @ l # blanks)) = l"
  using last_line_append [of acc ls "Some l # map Some blanks"] by (simp add: last_line_blank)

lemma modified_le_trans: "modified_le a b \<Longrightarrow> modified_le b c \<Longrightarrow> modified_le a c"
  by (auto simp: modified_le_def split: option.splits)

lemma modified_le_total: "modified_le a b \<or> modified_le b a"
  by (auto simp: modified_le_def split: option.splits)

lemma max_by_modified_max:
  "max_by_modified es = Some m \<Longrightarrow> m \<in> set es \<and> (\<forall>e \<in> set es. modified_le (snd e) (snd m))"
proof (induction es arbitrary: m)
  case (Cons e es)
  show ?case
  proof (cases "max_by_modified es")
    case None
    then have "es = []" by (cases es) (auto split: option.splits if_splits)
    with Cons.prems modified_le_total show ?thesis by auto
  next
    case (Some n)
    with Cons.IH have n: "n \<in> set es" "\<forall>e \<in> set es. modified_le (snd e) (snd n)" by auto
    show ?thesis
    proof (cases "modified_le (snd e) (snd n)")
      case True
      with Cons.prems Some n show ?thesis by auto
    next
      case False
      then have "modified_le (snd n) (snd e)" using modified_le_total by blast
      then have "modified_le (snd x) (snd e)" if "x \<in> set es" for x
        using n(2) that modified_le_trans by blast
      moreover have "m = e" using False Cons.prems Some by simp
      moreover have "modified_le (snd e) (snd e)" using modified_le_total by blast
      ultimately show ?thesis by auto
    qed
  qed
qed simp

lemma max_by_modified_None: "max_by_modified es = None \<longleftrightarrow> es = []"
  by (cases es) (auto split: option.splits)

section \<open>Properties\<close>

text \<open>The state of a session is decided by the last line of its log that is not blank: earlier
  lines, blank lines after it and everything past a read error do not matter; a log that cannot be
  opened, has no such line or whose line is no JSON gives \<open>Unknown\<close>.\<close>

lemma check_state_last_line:
  assumes "trim l \<noteq> []" and "\<forall>b \<in> set blanks. trim b = []"
  shows "check_state from_str (Some (map Some (ls @ l # blanks) @ None # rest)) =
      (case from_str l of None \<Rightarrow> Unknown | Some j \<Rightarrow> state_of_json j) \<and>
    check_state from_str (Some (map Some (ls @ l # blanks))) =
      (case from_str l of None \<Rightarrow> Unknown | Some j \<Rightarrow> state_of_json j) \<and>
    check_state from_str (Some (map Some blanks)) = Unknown \<and>
    check_state from_str None = Unknown"
proof -
  from assms(1) have "l \<noteq> []" by (auto simp: trim_def trim_start_def trim_end_def)
  then show ?thesis
    using last_line_ends [OF assms, of "[]" ls] last_line_blank [OF assms(2), of "[]"]
      last_line_stop [of "[]" "map Some (ls @ l # blanks)" rest]
    by (simp add: check_state_def)
qed

lemma check_state_last_line_witness:
  "check_state (\<lambda>l. if l = ''u'' then Some (json_strings [(''type'', ''user'')]) else None)
     (Some [Some ''x'', Some ''u'', Some '' '']) = Working"
proof -
  have "trim ''u'' \<noteq> []" "\<forall>b \<in> set ['' '']. trim b = []"
    by (simp_all add: trim_def trim_start_def trim_end_def is_whitespace_def)
  from check_state_last_line [OF this, of _ "[''x'']"] show ?thesis
    by (simp add: state_of_json_def detect_error_def message_str_def json_get_def json_strings_def
        json_str_field_def as_str_def)
qed

text \<open>C36: an error in the last line of a session's log that is not blank, at its top level or, if it has
  none there, under \<open>message\<close>, is the state of the session, whatever comes before, blank lines or a read
  error after it, and whatever the type of the line. The reason is the first that the text mentions in
  small or capital letters: the key, the credits, the connection, the rate of requests; a text that
  mentions none is reported as it is.\<close>

theorem detect_error_priority:
  assumes "trim l \<noteq> []" and "\<forall>b \<in> set blanks. trim b = []" and "from_str l = Some j"
    and "json_str_field j ''error'' = Some err \<or>
      (json_str_field j ''error'' = None \<and> message_str j ''error'' = Some err)"
    and "log = map Some (ls @ l # blanks) \<or> log = map Some (ls @ l # blanks) @ None # rest"
  defines "mentions words \<equiv> \<exists>k \<in> set words. contains (to_lowercase err) k"
  defines "key \<equiv> mentions [''unauthorized'', ''invalid api key'']"
    and "credit \<equiv> mentions [''credit'', ''quota'', ''billing'']"
    and "net \<equiv> mentions [''network'', ''connection'', ''offline'']"
    and "rate \<equiv> mentions [''rate limit'', ''too many requests'']"
  shows "\<exists>r. check_state from_str (Some log) = SessionFailed r \<and>
    (r = Unauthorized \<longleftrightarrow> key) \<and>
    (r = OutOfCredits \<longleftrightarrow> \<not> key \<and> credit) \<and>
    (r = NoInternet \<longleftrightarrow> \<not> key \<and> \<not> credit \<and> net) \<and>
    (r = RateLimited \<longleftrightarrow> \<not> key \<and> \<not> credit \<and> \<not> net \<and> rate) \<and>
    (\<forall>t. r = OtherReason t \<longleftrightarrow> t = err \<and> \<not> key \<and> \<not> credit \<and> \<not> net \<and> \<not> rate)"
proof -
  have "check_state from_str (Some log) = state_of_json j"
    using check_state_last_line [OF assms(1,2), of from_str ls rest] assms(3,5) by auto
  moreover have "detect_error j = Some (classify_error err)" using assms(4) by (auto simp: detect_error_def)
  ultimately have 1: "check_state from_str (Some log) = SessionFailed (classify_error err)"
    by (simp add: state_of_json_def)
  have 2: "classify_error err = (if key then Unauthorized else if credit then OutOfCredits
      else if net then NoInternet else if rate then RateLimited else OtherReason err)"
    by (simp add: classify_error_def mentions_def key_def credit_def net_def rate_def Let_def)
  show ?thesis unfolding 1 2 by auto
qed

definition last_line_parser :: "string \<Rightarrow> json option" where
  "last_line_parser l = (if l = ''e'' then Some (json_strings [(''type'', ''user''),
     (''error'', ''RATE LIMIT of connections'')]) else None)"

theorem detect_error_priority_witness:
  "check_state last_line_parser (Some [Some ''x'', Some ''e'', Some '' '', None, Some ''y'']) =
     SessionFailed NoInternet"
proof -
  let ?log = "[Some ''x'', Some ''e'', Some '' '', None, Some ''y'']"
  have l: "trim ''e'' \<noteq> []" "\<forall>b \<in> set ['' '']. trim b = []"
    by (simp_all add: trim_def trim_start_def trim_end_def is_whitespace_def)
  obtain j where j: "last_line_parser ''e'' = Some j"
    and e: "json_str_field j ''error'' = Some ''RATE LIMIT of connections''"
    by (simp add: last_line_parser_def)
  have log: "?log = map Some ([''x''] @ ''e'' # ['' '']) \<or>
      ?log = map Some ([''x''] @ ''e'' # ['' '']) @ None # [Some ''y'']" by simp
  have "contains (to_lowercase ''RATE LIMIT of connections'') ''connection''"
    "\<not> contains (to_lowercase ''RATE LIMIT of connections'') ''unauthorized''"
    "\<not> contains (to_lowercase ''RATE LIMIT of connections'') ''invalid api key''"
    "\<not> contains (to_lowercase ''RATE LIMIT of connections'') ''credit''"
    "\<not> contains (to_lowercase ''RATE LIMIT of connections'') ''quota''"
    "\<not> contains (to_lowercase ''RATE LIMIT of connections'') ''billing''" by code_simp+
  moreover from detect_error_priority [where ls = "[''x'']" and blanks = "['' '']" and rest = "[Some ''y'']" and
      log = ?log and l = "''e''" and from_str = last_line_parser and err = "''RATE LIMIT of connections''", OF l j disjI1 [OF e] log] obtain r where
    "check_state last_line_parser (Some ?log) = SessionFailed r"
    "(r = NoInternet) = (\<not> (\<exists>k \<in> set [''unauthorized'', ''invalid api key''].
        contains (to_lowercase ''RATE LIMIT of connections'') k) \<and>
      \<not> (\<exists>k \<in> set [''credit'', ''quota'', ''billing''].
        contains (to_lowercase ''RATE LIMIT of connections'') k) \<and>
      (\<exists>k \<in> set [''network'', ''connection'', ''offline''].
        contains (to_lowercase ''RATE LIMIT of connections'') k))" by blast
  ultimately show ?thesis by (simp only: list.set bex_simps ball_simps) simp
qed

text \<open>A log that is found lies in the directory of the project; the log named after the session
  is taken if it exists, and otherwise the file taken has the extension \<open>jsonl\<close> and no file with
  that extension was modified later.\<close>

lemma find_session_log_newest:
  defines "dir b ph \<equiv> path_join (path_join b ''projects'') ph"
  assumes "find_session_log_in ex rd hash pp sid base = Some p"
  shows "ex (dir base (hash pp)) \<and>
    (if ex (path_join (dir base (hash pp)) (sid @ ''.jsonl''))
     then p = path_join (dir base (hash pp)) (sid @ ''.jsonl'')
     else (\<exists>es n m. rd (dir base (hash pp)) = Some es \<and> (n, m) \<in> set es \<and>
             p = path_join (dir base (hash pp)) n \<and> extension n = Some ''jsonl'' \<and>
             (\<forall>(n', m') \<in> set es. extension n' = Some ''jsonl'' \<longrightarrow> modified_le m' m)))"
  using assms(2) unfolding find_session_log_in_def dir_def Let_def
  by (fastforce split: if_splits option.splits dest: max_by_modified_max)

lemma find_session_log_newest_witness:
  "find_session_log_in (\<lambda>p. p = ''/b/projects/h'')
     (\<lambda>_. Some [(''a.jsonl'', Some 3), (''b.jsonl'', Some 7), (''c.txt'', Some 9)]) (\<lambda>_. ''h'')
     ''/p'' ''s'' ''/b'' = Some ''/b/projects/h/b.jsonl'' \<and> modified_le (Some 3) (Some 7)"
proof -
  let ?ex = "\<lambda>p. p = ''/b/projects/h''"
  let ?rd = "\<lambda>_. Some [(''a.jsonl'', Some 3), (''b.jsonl'', Some 7), (''c.txt'', Some 9)]"
  have f: "find_session_log_in ?ex ?rd (\<lambda>_. ''h'') ''/p'' ''s'' ''/b'' =
      Some ''/b/projects/h/b.jsonl''"
    by code_simp
  show ?thesis using find_session_log_newest [OF f] f by (auto simp: modified_le_def)
qed

end
