(* ===== verification/Runbook.thy ===== *)
theory Runbook
  imports Arg_Spec
begin

text \<open>
  The definitions of a runbook: commands with the validation and parsing of their arguments
  (\<open>command.rs\<close>), pipelines and phases (\<open>pipeline.rs\<close>), agents and their actions (\<open>agent.rs\<close>),
  workers (\<open>worker.rs\<close>) and the lookup functions of \<open>Runbook\<close> (\<open>parser.rs\<close>). Reading the file of
  a prompt is the outcome it has, a parameter of \<open>get_prompt\<close>.
\<close>

section \<open>Run directives and commands\<close>

datatype run_directive =
    RunShell string
  | RunPipeline string
  | RunAgent string
  | RunStrategy string

definition is_shell :: "run_directive \<Rightarrow> bool" where
  "is_shell r = (case r of RunShell _ \<Rightarrow> True | _ \<Rightarrow> False)"

definition is_pipeline :: "run_directive \<Rightarrow> bool" where
  "is_pipeline r = (case r of RunPipeline _ \<Rightarrow> True | _ \<Rightarrow> False)"

definition is_agent :: "run_directive \<Rightarrow> bool" where
  "is_agent r = (case r of RunAgent _ \<Rightarrow> True | _ \<Rightarrow> False)"

definition is_strategy :: "run_directive \<Rightarrow> bool" where
  "is_strategy r = (case r of RunStrategy _ \<Rightarrow> True | _ \<Rightarrow> False)"

definition shell_command :: "run_directive \<Rightarrow> string option" where
  "shell_command r = (case r of RunShell c \<Rightarrow> Some c | _ \<Rightarrow> None)"

definition pipeline_name :: "run_directive \<Rightarrow> string option" where
  "pipeline_name r = (case r of RunPipeline p \<Rightarrow> Some p | _ \<Rightarrow> None)"

definition agent_name :: "run_directive \<Rightarrow> string option" where
  "agent_name r = (case r of RunAgent a \<Rightarrow> Some a | _ \<Rightarrow> None)"

definition strategy_name :: "run_directive \<Rightarrow> string option" where
  "strategy_name r = (case r of RunStrategy s \<Rightarrow> Some s | _ \<Rightarrow> None)"

datatype arg_validation_error =
    MissingPositional string
  | MissingOption string
  | MissingVariadic string

record command_def =
  cd_name :: string
  cd_args :: arg_spec
  cd_defaults :: "(string, string) hmap"
  cd_run :: run_directive

text \<open>The loop over the positional arguments, from index \<open>i\<close> on.\<close>

fun check_positional ::
  "command_def \<Rightarrow> string list \<Rightarrow> (string, string) hmap \<Rightarrow> nat \<Rightarrow> arg_def list \<Rightarrow>
   arg_validation_error option" where
  "check_positional cd pos named i [] = None"
| "check_positional cd pos named i (a # as) =
     (if ad_required a \<and>
         \<not> (i < length pos \<or> hm_contains named (ad_name a) \<or> hm_contains (cd_defaults cd) (ad_name a))
      then Some (MissingPositional (ad_name a))
      else check_positional cd pos named (i + 1) as)"

fun check_options ::
  "command_def \<Rightarrow> (string, string) hmap \<Rightarrow> option_def list \<Rightarrow> arg_validation_error option" where
  "check_options cd named [] = None"
| "check_options cd named (d # ds) =
     (if od_required d \<and>
         \<not> (hm_contains named (od_name d) \<or> hm_contains (cd_defaults cd) (od_name d))
      then Some (MissingOption (od_name d))
      else check_options cd named ds)"

definition check_variadic ::
  "command_def \<Rightarrow> string list \<Rightarrow> (string, string) hmap \<Rightarrow> arg_validation_error option" where
  "check_variadic cd pos named =
     (case variadic (cd_args cd) of
        None \<Rightarrow> None
      | Some v \<Rightarrow>
          (if vd_required v \<and>
              \<not> (length pos > length (positional (cd_args cd)) \<or> hm_contains named (vd_name v) \<or>
                 hm_contains (cd_defaults cd) (vd_name v))
           then Some (MissingVariadic (vd_name v)) else None))"

definition validate_args ::
  "command_def \<Rightarrow> string list \<Rightarrow> (string, string) hmap \<Rightarrow> arg_validation_error + unit" where
  "validate_args cd pos named =
     (case check_positional cd pos named 0 (positional (cd_args cd)) of
        Some e \<Rightarrow> Inl e
      | None \<Rightarrow>
          (case check_options cd named (options (cd_args cd)) of
             Some e \<Rightarrow> Inl e
           | None \<Rightarrow>
               (case check_variadic cd pos named of Some e \<Rightarrow> Inl e | None \<Rightarrow> Inr ())))"

fun bind_positional ::
  "string list \<Rightarrow> nat \<Rightarrow> arg_def list \<Rightarrow> (string, string) hmap \<Rightarrow> (string, string) hmap" where
  "bind_positional pos i [] m = m"
| "bind_positional pos i (a # as) m =
     bind_positional pos (i + 1) as (if i < length pos then hm_insert (ad_name a) (pos ! i) m else m)"

definition bind_variadic ::
  "command_def \<Rightarrow> string list \<Rightarrow> (string, string) hmap \<Rightarrow> (string, string) hmap" where
  "bind_variadic cd pos m =
     (case variadic (cd_args cd) of
        None \<Rightarrow> m
      | Some v \<Rightarrow>
          (let start = length (positional (cd_args cd))
           in if length pos > start then hm_insert (vd_name v) (join_with '' '' (drop start pos)) m
              else m))"

definition parse_args ::
  "command_def \<Rightarrow> string list \<Rightarrow> (string, string) hmap \<Rightarrow> (string, string) hmap" where
  "parse_args cd pos named =
     foldl (\<lambda>m (k, v). hm_insert k v m)
       (bind_variadic cd pos (bind_positional pos 0 (positional (cd_args cd)) (cd_defaults cd)))
       named"

section \<open>Pipelines\<close>

record phase_def =
  ph_name :: string
  ph_run :: run_directive
  ph_next :: "string option"
  ph_on_fail :: "string option"

record pipeline_def =
  pl_name :: string
  pl_inputs :: "string list"
  pl_defaults :: "(string, string) hmap"
  pl_phases :: "phase_def list"

definition phase_is_shell :: "phase_def \<Rightarrow> bool" where
  "phase_is_shell p = is_shell (ph_run p)"

definition phase_is_agent :: "phase_def \<Rightarrow> bool" where
  "phase_is_agent p = is_agent (ph_run p)"

definition phase_is_strategy :: "phase_def \<Rightarrow> bool" where
  "phase_is_strategy p = is_strategy (ph_run p)"

definition phase_agent_name :: "phase_def \<Rightarrow> string option" where
  "phase_agent_name p = agent_name (ph_run p)"

definition phase_shell_command :: "phase_def \<Rightarrow> string option" where
  "phase_shell_command p = shell_command (ph_run p)"

definition get_phase :: "pipeline_def \<Rightarrow> string \<Rightarrow> phase_def option" where
  "get_phase d n = List.find (\<lambda>p. ph_name p = n) (pl_phases d)"

definition first_phase :: "pipeline_def \<Rightarrow> phase_def option" where
  "first_phase d = (case pl_phases d of [] \<Rightarrow> None | p # _ \<Rightarrow> Some p)"

text \<open>\<open>iter().position(..)\<close>\<close>

fun position :: "('a \<Rightarrow> bool) \<Rightarrow> 'a list \<Rightarrow> nat option" where
  "position P [] = None"
| "position P (x # xs) = (if P x then Some 0 else map_option Suc (position P xs))"

definition next_phase :: "pipeline_def \<Rightarrow> string \<Rightarrow> phase_def option" where
  "next_phase d current =
     (case get_phase d current of
        None \<Rightarrow> None
      | Some p \<Rightarrow>
          (case ph_next p of
             Some n \<Rightarrow> get_phase d n
           | None \<Rightarrow>
               (case position (\<lambda>p. ph_name p = current) (pl_phases d) of
                  None \<Rightarrow> None
                | Some idx \<Rightarrow>
                    (if idx + 1 < length (pl_phases d) then Some (pl_phases d ! (idx + 1)) else None))))"

section \<open>Agents\<close>

datatype agent_action = Nudge | Done | Fail | Restart | Recover | Escalate

datatype action_config =
    Simple agent_action
  | WithOptions (wo_action: agent_action) (wo_message: "string option") (wo_append: bool)

datatype error_type = Unauthorized | OutOfCredits | NoInternet | RateLimited

record error_match =
  em_match :: "error_type option"
  em_action :: agent_action
  em_message :: "string option"
  em_append :: bool

datatype error_action_config = SimpleError action_config | ByType "error_match list"

record agent_def =
  ag_name :: string
  ag_run :: string
  ag_prompt :: "string option"
  ag_prompt_file :: "path option"
  ag_env :: "(string, string) hmap"
  ag_cwd :: "string option"
  on_idle :: action_config
  on_exit :: action_config
  on_error :: error_action_config

definition action_config_default :: action_config where
  "action_config_default = Simple Nudge"

definition with_message :: "agent_action \<Rightarrow> string \<Rightarrow> action_config" where
  "with_message a m = WithOptions a (Some m) False"

definition with_append :: "agent_action \<Rightarrow> string \<Rightarrow> action_config" where
  "with_append a m = WithOptions a (Some m) True"

fun action :: "action_config \<Rightarrow> agent_action" where
  "action (Simple a) = a"
| "action (WithOptions a _ _) = a"

fun message :: "action_config \<Rightarrow> string option" where
  "message (Simple _) = None"
| "message (WithOptions _ m _) = m"

fun append_flag :: "action_config \<Rightarrow> bool" where
  "append_flag (Simple _) = False"
| "append_flag (WithOptions _ _ ap) = ap"

definition error_action_default :: error_action_config where
  "error_action_default = SimpleError (Simple Escalate)"

definition action_for :: "error_action_config \<Rightarrow> error_type option \<Rightarrow> action_config" where
  "action_for c t =
     (case c of
        SimpleError config \<Rightarrow> config
      | ByType matches \<Rightarrow>
          (case List.find (\<lambda>m. em_match m = None \<or> em_match m = t) matches of
             Some m \<Rightarrow> WithOptions (em_action m) (em_message m) (em_append m)
           | None \<Rightarrow> Simple Escalate))"

definition default_on_exit :: action_config where
  "default_on_exit = Simple Escalate"

definition default_on_error :: error_action_config where
  "default_on_error = error_action_default"

definition agent_def_default :: agent_def where
  "agent_def_default =
     \<lparr>ag_name = [], ag_run = [], ag_prompt = None, ag_prompt_file = None, ag_env = [],
      ag_cwd = None, on_idle = action_config_default, on_exit = default_on_exit,
      on_error = default_on_error\<rparr>"

definition build_command :: "(string \<Rightarrow> string option) \<Rightarrow> agent_def \<Rightarrow> (string, string) hmap \<Rightarrow> string"
where
  "build_command env a vars = interpolate env (ag_run a) vars"

definition build_env ::
  "(string \<Rightarrow> string option) \<Rightarrow> agent_def \<Rightarrow> (string, string) hmap \<Rightarrow> (string \<times> string) list" where
  "build_env env a vars = map (\<lambda>(k, v). (k, interpolate env v vars)) (ag_env a)"

definition get_prompt ::
  "(string \<Rightarrow> string option) \<Rightarrow> (path \<Rightarrow> 'e + string) \<Rightarrow> agent_def \<Rightarrow> (string, string) hmap \<Rightarrow>
   'e + string" where
  "get_prompt env read a vars =
     (case ag_prompt_file a of
        Some file \<Rightarrow>
          (case read file of Inl e \<Rightarrow> Inl e | Inr t \<Rightarrow> Inr (interpolate env t vars))
      | None \<Rightarrow>
          (case ag_prompt a of
             Some t \<Rightarrow> Inr (interpolate env t vars)
           | None \<Rightarrow> Inr []))"

section \<open>Workers and the runbook\<close>

record worker_def =
  wd_name :: string
  wd_concurrency :: nat
  wd_pipelines :: "string list"

definition default_concurrency :: nat where
  "default_concurrency = 1"

record runbook =
  rb_commands :: "(string, command_def) hmap"
  rb_workers :: "(string, worker_def) hmap"
  rb_pipelines :: "(string, pipeline_def) hmap"
  rb_agents :: "(string, agent_def) hmap"

definition runbook_default :: runbook where
  "runbook_default = \<lparr>rb_commands = [], rb_workers = [], rb_pipelines = [], rb_agents = []\<rparr>"

definition get_command :: "runbook \<Rightarrow> string \<Rightarrow> command_def option" where
  "get_command rb n = hm_get (rb_commands rb) n"

definition get_pipeline_def :: "runbook \<Rightarrow> string \<Rightarrow> pipeline_def option" where
  "get_pipeline_def rb n = hm_get (rb_pipelines rb) n"

definition get_agent :: "runbook \<Rightarrow> string \<Rightarrow> agent_def option" where
  "get_agent rb n = hm_get (rb_agents rb) n"

definition get_worker :: "runbook \<Rightarrow> string \<Rightarrow> worker_def option" where
  "get_worker rb n = hm_get (rb_workers rb) n"

section \<open>Lemmas\<close>

lemma check_positional_None:
  "check_positional cd pos named i as = None \<Longrightarrow> j < length as \<Longrightarrow> ad_required (as ! j) \<Longrightarrow>
   i + j < length pos \<or> hm_contains named (ad_name (as ! j)) \<or>
   hm_contains (cd_defaults cd) (ad_name (as ! j))"
proof (induction as arbitrary: i j)
  case (Cons a as)
  from Cons.prems(1) have rest: "check_positional cd pos named (i + 1) as = None"
    by (auto split: if_splits)
  show ?case
  proof (cases j)
    case 0
    with Cons.prems show ?thesis by (auto split: if_splits)
  next
    case (Suc k)
    with Cons.IH [OF rest, of k] Cons.prems(2,3) show ?thesis by simp
  qed
qed simp

lemma check_options_None:
  "check_options cd named ds = None \<Longrightarrow> d \<in> set ds \<Longrightarrow> od_required d \<Longrightarrow>
   hm_contains named (od_name d) \<or> hm_contains (cd_defaults cd) (od_name d)"
  by (induction ds) (auto split: if_splits)

lemma bind_positional_other:
  "n \<notin> ad_name ` set as \<Longrightarrow> hm_get (bind_positional pos i as m) n = hm_get m n"
  by (induction as arbitrary: i m) auto

lemma bind_positional_mono:
  "hm_get m n \<noteq> None \<Longrightarrow> hm_get (bind_positional pos i as m) n \<noteq> None"
  by (induction as arbitrary: i m) auto

lemma bind_positional_nth:
  "distinct (map ad_name as) \<Longrightarrow> j < length as \<Longrightarrow> i + j < length pos \<Longrightarrow>
   hm_get (bind_positional pos i as m) (ad_name (as ! j)) = Some (pos ! (i + j))"
proof (induction as arbitrary: i j m)
  case (Cons a as)
  show ?case
  proof (cases j)
    case 0
    with Cons.prems show ?thesis by (auto simp: bind_positional_other)
  next
    case (Suc k)
    with Cons.prems Cons.IH [of k "i + 1"] show ?thesis by simp
  qed
qed simp

lemma bind_positional_bound:
  "j < length as \<Longrightarrow> i + j < length pos \<Longrightarrow>
   hm_get (bind_positional pos i as m) (ad_name (as ! j)) \<noteq> None"
proof (induction as arbitrary: i j m)
  case (Cons a as)
  show ?case
  proof (cases j)
    case 0
    with Cons.prems show ?thesis using bind_positional_mono by simp
  next
    case (Suc k)
    with Cons.prems Cons.IH [of k "i + 1"] show ?thesis by simp
  qed
qed simp

lemma bind_positional_position_aux:
  "distinct (map ad_name as) \<Longrightarrow>
   hm_get (bind_positional pos i as m) n =
     (case position (\<lambda>a. ad_name a = n) as of
        Some j \<Rightarrow> (if i + j < length pos then Some (pos ! (i + j)) else hm_get m n)
      | None \<Rightarrow> hm_get m n)"
proof (induction as arbitrary: i m)
  case (Cons a as)
  show ?case
  proof (cases "ad_name a = n")
    case True
    with Cons.prems show ?thesis by (auto simp: bind_positional_other)
  next
    case False
    with Cons show ?thesis by (auto split: option.split)
  qed
qed simp

lemma bind_variadic_get:
  "hm_get (bind_variadic cd pos m) n =
     (case variadic (cd_args cd) of
        Some v \<Rightarrow> (if n = vd_name v \<and> length pos > length (positional (cd_args cd))
                  then Some (join_with '' '' (drop (length (positional (cd_args cd))) pos))
                  else hm_get m n)
      | None \<Rightarrow> hm_get m n)"
  by (simp add: bind_variadic_def Let_def split: option.split)

lemma parse_args_get:
  "hm_wf named \<Longrightarrow>
   hm_get (parse_args cd pos named) n =
     (case hm_get named n of
        Some v \<Rightarrow> Some v
      | None \<Rightarrow> hm_get (bind_variadic cd pos
                  (bind_positional pos 0 (positional (cd_args cd)) (cd_defaults cd))) n)"
proof -
  assume "hm_wf named"
  then have "map_of (rev named) = hm_get named"
    unfolding hm_get_def by (subst map_of_inject_set) (simp_all add: hm_wf_def rev_map [symmetric])
  then show ?thesis by (simp add: parse_args_def hm.lookup_insert_all map_add_def split: option.split)
qed

lemma position_lt: "position P xs = Some i \<Longrightarrow> i < length xs \<and> P (xs ! i)"
  by (induction xs arbitrary: i) (auto split: if_splits)

lemma get_phase_SomeD: "get_phase d n = Some p \<Longrightarrow> p \<in> set (pl_phases d) \<and> ph_name p = n"
  by (auto simp: get_phase_def find_Some_iff)

lemma get_phase_nth:
  assumes "distinct (map ph_name (pl_phases d))" and "i < length (pl_phases d)"
  shows "get_phase d (ph_name (pl_phases d ! i)) = Some (pl_phases d ! i)"
  unfolding get_phase_def find_Some_iff
  using assms by (intro exI [of _ i]) (simp add: distinct_conv_nth)

lemma position_nth:
  "distinct (map f xs) \<Longrightarrow> i < length xs \<Longrightarrow> position (\<lambda>x. f x = f (xs ! i)) xs = Some i"
proof (induction xs arbitrary: i)
  case (Cons x xs)
  show ?case
  proof (cases i)
    case (Suc k)
    with Cons.prems have "f x \<noteq> f (xs ! k)" by (auto simp: image_iff)
    with Suc Cons show ?thesis by simp
  qed simp
qed simp

section \<open>Properties\<close>

text \<open>C18: when \<open>validate_args\<close> accepts the arguments of a command, \<open>parse_args\<close> gives a value to
  the name of every required positional argument, of every required option and of the required
  variadic argument.\<close>

theorem validated_args_bound:
  assumes "validate_args cd pos named = Inr ()" and "hm_wf named"
    and "n \<in> ad_name ` {a \<in> set (positional (cd_args cd)). ad_required a} \<union>
      od_name ` {d \<in> set (options (cd_args cd)). od_required d} \<union>
      {vd_name v | v. variadic (cd_args cd) = Some v \<and> vd_required v}"
  shows "\<exists>v. hm_get (parse_args cd pos named) n = Some v"
proof -
  let ?base = "bind_positional pos 0 (positional (cd_args cd)) (cd_defaults cd)"
  have ok: "check_positional cd pos named 0 (positional (cd_args cd)) = None"
      "check_options cd named (options (cd_args cd)) = None" "check_variadic cd pos named = None"
    using assms(1) by (auto simp: validate_args_def split: option.splits)
  have base: "hm_get (cd_defaults cd) n \<noteq> None \<Longrightarrow> hm_get (bind_variadic cd pos ?base) n \<noteq> None"
      "hm_get ?base n \<noteq> None \<Longrightarrow> hm_get (bind_variadic cd pos ?base) n \<noteq> None"
    using bind_positional_mono by (fastforce simp: bind_variadic_get split: option.split)+
  have "hm_contains named n \<or> hm_get (bind_variadic cd pos ?base) n \<noteq> None"
  proof -
    consider j where "j < length (positional (cd_args cd))" "ad_required (positional (cd_args cd) ! j)"
        "n = ad_name (positional (cd_args cd) ! j)"
      | d where "d \<in> set (options (cd_args cd))" "od_required d" "n = od_name d"
      | v where "variadic (cd_args cd) = Some v" "vd_required v" "n = vd_name v"
      using assms(3) by (auto simp: in_set_conv_nth)
    then show ?thesis
    proof cases
      case 1
      from check_positional_None [OF ok(1) 1(1,2)] bind_positional_bound [OF 1(1), of 0 pos] base 1(3)
      show ?thesis by (auto simp: hm_contains_def)
    next
      case 2
      from check_options_None [OF ok(2) 2(1,2)] base 2(3) show ?thesis by (auto simp: hm_contains_def)
    next
      case 3
      with ok(3) base show ?thesis
        by (auto simp: check_variadic_def hm_contains_def bind_variadic_get split: if_splits)
    qed
  qed
  then show ?thesis
    using parse_args_get [OF assms(2)] by (auto simp: hm_contains_def split: option.split)
qed

definition demo_command :: command_def where
  "demo_command =
     \<lparr>cd_name = ''build'',
      cd_args = \<lparr>positional = [\<lparr>ad_name = ''name'', ad_required = True\<rparr>], flags = [],
        options = [\<lparr>od_name = ''base'', od_short = None, od_required = True\<rparr>],
        variadic = Some \<lparr>vd_name = ''files'', vd_required = True\<rparr>\<rparr>,
      cd_defaults = [(''base'', ''main'')], cd_run = RunPipeline ''build''\<rparr>"

theorem validated_args_bound_witness:
  "validate_args demo_command [''x'', ''a'', ''b''] [] = Inr () \<and>
   (\<exists>v. hm_get (parse_args demo_command [''x'', ''a'', ''b''] []) ''files'' = Some v)"
proof -
  have v: "validate_args demo_command [''x'', ''a'', ''b''] [] = Inr ()"
    by (simp add: validate_args_def demo_command_def check_variadic_def hm_contains_def hm_get_def)
  from validated_args_bound [OF v, of "''files''"] v show ?thesis by (simp add: demo_command_def)
qed

text \<open>The sources of a command argument in \<open>parse_args\<close>, from the strongest: a named argument;
  then the words left over for the variadic argument, joined with spaces; then the positional
  argument at the place of the name; then the default of the command.\<close>

lemma parse_args_precedence:
  assumes "hm_wf named" and "distinct (spec_names (cd_args cd))"
  shows "hm_get (parse_args cd pos named) n =
    (if hm_get named n \<noteq> None then hm_get named n
     else if (\<exists>v. variadic (cd_args cd) = Some v \<and> vd_name v = n) \<and>
             length (positional (cd_args cd)) < length pos
     then Some (join_with '' '' (drop (length (positional (cd_args cd))) pos))
     else (case position (\<lambda>a. ad_name a = n) (positional (cd_args cd)) of
             Some i \<Rightarrow> (if i < length pos then Some (pos ! i) else hm_get (cd_defaults cd) n)
           | None \<Rightarrow> hm_get (cd_defaults cd) n))"
proof -
  let ?as = "positional (cd_args cd)"
  have dist: "distinct (map ad_name ?as)" using assms(2) by (simp add: spec_names_def)
  have pos: "hm_get (bind_positional pos 0 ?as (cd_defaults cd)) n =
    (case position (\<lambda>a. ad_name a = n) ?as of
       Some i \<Rightarrow> (if i < length pos then Some (pos ! i) else hm_get (cd_defaults cd) n)
     | None \<Rightarrow> hm_get (cd_defaults cd) n)"
    unfolding bind_positional_position_aux [OF dist, of pos 0 "cd_defaults cd" n] add_0 ..
  show ?thesis
    unfolding parse_args_get [OF assms(1)] bind_variadic_get pos by (auto split: option.split)
qed

lemma parse_args_precedence_witness:
  "hm_get (parse_args demo_command [''x'', ''a'', ''b''] []) ''files'' = Some ''a b'' \<and>
   hm_get (parse_args demo_command [''x'', ''a'', ''b''] [(''name'', ''y'')]) ''name'' = Some ''y''"
proof -
  have d: "distinct (spec_names (cd_args demo_command))"
    by (simp add: demo_command_def spec_names_def)
  have 1: "hm_wf [(''name'', ''y'')]" by (simp add: hm_wf_def)
  show ?thesis
    unfolding parse_args_precedence [OF hm_wf_Nil d] parse_args_precedence [OF 1 d]
    by (simp add: demo_command_def hm_get_def)
qed

text \<open>On a pipeline whose phase names are distinct, \<open>next_phase\<close> of a phase without an explicit
  successor is the phase after it in the list, nothing for the last one; with an explicit successor
  it is the phase of that name, if there is one, wherever it stands.\<close>

lemma next_phase_nth:
  assumes "distinct (map ph_name (pl_phases d))" and "i < length (pl_phases d)"
  shows "next_phase d (ph_name (pl_phases d ! i)) =
    (case ph_next (pl_phases d ! i) of
       Some n \<Rightarrow> get_phase d n
     | None \<Rightarrow> (if i + 1 < length (pl_phases d) then Some (pl_phases d ! (i + 1)) else None))"
  by (simp add: next_phase_def get_phase_nth [OF assms] position_nth [OF assms] split: option.split)

end
