(* ===== verification/Pipeline_State.thy ===== *)
theory Pipeline_State
  imports Core_Types
begin

text \<open>
  The state machines of \<open>crates/core\<close>: \<open>pipeline/state.rs\<close> (the record of a pipeline, its reaction
  to events, its terminal phases) and \<open>worker/state.rs\<close>. A clock is the instant it returns.
\<close>

section \<open>Pipelines\<close>

record pipeline =
  id :: string
  name :: string
  kind :: string
  phase :: string
  status :: phase_status
  inputs :: "(string, string) hmap"
  workspace_path :: "path option"
  session_id :: "string option"
  created_at :: instant
  phase_started_at :: instant
  error :: "string option"

definition pipeline_new ::
  "string \<Rightarrow> string \<Rightarrow> string \<Rightarrow> (string, string) hmap \<Rightarrow> string \<Rightarrow> instant \<Rightarrow> pipeline" where
  "pipeline_new i n k ins initial_phase now =
     \<lparr>id = i, name = n, kind = k, phase = initial_phase, status = Pending, inputs = ins,
      workspace_path = None, session_id = None, created_at = now, phase_started_at = now,
      error = None\<rparr>"

fun transition :: "pipeline \<Rightarrow> event \<Rightarrow> pipeline \<times> effect list" where
  "transition p (SessionStarted sid) =
     (if session_id p = Some sid then (p\<lparr>status := Running\<rparr>, []) else (p, []))"
| "transition p (SessionExited sid exit_code) =
     (if session_id p = Some sid then
        (if exit_code = 0 then (p\<lparr>status := Completed, session_id := None\<rparr>, [])
         else (p\<lparr>phase := ''failed'', status := Failed,
                 error := Some (''exit code: '' @ show_int exit_code)\<rparr>,
               [Persist (PipelineTransition (id p) ''failed'')]))
      else (p, []))"
| "transition p (AgentDone pid) =
     (if id p = pid then (p\<lparr>status := Completed\<rparr>, []) else (p, []))"
| "transition p (AgentError pid err) =
     (if id p = pid then
        (p\<lparr>phase := ''failed'', status := Failed, error := Some err\<rparr>,
         [Persist (PipelineTransition (id p) ''failed'')])
      else (p, []))"
| "transition p (Timer _) = (p, [])"
| "transition p (CommandInvoked _ _) = (p, [])"
| "transition p (WorkerWake _) = (p, [])"
| "transition p (SessionOutput _ _) = (p, [])"
| "transition p (ShellCompleted _ _ _) = (p, [])"
| "transition p (Custom _ _) = (p, [])"

definition is_terminal :: "pipeline \<Rightarrow> bool" where
  "is_terminal p \<longleftrightarrow> phase p = ''done'' \<or> phase p = ''failed''"

definition with_workspace :: "pipeline \<Rightarrow> path \<Rightarrow> pipeline" where
  "with_workspace p path = p\<lparr>workspace_path := Some path\<rparr>"

definition with_session :: "pipeline \<Rightarrow> string \<Rightarrow> pipeline" where
  "with_session p sid = p\<lparr>session_id := Some sid, status := Running\<rparr>"

subsection \<open>Runs of the state machine\<close>

fun transitions :: "pipeline \<Rightarrow> event list \<Rightarrow> pipeline \<times> effect list" where
  "transitions p [] = (p, [])"
| "transitions p (e # es) =
     (case transition p e of (q, fs) \<Rightarrow> (case transitions q es of (r, gs) \<Rightarrow> (r, fs @ gs)))"

text \<open>What a transition can do to a pipeline: the cases of \<open>transition\<close> as a relation.\<close>

inductive pipeline_step :: "pipeline \<Rightarrow> effect list \<Rightarrow> pipeline \<Rightarrow> bool" where
  stays: "pipeline_step p [] p"
| runs: "session_id p = Some sid \<Longrightarrow> pipeline_step p [] (p\<lparr>status := Running\<rparr>)"
| session_completes: "session_id p = Some sid \<Longrightarrow>
     pipeline_step p [] (p\<lparr>status := Completed, session_id := None\<rparr>)"
| agent_completes: "pipeline_step p [] (p\<lparr>status := Completed\<rparr>)"
| fails: "pipeline_step p [Persist (PipelineTransition (id p) ''failed'')]
     (p\<lparr>phase := ''failed'', status := Failed, error := Some msg\<rparr>)"

inductive_cases pipeline_stepE: "pipeline_step p fs q"

lemma transition_step: "transition p e = (q, fs) \<Longrightarrow> pipeline_step p fs q"
  by (cases e) (auto intro: pipeline_step.intros split: if_splits)

lemma pipeline_step_frame:
  "pipeline_step p fs q \<Longrightarrow>
   id q = id p \<and> name q = name p \<and> kind q = kind p \<and> inputs q = inputs p \<and>
   workspace_path q = workspace_path p \<and> created_at q = created_at p \<and>
   phase_started_at q = phase_started_at p"
  by (erule pipeline_stepE) auto

lemma pipeline_step_effects:
  "pipeline_step p fs q \<Longrightarrow>
   (fs = [] \<and> phase q = phase p) \<or>
   (fs = [Persist (PipelineTransition (id p) ''failed'')] \<and> phase q = ''failed'' \<and> status q = Failed)"
  by (erule pipeline_stepE) auto

lemma pipeline_step_terminal: "pipeline_step p fs q \<Longrightarrow> is_terminal p \<Longrightarrow> is_terminal q"
  by (erule pipeline_stepE) (auto simp: is_terminal_def)

lemma transitions_frame_aux:
  "transitions p es = (q, fs) \<Longrightarrow>
   id q = id p \<and> name q = name p \<and> kind q = kind p \<and> inputs q = inputs p \<and>
   workspace_path q = workspace_path p \<and> (is_terminal p \<longrightarrow> is_terminal q) \<and>
   phase q \<in> {phase p, ''failed''} \<and>
   set fs \<subseteq> {Persist (PipelineTransition (id p) ''failed'')} \<and> (fs \<noteq> [] \<longrightarrow> phase q = ''failed'')"
proof (induction es arbitrary: p q fs)
  case Nil
  then show ?case by simp
next
  case (Cons e es)
  from Cons.prems obtain p1 fs1 fs2 where
    1: "transition p e = (p1, fs1)" and 2: "transitions p1 es = (q, fs2)" and fs: "fs = fs1 @ fs2"
    by (auto split: prod.splits)
  note st = transition_step [OF 1]
  note ih = Cons.IH [OF 2]
  note a = pipeline_step_frame [OF st] and b = pipeline_step_effects [OF st]
    and c = pipeline_step_terminal [OF st]
  show ?case
  proof (cases "fs1 = []")
    case True
    then have "phase p1 = phase p" using b by simp
    with True ih a c fs show ?thesis by auto
  next
    case False
    then have "phase p1 = ''failed'' \<and> fs1 = [Persist (PipelineTransition (id p) ''failed'')]"
      using b by simp
    with ih a c fs show ?thesis by auto
  qed
qed

section \<open>Workers\<close>

datatype worker_status = Stopped | Idle | Processing

record worker =
  w_name :: string
  w_status :: worker_status
  current_pipeline :: "string option"
  last_active :: instant

definition worker_new :: "string \<Rightarrow> instant \<Rightarrow> worker" where
  "worker_new n now = \<lparr>w_name = n, w_status = Stopped, current_pipeline = None, last_active = now\<rparr>"

definition worker_start :: "instant \<Rightarrow> worker \<Rightarrow> worker" where
  "worker_start now w = w\<lparr>w_status := Idle, last_active := now\<rparr>"

definition worker_stop :: "worker \<Rightarrow> worker" where
  "worker_stop w = w\<lparr>w_status := Stopped, current_pipeline := None\<rparr>"

definition begin_processing :: "string \<Rightarrow> instant \<Rightarrow> worker \<Rightarrow> worker" where
  "begin_processing pid now w =
     w\<lparr>w_status := Processing, current_pipeline := Some pid, last_active := now\<rparr>"

definition finish_processing :: "instant \<Rightarrow> worker \<Rightarrow> worker" where
  "finish_processing now w = w\<lparr>w_status := Idle, current_pipeline := None, last_active := now\<rparr>"

definition is_available :: "worker \<Rightarrow> bool" where
  "is_available w \<longleftrightarrow> w_status w = Idle"

text \<open>The calls a client can make, each at the instant its clock returns.\<close>

datatype worker_call = Start instant | Stop | Begin string instant | Finish instant

fun worker_apply :: "worker \<Rightarrow> worker_call \<Rightarrow> worker" where
  "worker_apply w (Start now) = worker_start now w"
| "worker_apply w Stop = worker_stop w"
| "worker_apply w (Begin pid now) = begin_processing pid now w"
| "worker_apply w (Finish now) = finish_processing now w"

definition worker_wf :: "worker \<Rightarrow> bool" where
  "worker_wf w \<longleftrightarrow> (w_status w = Processing \<longrightarrow> current_pipeline w \<noteq> None)"

definition worker_strict :: "worker \<Rightarrow> bool" where
  "worker_strict w \<longleftrightarrow> (w_status w = Processing \<longleftrightarrow> current_pipeline w \<noteq> None)"

lemmas worker_defs = worker_new_def worker_start_def worker_stop_def begin_processing_def
  finish_processing_def is_available_def worker_wf_def worker_strict_def

lemma worker_apply_wf: "worker_wf w \<Longrightarrow> worker_wf (worker_apply w c)"
  by (cases c) (auto simp: worker_defs)

lemma worker_apply_strict:
  "worker_strict w \<Longrightarrow> (\<And>now. c = Start now \<Longrightarrow> w_status w \<noteq> Processing) \<Longrightarrow>
   worker_strict (worker_apply w c)"
  by (cases c) (auto simp: worker_defs)

lemma worker_run_wf: "worker_wf w \<Longrightarrow> worker_wf (foldl worker_apply w cs)"
  by (induction cs arbitrary: w) (auto simp: worker_apply_wf)

section \<open>Properties\<close>

text \<open>Over any sequence of events, \<open>Pipeline::transition\<close> changes neither the identity, the
  inputs nor the workspace of a pipeline; its phase stays or becomes \<open>failed\<close>; a terminal pipeline
  stays terminal; and the only effect it ever asks for is to persist the move to \<open>failed\<close> of this
  very pipeline, which it asks for only if the pipeline ends in that phase.\<close>

lemma transition_runs:
  assumes "transitions p es = (q, fs)"
  shows "id q = id p \<and> name q = name p \<and> kind q = kind p \<and> inputs q = inputs p \<and>
    workspace_path q = workspace_path p \<and> (is_terminal p \<longrightarrow> is_terminal q) \<and>
    phase q \<in> {phase p, ''failed''} \<and>
    set fs \<subseteq> {Persist (PipelineTransition (id p) ''failed'')} \<and>
    (fs \<noteq> [] \<longrightarrow> phase q = ''failed'')"
  by (rule transitions_frame_aux [OF assms])

lemma transition_runs_witness:
  "let p = with_session (pipeline_new ''p1'' ''n'' ''build'' [] ''plan'' 5) ''s1''
   in (let (q, fs) = transitions p [SessionStarted ''s1'', SessionExited ''s1'' 3, AgentDone ''p1'']
       in phase q \<in> {phase p, ''failed''} \<and> phase q = ''failed'' \<and> id q = ''p1'' \<and>
          fs = [Persist (PipelineTransition ''p1'' ''failed'')])"
proof -
  let ?p = "with_session (pipeline_new ''p1'' ''n'' ''build'' [] ''plan'' 5) ''s1''"
  let ?es = "[SessionStarted ''s1'', SessionExited ''s1'' 3, AgentDone ''p1'']"
  obtain q fs where r: "transitions ?p ?es = (q, fs)" by fastforce
  have "phase q = ''failed''" "fs = [Persist (PipelineTransition ''p1'' ''failed'')]"
    using r by (auto simp: with_session_def pipeline_new_def)
  with transition_runs [OF r] r show ?thesis
    by (simp add: Let_def with_session_def pipeline_new_def)
qed

end
