(* ===== verification/Storage.thy ===== *)
theory Storage
  imports Pipeline_State
begin

text \<open>
  The storage crate: \<open>state.rs\<close> (the state materialised from WAL operations and the lookup of a
  pipeline by id or unique prefix) and \<open>wal.rs\<close> (the write-ahead log).

  \<open>SystemClock\<close> gives \<open>apply\<close> the instant at which it runs, so \<open>apply\<close> takes that instant.
  \<open>untimed\<close> forgets the two time stamps of the pipelines, the only part of the state that a replay
  does not restore.

  The log file is the text it holds. \<open>serde_json\<close> is a pair of parameters: \<open>ser\<close> turns an entry
  into a line or an error, \<open>de\<close> reads a line back.
\<close>

section \<open>Materialised state\<close>

record session =
  s_id :: string
  s_pipeline_id :: string

record workspace =
  ws_id :: string
  ws_path :: path
  ws_branch :: string

record materialized_state =
  pipelines :: "(string, pipeline) hmap"
  sessions :: "(string, session) hmap"
  workspaces :: "(string, workspace) hmap"
  workers :: "(string, worker) hmap"

definition state_default :: materialized_state where
  "state_default = \<lparr>pipelines = [], sessions = [], workspaces = [], workers = []\<rparr>"

definition get_pipeline :: "materialized_state \<Rightarrow> string \<Rightarrow> pipeline option" where
  "get_pipeline st i =
     (case hm_get (pipelines st) i of
        Some p \<Rightarrow> Some p
      | None \<Rightarrow>
          (let matches = filter (\<lambda>(k, _). starts_with k i) (pipelines st)
           in case matches of [(_, p)] \<Rightarrow> Some p | _ \<Rightarrow> None))"

fun apply_op :: "instant \<Rightarrow> operation \<Rightarrow> materialized_state \<Rightarrow> materialized_state" where
  "apply_op now (PipelineCreate i k n ins ph) st =
     st\<lparr>pipelines := hm_insert i (pipeline_new i n k ins ph now) (pipelines st)\<rparr>"
| "apply_op now (PipelineTransition i ph) st =
     st\<lparr>pipelines := hm_modify i (\<lambda>p. p\<lparr>phase := ph, status := Pending\<rparr>) (pipelines st)\<rparr>"
| "apply_op now (PhaseStatusUpdate i s) st =
     st\<lparr>pipelines := hm_modify i (\<lambda>p. p\<lparr>status := s\<rparr>) (pipelines st)\<rparr>"
| "apply_op now (PipelineDelete i) st = st\<lparr>pipelines := hm_remove i (pipelines st)\<rparr>"
| "apply_op now (SessionCreate i pid) st =
     st\<lparr>sessions := hm_insert i \<lparr>s_id = i, s_pipeline_id = pid\<rparr> (sessions st)\<rparr>"
| "apply_op now (SessionDelete i) st = st\<lparr>sessions := hm_remove i (sessions st)\<rparr>"
| "apply_op now (WorkspaceCreate i pth br) st =
     st\<lparr>workspaces := hm_insert i \<lparr>ws_id = i, ws_path = pth, ws_branch = br\<rparr> (workspaces st),
        pipelines := hm_modify i (\<lambda>p. p\<lparr>workspace_path := Some pth\<rparr>) (pipelines st)\<rparr>"
| "apply_op now (WorkspaceDelete i) st = st\<lparr>workspaces := hm_remove i (workspaces st)\<rparr>"

text \<open>The replay loop of the daemon's start-up, each operation at its own instant.\<close>

definition apply_all ::
  "(instant \<times> operation) list \<Rightarrow> materialized_state \<Rightarrow> materialized_state" where
  "apply_all tops st = foldl (\<lambda>st (now, op). apply_op now op st) st tops"

subsection \<open>Well-formed states\<close>

text \<open>Keys are distinct and every record is stored under its own id.\<close>

definition state_wf :: "materialized_state \<Rightarrow> bool" where
  "state_wf st \<longleftrightarrow>
     hm_wf (pipelines st) \<and> hm_wf (sessions st) \<and> hm_wf (workspaces st) \<and>
     (\<forall>k p. hm_get (pipelines st) k = Some p \<longrightarrow> id p = k) \<and>
     (\<forall>k s. hm_get (sessions st) k = Some s \<longrightarrow> s_id s = k) \<and>
     (\<forall>k w. hm_get (workspaces st) k = Some w \<longrightarrow> ws_id w = k)"

text \<open>No operation of the log records a session or an error on a pipeline.\<close>

definition unlinked :: "materialized_state \<Rightarrow> bool" where
  "unlinked st \<longleftrightarrow>
     (\<forall>k p. hm_get (pipelines st) k = Some p \<longrightarrow> session_id p = None \<and> error p = None)"

lemma state_wf_default [simp]: "state_wf state_default"
  by (simp add: state_wf_def state_default_def)

lemma unlinked_default [simp]: "unlinked state_default"
  by (simp add: unlinked_def state_default_def)

lemma state_wf_pipelineD: "state_wf st \<Longrightarrow> hm_get (pipelines st) k = Some p \<Longrightarrow> id p = k"
  by (simp add: state_wf_def)

lemma apply_op_wf: "state_wf st \<Longrightarrow> state_wf (apply_op now op st)"
  by (cases op) (auto simp: state_wf_def pipeline_new_def split: if_splits)

lemma apply_op_unlinked: "unlinked st \<Longrightarrow> unlinked (apply_op now op st)"
  by (cases op) (auto simp: unlinked_def pipeline_new_def split: if_splits)

lemma apply_all_snoc [simp]:
  "apply_all (tops @ [(now, op)]) st = apply_op now op (apply_all tops st)"
  by (simp add: apply_all_def)

lemma apply_all_induct:
  assumes "P st" and "\<And>now op st. P st \<Longrightarrow> P (apply_op now op st)"
  shows "P (apply_all tops st)"
  by (induction tops rule: rev_induct) (auto simp: assms apply_all_def)

lemma apply_op_other_pipeline:
  assumes "\<And>k n ins ph. op \<noteq> PipelineCreate j k n ins ph" and "\<And>ph. op \<noteq> PipelineTransition j ph"
    and "\<And>s. op \<noteq> PhaseStatusUpdate j s" and "op \<noteq> PipelineDelete j"
    and "\<And>pth br. op \<noteq> WorkspaceCreate j pth br"
  shows "hm_get (pipelines (apply_op now op st)) j = hm_get (pipelines st) j"
  using assms by (cases op) auto

subsection \<open>Time stamps\<close>

definition untime :: "pipeline \<Rightarrow> pipeline" where
  "untime p = p\<lparr>created_at := 0, phase_started_at := 0\<rparr>"

definition hm_map :: "('v \<Rightarrow> 'w) \<Rightarrow> ('k, 'v) hmap \<Rightarrow> ('k, 'w) hmap" where
  "hm_map f m = map (\<lambda>(k, v). (k, f v)) m"

definition untimed :: "materialized_state \<Rightarrow> materialized_state" where
  "untimed st = st\<lparr>pipelines := hm_map untime (pipelines st)\<rparr>"

lemma hm_map_insert: "hm_map f (hm_insert k v m) = hm_insert k (f v) (hm_map f m)"
  by (induction m) (auto simp: hm_map_def hm_insert_def)

lemma hm_map_remove: "hm_map f (hm_remove k m) = hm_remove k (hm_map f m)"
  by (induction m) (auto simp: hm_map_def hm_remove_def)

lemma hm_get_map [simp]: "hm_get (hm_map f m) k = map_option f (hm_get m k)"
  by (induction m) (auto simp: hm_map_def hm_get_def)

lemma hm_map_modify:
  "(\<And>v. f (g v) = h (f v)) \<Longrightarrow> hm_map f (hm_modify k g m) = hm_modify k h (hm_map f m)"
  by (auto simp: hm_modify_def hm_map_insert split: option.split)

lemma untimed_apply_op: "untimed (apply_op now op st) = apply_op 0 op (untimed st)"
proof (cases op)
  case (PipelineCreate i k n ins ph)
  then show ?thesis by (simp add: untimed_def hm_map_insert pipeline_new_def untime_def)
next
  case (PipelineTransition i ph)
  have "hm_map untime (hm_modify i (\<lambda>p. p\<lparr>phase := ph, status := Pending\<rparr>) (pipelines st)) =
    hm_modify i (\<lambda>p. p\<lparr>phase := ph, status := Pending\<rparr>) (hm_map untime (pipelines st))"
    by (rule hm_map_modify) (simp add: untime_def)
  with PipelineTransition show ?thesis by (simp add: untimed_def)
next
  case (PhaseStatusUpdate i s)
  have "hm_map untime (hm_modify i (\<lambda>p. p\<lparr>status := s\<rparr>) (pipelines st)) =
    hm_modify i (\<lambda>p. p\<lparr>status := s\<rparr>) (hm_map untime (pipelines st))"
    by (rule hm_map_modify) (simp add: untime_def)
  with PhaseStatusUpdate show ?thesis by (simp add: untimed_def)
next
  case (WorkspaceCreate i pth br)
  have "hm_map untime (hm_modify i (\<lambda>p. p\<lparr>workspace_path := Some pth\<rparr>) (pipelines st)) =
    hm_modify i (\<lambda>p. p\<lparr>workspace_path := Some pth\<rparr>) (hm_map untime (pipelines st))"
    by (rule hm_map_modify) (simp add: untime_def)
  with WorkspaceCreate show ?thesis by (simp add: untimed_def)
qed (simp_all add: untimed_def hm_map_remove)

lemma untimed_apply_all:
  "untimed (apply_all tops st) = apply_all (map (\<lambda>(_, op). (0, op)) tops) (untimed st)"
  by (induction tops rule: rev_induct) (auto simp: apply_all_def untimed_apply_op)

lemma untimed_default [simp]: "untimed state_default = state_default"
  by (simp add: untimed_def state_default_def hm_map_def)

section \<open>The write-ahead log\<close>

datatype io_kind = NotFound | UnexpectedEof | OtherKind

datatype io_error = IoError (io_kind: io_kind) (io_message: string)

datatype wal_error = WalIo io_error | WalJson string

record wal_entry =
  we_seq :: nat
  we_op :: operation

record wal =
  wal_file :: string
  wal_sequence :: nat

text \<open>What the operating system does with one \<open>writeln!\<close> and \<open>sync_all\<close>: a failing write may leave
  a prefix of the line in the file, a failing sync leaves the whole line.\<close>

datatype write_outcome = Written | WriteFailed nat io_error | SyncFailed io_error

text \<open>\<open>file\<close> is the outcome of opening the file, its text when it could be opened or created.\<close>

definition wal_open :: "io_error + string \<Rightarrow> wal_error + wal" where
  "wal_open file =
     (case file of
        Inl e \<Rightarrow> Inl (WalIo e)
      | Inr txt \<Rightarrow> Inr \<lparr>wal_file = txt, wal_sequence = length (lines txt)\<rparr>)"

definition wal_append ::
  "(wal_entry \<Rightarrow> string + string) \<Rightarrow> write_outcome \<Rightarrow> operation \<Rightarrow> wal \<Rightarrow> (wal_error + nat) \<times> wal"
where
  "wal_append ser outcome op w =
     (let w1 = w\<lparr>wal_sequence := wal_sequence w + 1\<rparr>;
          entry = \<lparr>we_seq = wal_sequence w1, we_op = op\<rparr>
      in case ser entry of
           Inl e \<Rightarrow> (Inl (WalJson e), w1)
         | Inr line \<Rightarrow>
             (case outcome of
                Written \<Rightarrow> (Inr (wal_sequence w1), w1\<lparr>wal_file := wal_file w1 @ line @ nl\<rparr>)
              | WriteFailed n e \<Rightarrow>
                  (Inl (WalIo e), w1\<lparr>wal_file := wal_file w1 @ take n (line @ nl)\<rparr>)
              | SyncFailed e \<Rightarrow> (Inl (WalIo e), w1\<lparr>wal_file := wal_file w1 @ line @ nl\<rparr>)))"

fun replay_lines :: "(string \<Rightarrow> string + wal_entry) \<Rightarrow> string list \<Rightarrow> wal_error + operation list" where
  "replay_lines de [] = Inr []"
| "replay_lines de (l # ls) =
     (if l = [] then replay_lines de ls
      else (case de l of
              Inl e \<Rightarrow> Inl (WalJson e)
            | Inr entry \<Rightarrow>
                (case replay_lines de ls of
                   Inl e \<Rightarrow> Inl e
                 | Inr ops \<Rightarrow> Inr (we_op entry # ops))))"

definition wal_replay ::
  "(string \<Rightarrow> string + wal_entry) \<Rightarrow> io_error + string \<Rightarrow> wal_error + operation list" where
  "wal_replay de file =
     (case file of
        Inl (IoError NotFound _) \<Rightarrow> Inr []
      | Inl e \<Rightarrow> Inl (WalIo e)
      | Inr txt \<Rightarrow> replay_lines de (lines txt))"

subsection \<open>What the log relies on of the JSON library\<close>

text \<open>An entry with this operation is written as one line, not empty and with no line break in it,
  and is read back.\<close>

definition codec_ok ::
  "(wal_entry \<Rightarrow> string + string) \<Rightarrow> (string \<Rightarrow> string + wal_entry) \<Rightarrow> operation \<Rightarrow> bool" where
  "codec_ok ser de op \<longleftrightarrow>
     (\<forall>n. \<exists>line. ser \<lparr>we_seq = n, we_op = op\<rparr> = Inr line \<and> line \<noteq> [] \<and>
       CHR 0x0A \<notin> set line \<and> last line \<noteq> CHR 0x0D \<and>
       de line = Inr \<lparr>we_seq = n, we_op = op\<rparr>)"

text \<open>The operating system writes the whole line or nothing of it.\<close>

fun clean :: "write_outcome \<Rightarrow> bool" where
  "clean Written = True"
| "clean (WriteFailed n e) = (n = 0)"
| "clean (SyncFailed e) = False"

lemma replay_lines_append:
  "replay_lines de (ls @ ms) =
     (case replay_lines de ls of
        Inl e \<Rightarrow> Inl e
      | Inr ops \<Rightarrow> (case replay_lines de ms of Inl e \<Rightarrow> Inl e | Inr ops' \<Rightarrow> Inr (ops @ ops')))"
  by (induction ls) (auto split: sum.split)

text \<open>The log is in a consistent state: it ends at a line end and replays to \<open>ops\<close>, one line each.\<close>

definition log_holds :: "(string \<Rightarrow> string + wal_entry) \<Rightarrow> wal \<Rightarrow> operation list \<Rightarrow> bool" where
  "log_holds de w ops \<longleftrightarrow> ends_line (wal_file w) \<and> wal_replay de (Inr (wal_file w)) = Inr ops"

lemma wal_append_written:
  assumes log: "log_holds de w ops" and codec: "codec_ok ser de op"
  shows "\<exists>w'. wal_append ser Written op w = (Inr (wal_sequence w + 1), w') \<and>
    log_holds de w' (ops @ [op]) \<and> wal_sequence w' = wal_sequence w + 1 \<and>
    length (lines (wal_file w')) = length (lines (wal_file w)) + 1"
proof -
  from codec obtain line where
    l: "ser \<lparr>we_seq = wal_sequence w + 1, we_op = op\<rparr> = Inr line" "line \<noteq> []"
      "CHR 0x0A \<notin> set line" "last line \<noteq> CHR 0x0D"
      "de line = Inr \<lparr>we_seq = wal_sequence w + 1, we_op = op\<rparr>"
    unfolding codec_ok_def by blast
  have lines: "lines (wal_file w @ line @ nl) = lines (wal_file w) @ [line]"
    using log l lines_line [of line] by (simp add: log_holds_def lines_append strip_cr_def)
  have "ends_line ((wal_file w @ line) @ nl)" by (rule ends_line_nl)
  with log l lines show ?thesis
    by (auto simp: wal_append_def log_holds_def wal_replay_def replay_lines_append split: sum.splits)
qed

lemma wal_append_clean:
  assumes log: "log_holds de w ops" and codec: "codec_ok ser de op" and "clean outcome"
  shows "(\<exists>n w'. wal_append ser outcome op w = (Inr n, w') \<and> log_holds de w' (ops @ [op])) \<or>
    (\<exists>e w'. wal_append ser outcome op w = (Inl e, w') \<and> log_holds de w' ops)"
proof (cases outcome)
  case Written
  with wal_append_written [OF log codec] show ?thesis by auto
next
  case (WriteFailed n e)
  from codec obtain line where "ser \<lparr>we_seq = wal_sequence w + 1, we_op = op\<rparr> = Inr line"
    unfolding codec_ok_def by blast
  with WriteFailed assms(3) have "wal_append ser outcome op w =
      (Inl (WalIo e), w\<lparr>wal_sequence := wal_sequence w + 1\<rparr>)"
    by (simp add: wal_append_def)
  with log show ?thesis by (simp add: log_holds_def)
qed (use assms in simp)

text \<open>Appending a sequence of operations, every write succeeding.\<close>

fun append_all :: "(wal_entry \<Rightarrow> string + string) \<Rightarrow> operation list \<Rightarrow> wal \<Rightarrow> wal" where
  "append_all ser [] w = w"
| "append_all ser (op # ops) w = append_all ser ops (snd (wal_append ser Written op w))"

lemma append_all_log:
  assumes "log_holds de w ops0" and "\<forall>op \<in> set ops. codec_ok ser de op"
  shows "log_holds de (append_all ser ops w) (ops0 @ ops) \<and>
    wal_sequence (append_all ser ops w) = wal_sequence w + length ops \<and>
    length (lines (wal_file (append_all ser ops w))) = length (lines (wal_file w)) + length ops"
  using assms
proof (induction ops arbitrary: w ops0)
  case Nil
  then show ?case by simp
next
  case (Cons op ops)
  from wal_append_written [OF Cons.prems(1), of ser op] Cons.prems(2) obtain w' where
    w': "wal_append ser Written op w = (Inr (wal_sequence w + 1), w')"
      "log_holds de w' (ops0 @ [op])" "wal_sequence w' = wal_sequence w + 1"
      "length (lines (wal_file w')) = length (lines (wal_file w)) + 1"
    by auto
  from Cons.IH [OF w'(2)] Cons.prems(2) w' show ?case by simp
qed

section \<open>Looking a pipeline up\<close>

lemma get_pipeline_key:
  assumes "state_wf st" and "get_pipeline st i = Some p"
  shows "hm_get (pipelines st) (id p) = Some p \<and> starts_with (id p) i"
proof (cases "hm_get (pipelines st) i")
  case None
  with assms(2) obtain k where
    "filter (\<lambda>(k, _). starts_with k i) (pipelines st) = [(k, p)]"
    by (auto simp: get_pipeline_def Let_def split: list.splits prod.splits)
  from hm.filter_entries_unique [OF _ this] assms(1)
  have "hm_get (pipelines st) k = Some p" "starts_with k i" by (auto simp: state_wf_def)
  with state_wf_pipelineD [OF assms(1)] show ?thesis by force
next
  case (Some q)
  with assms show ?thesis by (auto simp: get_pipeline_def state_wf_def)
qed

text \<open>The result as a specification that does not mention the order of the map.\<close>

definition unique_prefix_match :: "materialized_state \<Rightarrow> string \<Rightarrow> pipeline \<Rightarrow> bool" where
  "unique_prefix_match st i p \<longleftrightarrow>
     (\<exists>k. hm_get (pipelines st) k = Some p \<and> starts_with k i \<and>
        (\<forall>k' q. hm_get (pipelines st) k' = Some q \<and> starts_with k' i \<longrightarrow> k' = k))"

lemma singleton_filter_iff:
  assumes wf: "hm_wf m"
  shows "(\<exists>k. filter P m = [(k, v)]) \<longleftrightarrow>
    (\<exists>k. hm_get m k = Some v \<and> P (k, v) \<and> (\<forall>k' v'. hm_get m k' = Some v' \<and> P (k', v') \<longrightarrow> k' = k))"
    (is "?L = ?R")
proof
  assume ?L
  then show ?R using hm.filter_entries_unique [OF wf] by blast
next
  assume ?R
  then obtain k where k: "hm_get m k = Some v" "P (k, v)"
    and u: "\<And>k' v'. hm_get m k' = Some v' \<Longrightarrow> P (k', v') \<Longrightarrow> k' = k" by blast
  have set_eq: "set (filter P m) = {(k, v)}"
  proof -
    have "e \<in> set (filter P m) \<longleftrightarrow> e = (k, v)" for e
      using hm.filter_entries_lookup [OF wf, of "fst e" "snd e" P] k u [of "fst e" "snd e"]
      by (cases e) auto
    then show ?thesis by blast
  qed
  have "distinct (map fst (filter P m))" using hm.filter_entries_distinct [OF wf] .
  then have "distinct (filter P m)" by (simp add: distinct_map)
  then have "length (filter P m) = 1" using set_eq distinct_card by fastforce
  with set_eq show ?L by (cases "filter P m") auto
qed

lemma get_pipeline_spec:
  assumes "state_wf st"
  shows "get_pipeline st i = Some p \<longleftrightarrow>
    hm_get (pipelines st) i = Some p \<or>
    (hm_get (pipelines st) i = None \<and> unique_prefix_match st i p)"
proof (cases "hm_get (pipelines st) i")
  case None
  have "get_pipeline st i = Some p \<longleftrightarrow>
      (\<exists>k. filter (\<lambda>(k, _). starts_with k i) (pipelines st) = [(k, p)])"
    by (auto simp: get_pipeline_def None Let_def split: list.splits prod.splits)
  also have "\<dots> \<longleftrightarrow> unique_prefix_match st i p"
    using assms by (subst singleton_filter_iff) (auto simp: state_wf_def unique_prefix_match_def)
  finally show ?thesis using None by simp
qed (simp add: get_pipeline_def)

section \<open>Properties\<close>

text \<open>\<open>MaterializedState::get_pipeline\<close> returns the pipeline with exactly this id if there is
  one, otherwise the pipeline whose id is the only one with this prefix, and nothing when no id or
  more than one id has the prefix; the iteration order of the map plays no part.\<close>

lemma get_pipeline_unique_prefix:
  assumes "state_wf st"
  shows "get_pipeline st i = Some p \<longleftrightarrow>
    hm_get (pipelines st) i = Some p \<or>
    (hm_get (pipelines st) i = None \<and>
     (\<exists>k. hm_get (pipelines st) k = Some p \<and> starts_with k i \<and>
        (\<forall>k' q. hm_get (pipelines st) k' = Some q \<and> starts_with k' i \<longrightarrow> k' = k)))"
  using get_pipeline_spec [OF assms] by (simp add: unique_prefix_match_def)

definition two_pipelines :: materialized_state where
  "two_pipelines = apply_all
     [(1, PipelineCreate ''ab1'' ''build'' ''x'' [] ''init''),
      (2, PipelineCreate ''ac2'' ''build'' ''y'' [] ''init'')] state_default"

lemma get_pipeline_unique_prefix_witness:
  "get_pipeline two_pipelines ''ab'' = Some (pipeline_new ''ab1'' ''x'' ''build'' [] ''init'' 1) \<and>
   get_pipeline two_pipelines ''a'' = None"
proof -
  have wf: "state_wf two_pipelines"
    unfolding two_pipelines_def by (rule apply_all_induct) (auto simp: apply_op_wf)
  have keys: "hm_get (pipelines two_pipelines) k =
      (if k = ''ac2'' then Some (pipeline_new ''ac2'' ''y'' ''build'' [] ''init'' 2)
       else if k = ''ab1'' then Some (pipeline_new ''ab1'' ''x'' ''build'' [] ''init'' 1)
       else None)" for k
    by (simp add: two_pipelines_def apply_all_def state_default_def)
  have "get_pipeline two_pipelines ''a'' = None"
    by (simp add: get_pipeline_def two_pipelines_def apply_all_def state_default_def hm_insert_def
        hm_get_def)
  moreover have "get_pipeline two_pipelines ''ab'' =
      Some (pipeline_new ''ab1'' ''x'' ''build'' [] ''init'' 1)"
    unfolding get_pipeline_unique_prefix [OF wf] keys by (auto intro!: exI [of _ "''ab1''"])
  ultimately show ?thesis by simp
qed

text \<open>Every state built from a log, whatever the operations and the instants at which they are
  applied, has distinct keys and stores every record under its own id, and its content other than
  the time stamps is a function of the operations alone.\<close>

lemma replayed_state_wf:
  "state_wf (apply_all tops state_default) \<and>
   untimed (apply_all tops state_default) =
     apply_all (map (\<lambda>(_, op). (0, op)) tops) state_default"
proof
  show "state_wf (apply_all tops state_default)"
    by (rule apply_all_induct) (auto simp: apply_op_wf)
  show "untimed (apply_all tops state_default) =
      apply_all (map (\<lambda>(_, op). (0, op)) tops) state_default"
    by (simp add: untimed_apply_all)
qed

text \<open>No operation of the log sets the session id (or the error) of a pipeline, so in every
  state the daemon can build from a log each pipeline has no session.\<close>

lemma replayed_pipelines_unlinked:
  assumes "hm_get (pipelines (apply_all tops state_default)) k = Some p"
  shows "session_id p = None \<and> error p = None"
proof -
  have "unlinked (apply_all tops state_default)"
    by (rule apply_all_induct) (auto simp: apply_op_unlinked)
  with assms show ?thesis by (auto simp: unlinked_def)
qed


text \<open>C19: appending operations to a log whose file ends at a line end and then replaying the file
  returns the old operations followed by the new ones, in order; the sequence number grows by one
  per operation; and if it was the number of lines of the file, reopening the file gives the same
  log again.\<close>

theorem wal_append_replay:
  assumes "log_holds de w ops0" and "\<forall>op \<in> set ops. codec_ok ser de op"
    and "wal_sequence w = length (lines (wal_file w))"
  shows "wal_replay de (Inr (wal_file (append_all ser ops w))) = Inr (ops0 @ ops) \<and>
    wal_sequence (append_all ser ops w) = wal_sequence w + length ops \<and>
    wal_open (Inr (wal_file (append_all ser ops w))) = Inr (append_all ser ops w)"
  using append_all_log [OF assms(1,2)] assms(3)
  by (auto simp: log_holds_def wal_open_def)

definition demo_ser :: "wal_entry \<Rightarrow> string + string" where
  "demo_ser e =
     (case we_op e of
        SessionDelete i \<Rightarrow> Inr (''D'' @ show_nat (we_seq e))
      | _ \<Rightarrow> Inl ''not supported'')"

definition demo_de :: "string \<Rightarrow> string + wal_entry" where
  "demo_de l =
     (case l of
        c # ds \<Rightarrow> (if c = CHR ''D'' then Inr \<lparr>we_seq = read_digits 0 ds, we_op = SessionDelete ''s''\<rparr>
                   else Inl ''unexpected'')
      | [] \<Rightarrow> Inl ''empty'')"

lemma show_nat_chars: "set (show_nat n) \<subseteq> {c. 48 \<le> (of_char c :: nat) \<and> (of_char c :: nat) \<le> 57}"
proof (induction n rule: show_nat.induct)
  case (1 n)
  show ?case
  proof (cases "n < 10")
    case True
    then show ?thesis by (simp add: show_nat.simps [of n] of_char_digit)
  next
    case False
    with 1 have "set (show_nat (n div 10)) \<subseteq> {c. 48 \<le> (of_char c :: nat) \<and> (of_char c :: nat) \<le> 57}"
      by simp
    moreover have "n mod 10 < 10" by simp
    ultimately show ?thesis using False of_char_digit [of "n mod 10"]
      by (simp add: show_nat.simps [of n])
  qed
qed

lemma show_nat_nonempty: "show_nat n \<noteq> []"
  by (subst show_nat.simps) simp

lemma demo_codec: "codec_ok demo_ser demo_de (SessionDelete ''s'')"
proof -
  have "CHR 0x0A \<notin> set (show_nat n)" for n using show_nat_chars [of n] by auto
  moreover have "last (show_nat n) \<noteq> CHR 0x0D" for n
    using show_nat_chars [of n] last_in_set [OF show_nat_nonempty [of n]] by auto
  ultimately show ?thesis
    by (simp add: codec_ok_def demo_ser_def demo_de_def read_show_nat show_nat_nonempty)
qed

theorem wal_append_replay_witness:
  "wal_replay demo_de (Inr (wal_file (append_all demo_ser [SessionDelete ''s'', SessionDelete ''s'']
     \<lparr>wal_file = [], wal_sequence = 0\<rparr>))) = Inr [SessionDelete ''s'', SessionDelete ''s'']"
proof -
  have "log_holds demo_de \<lparr>wal_file = [], wal_sequence = 0\<rparr> []"
    by (simp add: log_holds_def wal_replay_def)
  from wal_append_replay [OF this, of "[SessionDelete ''s'', SessionDelete ''s'']" demo_ser] demo_codec
  show ?thesis by simp
qed

text \<open>C20: a write that fails part way through a line (but with at least one character written, and
  before the line end) leaves a log that the next append makes unreadable: the next entry is
  appended to the torn line, and unless the JSON library accepts the concatenation of a strict
  prefix of one entry with another entry, every later replay of the log fails.\<close>

theorem torn_write_breaks_replay:
  assumes "log_holds de w ops" and "codec_ok ser de op2"
    and "ser \<lparr>we_seq = wal_sequence w + 1, we_op = op1\<rparr> = Inr line1"
    and "CHR 0x0A \<notin> set line1" and "0 < n" and "n < length line1"
    and "ser \<lparr>we_seq = wal_sequence w + 2, we_op = op2\<rparr> = Inr line2"
    and "de (take n line1 @ line2) = Inl msg"
  shows "wal_replay de (Inr (wal_file
    (snd (wal_append ser Written op2 (snd (wal_append ser (WriteFailed n e) op1 w)))))) =
    Inl (WalJson msg)"
proof -
  from assms(2,7) have l2: "line2 \<noteq> []" "CHR 0x0A \<notin> set line2" "last line2 \<noteq> CHR 0x0D"
    unfolding codec_ok_def by (metis sum.inject(2))+
  have contents: "wal_file (snd (wal_append ser Written op2 (snd (wal_append ser (WriteFailed n e) op1 w))))
      = wal_file w @ (take n line1 @ line2) @ nl"
    using assms(3,6,7) by (simp add: wal_append_def)
  have "CHR 0x0A \<notin> set (take n line1 @ line2)"
    using assms(4) l2 by (auto dest: in_set_takeD)
  then have "lines (wal_file w @ (take n line1 @ line2) @ nl) =
      lines (wal_file w) @ [take n line1 @ line2]"
    using assms(1) l2 lines_line [of "take n line1 @ line2"]
    by (simp add: log_holds_def lines_append strip_cr_def)
  with assms(1,8) l2 show ?thesis
    by (auto simp: contents wal_replay_def log_holds_def replay_lines_append split: sum.splits)
qed

theorem torn_write_breaks_replay_witness:
  "let w0 = \<lparr>wal_file = [], wal_sequence = 0\<rparr>;
       w1 = snd (wal_append demo_ser (WriteFailed 1 (IoError OtherKind ''disk full''))
              (SessionDelete ''s'') w0);
       w2 = snd (wal_append demo_ser Written (SessionDelete ''s'') w1);
       de = (\<lambda>l. if l = ''DD2'' then Inl ''expected value'' else demo_de l)
   in wal_replay de (Inr (wal_file w2)) = Inl (WalJson ''expected value'')"
proof -
  let ?de = "\<lambda>l. if l = ''DD2'' then Inl ''expected value'' else demo_de l"
  let ?w = "\<lparr>wal_file = [], wal_sequence = 0\<rparr>"
  have s1: "show_nat 1 = ''1''" and s2: "show_nat 2 = ''2''"
    and s3: "show_nat (Suc (Suc 0)) = ''2''"
    by code_simp+
  have "read_digits 0 ''D2'' \<noteq> x \<or> show_nat x \<noteq> ''D2''" for x
    using show_nat_chars [of x] by auto
  then have "show_nat x \<noteq> ''D2''" for x using show_nat_chars [of x] by auto
  then have codec: "codec_ok demo_ser ?de (SessionDelete ''s'')"
    using demo_codec by (fastforce simp: codec_ok_def demo_ser_def)
  have log: "log_holds ?de ?w []" by (simp add: log_holds_def wal_replay_def)
  show ?thesis
    using torn_write_breaks_replay [OF log codec, of "SessionDelete ''s''" "''D1''" 1 "''D2''"
        "''expected value''" "IoError OtherKind ''disk full''"] s1 s2 s3
    by (simp add: demo_ser_def)
qed

end
