(* ===== verification/Adapters.thy ===== *)
theory Adapters
  imports Storage
begin

text \<open>
  The adapter traits of \<open>crates/adapters\<close> and their implementations. A trait is a record of
  computations over the world \<open>'w\<close> the adapter acts on: an implementation is a value of the record,
  so a component that is generic in its adapters takes one as an argument. The no-op and fake
  adapters, the tracing wrappers (their preconditions; the log output is left out), and the tmux and
  git adapters over a parameter that runs a command of the operating system.
\<close>

section \<open>The traits\<close>

datatype session_error = SessionNotFound string | SpawnFailed string | SessionCommandFailed string

datatype repo_error = WorktreeNotFound string | RepoCommandFailed string | BranchExists string

datatype notify_error = SendFailed string

record 'w session_adapter =
  sess_spawn :: "string \<Rightarrow> path \<Rightarrow> string \<Rightarrow> (string \<times> string) list \<Rightarrow> ('w, session_error, string) comp"
  sess_send :: "string \<Rightarrow> string \<Rightarrow> ('w, session_error, unit) comp"
  sess_kill :: "string \<Rightarrow> ('w, session_error, unit) comp"
  sess_is_alive :: "string \<Rightarrow> ('w, session_error, bool) comp"
  sess_capture_output :: "string \<Rightarrow> nat \<Rightarrow> ('w, session_error, string) comp"
  sess_is_process_running :: "string \<Rightarrow> string \<Rightarrow> ('w, session_error, bool) comp"

record 'w repo_adapter =
  repo_worktree_add :: "string \<Rightarrow> path \<Rightarrow> ('w, repo_error, unit) comp"
  repo_worktree_remove :: "path \<Rightarrow> ('w, repo_error, unit) comp"
  repo_worktree_list :: "('w, repo_error, string list) comp"

record 'w notify_adapter =
  notify_send :: "string \<Rightarrow> string \<Rightarrow> ('w, notify_error, unit) comp"

section \<open>No-op adapters\<close>

definition noop_session :: "'w session_adapter" where
  "noop_session =
     \<lparr>sess_spawn = (\<lambda>_ _ _ _. ok ''noop''), sess_send = (\<lambda>_ _. ok ()), sess_kill = (\<lambda>_. ok ()),
      sess_is_alive = (\<lambda>_. ok False), sess_capture_output = (\<lambda>_ _. ok []),
      sess_is_process_running = (\<lambda>_ _. ok False)\<rparr>"

definition noop_repo :: "'w repo_adapter" where
  "noop_repo =
     \<lparr>repo_worktree_add = (\<lambda>_ _. ok ()), repo_worktree_remove = (\<lambda>_. ok ()),
      repo_worktree_list = ok []\<rparr>"

definition noop_notify :: "'w notify_adapter" where
  "noop_notify = \<lparr>notify_send = (\<lambda>_ _. ok ())\<rparr>"

section \<open>The fake session adapter\<close>

datatype session_call =
    CallSpawn string path string "(string \<times> string) list"
  | CallSend string string
  | CallKill string
  | CallIsAlive string
  | CallCaptureOutput string nat
  | CallIsProcessRunning string string

record fake_session =
  fs_name :: string
  fs_cwd :: path
  fs_cmd :: string
  fs_env :: "(string \<times> string) list"
  fs_output :: "string list"
  fs_alive :: bool
  fs_exit_code :: "int option"
  fs_process_running :: bool

record fake_sessions =
  fk_sessions :: "(string, fake_session) hmap"
  fk_calls :: "session_call list"
  fk_next_id :: nat

definition fake_sessions_new :: fake_sessions where
  "fake_sessions_new = \<lparr>fk_sessions = [], fk_calls = [], fk_next_id = 0\<rparr>"

definition fake_log :: "session_call \<Rightarrow> fake_sessions \<Rightarrow> fake_sessions" where
  "fake_log c w = w\<lparr>fk_calls := fk_calls w @ [c]\<rparr>"

definition fake_get_session :: "fake_sessions \<Rightarrow> string \<Rightarrow> fake_session option" where
  "fake_get_session w i = hm_get (fk_sessions w) i"

definition fake_set_output :: "string \<Rightarrow> string list \<Rightarrow> fake_sessions \<Rightarrow> fake_sessions" where
  "fake_set_output i ls w =
     w\<lparr>fk_sessions := hm_modify i (\<lambda>s. s\<lparr>fs_output := ls\<rparr>) (fk_sessions w)\<rparr>"

definition fake_set_exited :: "string \<Rightarrow> int \<Rightarrow> fake_sessions \<Rightarrow> fake_sessions" where
  "fake_set_exited i c w =
     w\<lparr>fk_sessions :=
         hm_modify i (\<lambda>s. s\<lparr>fs_alive := False, fs_exit_code := Some c\<rparr>) (fk_sessions w)\<rparr>"

definition fake_set_process_running :: "string \<Rightarrow> bool \<Rightarrow> fake_sessions \<Rightarrow> fake_sessions" where
  "fake_set_process_running i b w =
     w\<lparr>fk_sessions := hm_modify i (\<lambda>s. s\<lparr>fs_process_running := b\<rparr>) (fk_sessions w)\<rparr>"

definition fake_spawn ::
  "string \<Rightarrow> path \<Rightarrow> string \<Rightarrow> (string \<times> string) list \<Rightarrow> (fake_sessions, session_error, string) comp"
where
  "fake_spawn n cwd cmd env w =
     (let i = ''fake-'' @ show_nat (fk_next_id w + 1);
          w1 = fake_log (CallSpawn n cwd cmd env) (w\<lparr>fk_next_id := fk_next_id w + 1\<rparr>);
          s = \<lparr>fs_name = n, fs_cwd = cwd, fs_cmd = cmd, fs_env = env, fs_output = [],
               fs_alive = True, fs_exit_code = None, fs_process_running = True\<rparr>
      in (Inr i, w1\<lparr>fk_sessions := hm_insert i s (fk_sessions w1)\<rparr>))"

definition fake_send :: "string \<Rightarrow> string \<Rightarrow> (fake_sessions, session_error, unit) comp" where
  "fake_send i input w =
     (let w1 = fake_log (CallSend i input) w
      in if hm_contains (fk_sessions w1) i then (Inr (), w1) else (Inl (SessionNotFound i), w1))"

definition fake_kill :: "string \<Rightarrow> (fake_sessions, session_error, unit) comp" where
  "fake_kill i w =
     (let w1 = fake_log (CallKill i) w
      in (Inr (), w1\<lparr>fk_sessions := hm_modify i (\<lambda>s. s\<lparr>fs_alive := False\<rparr>) (fk_sessions w1)\<rparr>))"

definition fake_is_alive :: "string \<Rightarrow> (fake_sessions, session_error, bool) comp" where
  "fake_is_alive i w =
     (let w1 = fake_log (CallIsAlive i) w
      in case hm_get (fk_sessions w1) i of
           Some s \<Rightarrow> (Inr (fs_alive s), w1)
         | None \<Rightarrow> (Inr False, w1))"

definition fake_capture_output :: "string \<Rightarrow> nat \<Rightarrow> (fake_sessions, session_error, string) comp" where
  "fake_capture_output i n w =
     (let w1 = fake_log (CallCaptureOutput i n) w
      in case hm_get (fk_sessions w1) i of
           Some s \<Rightarrow> (Inr (join_with nl (drop (length (fs_output s) - n) (fs_output s))), w1)
         | None \<Rightarrow> (Inl (SessionNotFound i), w1))"

definition fake_is_process_running ::
  "string \<Rightarrow> string \<Rightarrow> (fake_sessions, session_error, bool) comp" where
  "fake_is_process_running i pattern w =
     (let w1 = fake_log (CallIsProcessRunning i pattern) w
      in case hm_get (fk_sessions w1) i of
           Some s \<Rightarrow> (Inr (fs_process_running s), w1)
         | None \<Rightarrow> (Inr False, w1))"

definition fake_session_adapter :: "fake_sessions session_adapter" where
  "fake_session_adapter =
     \<lparr>sess_spawn = fake_spawn, sess_send = fake_send, sess_kill = fake_kill,
      sess_is_alive = fake_is_alive, sess_capture_output = fake_capture_output,
      sess_is_process_running = fake_is_process_running\<rparr>"

section \<open>The fake repository and notification adapters\<close>

datatype repo_call = AddWorktree string path | RemoveWorktree path | ListWorktrees

record fake_worktree =
  fw_path :: path
  fw_branch :: string

record fake_repo =
  fr_worktrees :: "(path, fake_worktree) hmap"
  fr_calls :: "repo_call list"

definition fake_repo_log :: "repo_call \<Rightarrow> fake_repo \<Rightarrow> fake_repo" where
  "fake_repo_log c w = w\<lparr>fr_calls := fr_calls w @ [c]\<rparr>"

definition fake_get_worktree :: "fake_repo \<Rightarrow> path \<Rightarrow> fake_worktree option" where
  "fake_get_worktree w p = hm_get (fr_worktrees w) p"

definition fake_worktree_add :: "string \<Rightarrow> path \<Rightarrow> (fake_repo, repo_error, unit) comp" where
  "fake_worktree_add b p w =
     (let w1 = fake_repo_log (AddWorktree b p) w
      in if (\<exists>t \<in> set (map snd (fr_worktrees w1)). fw_branch t = b) then (Inl (BranchExists b), w1)
         else (Inr (), w1\<lparr>fr_worktrees :=
                 hm_insert p \<lparr>fw_path = p, fw_branch = b\<rparr> (fr_worktrees w1)\<rparr>))"

definition fake_worktree_remove :: "path \<Rightarrow> (fake_repo, repo_error, unit) comp" where
  "fake_worktree_remove p w =
     (let w1 = fake_repo_log (RemoveWorktree p) w;
          w2 = w1\<lparr>fr_worktrees := hm_remove p (fr_worktrees w1)\<rparr>
      in if hm_get (fr_worktrees w1) p = None then (Inl (WorktreeNotFound p), w2) else (Inr (), w2))"

definition fake_worktree_list :: "(fake_repo, repo_error, string list) comp" where
  "fake_worktree_list w =
     (let w1 = fake_repo_log ListWorktrees w in (Inr (map fst (fr_worktrees w1)), w1))"

definition fake_repo_adapter :: "fake_repo repo_adapter" where
  "fake_repo_adapter =
     \<lparr>repo_worktree_add = fake_worktree_add, repo_worktree_remove = fake_worktree_remove,
      repo_worktree_list = fake_worktree_list\<rparr>"

record notify_call =
  nc_channel :: string
  nc_message :: string

definition fake_notify_send ::
  "string \<Rightarrow> string \<Rightarrow> (notify_call list, notify_error, unit) comp" where
  "fake_notify_send ch m w = (Inr (), w @ [\<lparr>nc_channel = ch, nc_message = m\<rparr>])"

definition fake_notify_adapter :: "notify_call list notify_adapter" where
  "fake_notify_adapter = \<lparr>notify_send = fake_notify_send\<rparr>"

section \<open>Tracing wrappers\<close>

text \<open>\<open>exists\<close> is \<open>Path::exists\<close> in the current world, \<open>parent\<close> is \<open>Path::parent\<close>.\<close>

definition traced_spawn ::
  "(path \<Rightarrow> 'w \<Rightarrow> bool) \<Rightarrow> 'w session_adapter \<Rightarrow> string \<Rightarrow> path \<Rightarrow> string \<Rightarrow>
   (string \<times> string) list \<Rightarrow> ('w, session_error, string) comp" where
  "traced_spawn exists a n cwd cmd env w =
     (if \<not> exists cwd w then (Inl (SpawnFailed (''working directory does not exist: '' @ cwd)), w)
      else sess_spawn a n cwd cmd env w)"

definition traced_session ::
  "(path \<Rightarrow> 'w \<Rightarrow> bool) \<Rightarrow> 'w session_adapter \<Rightarrow> 'w session_adapter" where
  "traced_session exists a =
     \<lparr>sess_spawn = traced_spawn exists a, sess_send = sess_send a, sess_kill = sess_kill a,
      sess_is_alive = sess_is_alive a, sess_capture_output = sess_capture_output a,
      sess_is_process_running = sess_is_process_running a\<rparr>"

definition traced_worktree_add ::
  "(path \<Rightarrow> 'w \<Rightarrow> bool) \<Rightarrow> (path \<Rightarrow> path option) \<Rightarrow> 'w repo_adapter \<Rightarrow> string \<Rightarrow> path \<Rightarrow>
   ('w, repo_error, unit) comp" where
  "traced_worktree_add exists parent a b p w =
     (case parent p of
        Some d \<Rightarrow>
          (if \<not> exists d w then
             (Inl (RepoCommandFailed (''parent directory does not exist: '' @ d)), w)
           else repo_worktree_add a b p w)
      | None \<Rightarrow> repo_worktree_add a b p w)"

definition traced_repo ::
  "(path \<Rightarrow> 'w \<Rightarrow> bool) \<Rightarrow> (path \<Rightarrow> path option) \<Rightarrow> 'w repo_adapter \<Rightarrow> 'w repo_adapter" where
  "traced_repo exists parent a =
     \<lparr>repo_worktree_add = traced_worktree_add exists parent a,
      repo_worktree_remove = repo_worktree_remove a, repo_worktree_list = repo_worktree_list a\<rparr>"

section \<open>tmux and git\<close>

record cmd_output =
  co_code :: "int option"
  co_stdout :: string
  co_stderr :: string

definition success :: "cmd_output \<Rightarrow> bool" where
  "success out \<longleftrightarrow> co_code out = Some 0"

text \<open>Running a program with arguments in a directory (\<open>None\<close>: the current one).\<close>

type_synonym 'w runner = "string \<Rightarrow> string list \<Rightarrow> path option \<Rightarrow> ('w, io_error, cmd_output) comp"

definition tmux_spawn ::
  "'w runner \<Rightarrow> string \<Rightarrow> path \<Rightarrow> string \<Rightarrow> (string \<times> string) list \<Rightarrow> ('w, session_error, string) comp"
where
  "tmux_spawn run n cwd cmd env w =
     (let sid = ''oj-'' @ n;
          (existing, w1) = run ''tmux'' [''has-session'', ''-t'', sid] None w;
          w2 = (case existing of
                  Inr out \<Rightarrow>
                    (if success out then snd (run ''tmux'' [''kill-session'', ''-t'', sid] None w1)
                     else w1)
                | Inl _ \<Rightarrow> w1);
          args = [''new-session'', ''-d'', ''-s'', sid, ''-c'', cwd] @
                 concat (map (\<lambda>(k, v). [''-e'', k @ ''='' @ v]) env) @ [cmd]
      in case run ''tmux'' args None w2 of
           (Inl e, w3) \<Rightarrow> (Inl (SpawnFailed (io_message e)), w3)
         | (Inr out, w3) \<Rightarrow>
             (if success out then (Inr sid, w3) else (Inl (SpawnFailed (co_stderr out)), w3)))"

definition tmux_send :: "'w runner \<Rightarrow> string \<Rightarrow> string \<Rightarrow> ('w, session_error, unit) comp" where
  "tmux_send run i input w =
     (case run ''tmux'' [''send-keys'', ''-t'', i, input] None w of
        (Inl e, w1) \<Rightarrow> (Inl (SessionCommandFailed (io_message e)), w1)
      | (Inr out, w1) \<Rightarrow> (if success out then (Inr (), w1) else (Inl (SessionNotFound i), w1)))"

definition tmux_kill :: "'w runner \<Rightarrow> string \<Rightarrow> ('w, session_error, unit) comp" where
  "tmux_kill run i w =
     (case run ''tmux'' [''kill-session'', ''-t'', i] None w of
        (Inl e, w1) \<Rightarrow> (Inl (SessionCommandFailed (io_message e)), w1)
      | (Inr _, w1) \<Rightarrow> (Inr (), w1))"

definition tmux_is_alive :: "'w runner \<Rightarrow> string \<Rightarrow> ('w, session_error, bool) comp" where
  "tmux_is_alive run i w =
     (case run ''tmux'' [''has-session'', ''-t'', i] None w of
        (Inl e, w1) \<Rightarrow> (Inl (SessionCommandFailed (io_message e)), w1)
      | (Inr out, w1) \<Rightarrow> (Inr (success out), w1))"

definition tmux_capture_output :: "'w runner \<Rightarrow> string \<Rightarrow> nat \<Rightarrow> ('w, session_error, string) comp" where
  "tmux_capture_output run i n w =
     (case run ''tmux'' [''capture-pane'', ''-t'', i, ''-p'', ''-S'', ''-'' @ show_nat n] None w of
        (Inl e, w1) \<Rightarrow> (Inl (SessionCommandFailed (io_message e)), w1)
      | (Inr out, w1) \<Rightarrow>
          (if success out then (Inr (co_stdout out), w1) else (Inl (SessionNotFound i), w1)))"

definition tmux_is_process_running ::
  "'w runner \<Rightarrow> string \<Rightarrow> string \<Rightarrow> ('w, session_error, bool) comp" where
  "tmux_is_process_running run i pattern w =
     (case run ''tmux'' [''list-panes'', ''-t'', i, ''-F'', ''#{pane_pid}''] None w of
        (Inl e, w1) \<Rightarrow> (Inl (SessionCommandFailed (io_message e)), w1)
      | (Inr out, w1) \<Rightarrow>
          (if \<not> success out then (Inl (SessionNotFound i), w1)
           else (let pid = trim (co_stdout out)
                 in if pid = [] then (Inr False, w1)
                    else (case run ''pgrep'' [''-P'', pid, ''-f'', pattern] None w1 of
                            (Inl e, w2) \<Rightarrow> (Inl (SessionCommandFailed (io_message e)), w2)
                          | (Inr out2, w2) \<Rightarrow> (Inr (success out2), w2)))))"

definition tmux_session :: "'w runner \<Rightarrow> 'w session_adapter" where
  "tmux_session run =
     \<lparr>sess_spawn = tmux_spawn run, sess_send = tmux_send run, sess_kill = tmux_kill run,
      sess_is_alive = tmux_is_alive run, sess_capture_output = tmux_capture_output run,
      sess_is_process_running = tmux_is_process_running run\<rparr>"

definition git_worktree_add ::
  "'w runner \<Rightarrow> path \<Rightarrow> string \<Rightarrow> path \<Rightarrow> ('w, repo_error, unit) comp" where
  "git_worktree_add run root b p w =
     (case run ''git'' [''worktree'', ''add'', p, ''-b'', b] (Some root) w of
        (Inl e, w1) \<Rightarrow> (Inl (RepoCommandFailed (io_message e)), w1)
      | (Inr out, w1) \<Rightarrow>
          (if success out then (Inr (), w1)
           else if contains (co_stderr out) ''already exists'' then (Inl (BranchExists b), w1)
           else (Inl (RepoCommandFailed (co_stderr out)), w1)))"

definition git_worktree_remove ::
  "'w runner \<Rightarrow> path \<Rightarrow> path \<Rightarrow> ('w, repo_error, unit) comp" where
  "git_worktree_remove run root p w =
     (case run ''git'' [''worktree'', ''remove'', ''--force'', p] (Some root) w of
        (Inl e, w1) \<Rightarrow> (Inl (RepoCommandFailed (io_message e)), w1)
      | (Inr out, w1) \<Rightarrow>
          (if success out then (Inr (), w1)
           else if contains (co_stderr out) ''is not a working tree''
           then (Inl (WorktreeNotFound p), w1)
           else (Inl (RepoCommandFailed (co_stderr out)), w1)))"

definition git_worktree_list :: "'w runner \<Rightarrow> path \<Rightarrow> ('w, repo_error, string list) comp" where
  "git_worktree_list run root w =
     (case run ''git'' [''worktree'', ''list'', ''--porcelain''] (Some root) w of
        (Inl e, w1) \<Rightarrow> (Inl (RepoCommandFailed (io_message e)), w1)
      | (Inr out, w1) \<Rightarrow>
          (if success out then
             (Inr (map (\<lambda>l. case strip_prefix l ''worktree '' of Some s \<Rightarrow> s | None \<Rightarrow> l)
                (filter (\<lambda>l. starts_with l ''worktree '') (lines (co_stdout out)))), w1)
           else (Inl (RepoCommandFailed (co_stderr out)), w1)))"

definition git_repo :: "'w runner \<Rightarrow> path \<Rightarrow> 'w repo_adapter" where
  "git_repo run root =
     \<lparr>repo_worktree_add = git_worktree_add run root, repo_worktree_remove = git_worktree_remove run root,
      repo_worktree_list = git_worktree_list run root\<rparr>"

section \<open>The contract of a session adapter\<close>

text \<open>\<open>live w i\<close>: session \<open>i\<close> is running in world \<open>w\<close>. Spawning a session that succeeds makes it
  live and ends no other, killing a session ends it and starts none, and asking about a session
  reports its liveness and changes none.\<close>

locale session_contract =
  fixes A :: "'w session_adapter"
    and live :: "'w \<Rightarrow> string \<Rightarrow> bool"
  assumes spawn_live: "sess_spawn A n cwd cmd env w = (Inr i, w') \<Longrightarrow> live w' i"
    and spawn_keeps: "sess_spawn A n cwd cmd env w = (r, w') \<Longrightarrow> live w j \<Longrightarrow> live w' j"
    and kill_ends: "sess_kill A i w = (Inr (), w') \<Longrightarrow> live w' j \<longleftrightarrow> live w j \<and> j \<noteq> i"
    and alive_reports: "sess_is_alive A i w = (Inr b, w') \<Longrightarrow> b = live w i \<and> live w' = live w"
begin

lemma spawn_then_alive:
  assumes "sess_spawn A n cwd cmd env w = (Inr i, w1)" and "sess_is_alive A i w1 = (Inr b, w2)"
  shows "b" and "live w2 i"
  using spawn_live [OF assms(1)] alive_reports [OF assms(2)] by auto

lemma kill_then_not_alive:
  assumes "sess_kill A i w = (Inr (), w1)" and "sess_is_alive A i w1 = (Inr b, w2)"
  shows "\<not> b"
  using kill_ends [OF assms(1), of i] alive_reports [OF assms(2)] by auto

text \<open>The tracing wrapper keeps the contract.\<close>

lemma traced_contract: "session_contract (traced_session exists A) live"
  by unfold_locales
    (auto simp: traced_session_def traced_spawn_def kill_ends
      dest: spawn_live spawn_keeps alive_reports split: if_splits)

end

definition fake_live :: "fake_sessions \<Rightarrow> string \<Rightarrow> bool" where
  "fake_live w i \<longleftrightarrow> (\<exists>s. hm_get (fk_sessions w) i = Some s \<and> fs_alive s)"

lemmas fake_defs = fake_session_adapter_def fake_spawn_def fake_send_def fake_kill_def
  fake_is_alive_def fake_log_def Let_def

interpretation fake: session_contract fake_session_adapter fake_live
proof
  show "sess_is_alive fake_session_adapter i w = (Inr b, w') \<Longrightarrow>
      b = fake_live w i \<and> fake_live w' = fake_live w" for i w b w'
    by (auto simp: fake_defs fake_live_def fun_eq_iff split: option.splits)
qed (auto simp: fake_defs fake_live_def split: if_splits)

interpretation traced_fake: session_contract "traced_session exists fake_session_adapter" fake_live
  for exists
  by (rule fake.traced_contract)

section \<open>Properties\<close>

text \<open>With the fake session adapter behind the tracing wrapper, a session that was spawned and
  then killed is reported as not alive, one that was only spawned is reported as alive, and a spawn
  into a directory that does not exist fails without touching the adapter.\<close>

lemma traced_fake_session_life:
  fixes ex :: "path \<Rightarrow> fake_sessions \<Rightarrow> bool"
  defines "A \<equiv> traced_session ex fake_session_adapter"
  shows "(\<not> ex cwd w \<longrightarrow> sess_spawn A n cwd cmd env w =
      (Inl (SpawnFailed (''working directory does not exist: '' @ cwd)), w)) \<and>
    (\<forall>i w1 b w2. sess_spawn A n cwd cmd env w = (Inr i, w1) \<longrightarrow>
      sess_is_alive A i w1 = (Inr b, w2) \<longrightarrow>
      b \<and> (\<forall>w3 c w4. sess_kill A i w2 = (Inr (), w3) \<longrightarrow>
             sess_is_alive A i w3 = (Inr c, w4) \<longrightarrow> \<not> c))"
  unfolding A_def
proof (intro conjI impI allI)
  assume "\<not> ex cwd w"
  then show "sess_spawn (traced_session ex fake_session_adapter) n cwd cmd env w =
      (Inl (SpawnFailed (''working directory does not exist: '' @ cwd)), w)"
    by (simp add: traced_session_def traced_spawn_def)
qed (auto dest: traced_fake.spawn_then_alive traced_fake.kill_then_not_alive)

lemma traced_fake_session_life_witness:
  "sess_spawn (traced_session (\<lambda>p _. p = ''/ws'') fake_session_adapter) ''s'' ''/tmp'' ''claude'' []
     fake_sessions_new =
   (Inl (SpawnFailed ''working directory does not exist: /tmp''), fake_sessions_new) \<and>
   fst (sess_spawn (traced_session (\<lambda>p _. p = ''/ws'') fake_session_adapter) ''s'' ''/ws'' ''claude'' []
     fake_sessions_new) = Inr ''fake-1''"
proof -
  have "show_nat (Suc 0) = ''1''" by code_simp
  moreover have "sess_spawn (traced_session (\<lambda>p _. p = ''/ws'') fake_session_adapter) ''s'' ''/tmp''
      ''claude'' [] fake_sessions_new =
    (Inl (SpawnFailed ''working directory does not exist: /tmp''), fake_sessions_new)"
    using traced_fake_session_life [of "\<lambda>p _. p = ''/ws''" "''/tmp''" fake_sessions_new "''s''" "''claude''" "[]"]
    by simp
  ultimately show ?thesis
    by (simp add: traced_session_def traced_spawn_def fake_defs fake_sessions_new_def)
qed

end
