(* ===== verification/Scheduler.thy ===== *)
theory Scheduler
  imports Core_Types
begin

text \<open>
  \<open>crates/engine/src/scheduler.rs\<close>: timers by id, with the instant at which each fires. The contract
  of a timer queue is a locale over the deadline of each id; the scheduler is its interpretation.
\<close>

record scheduler =
  timers :: "(string, instant) hmap"

definition scheduler_new :: scheduler where
  "scheduler_new = \<lparr>timers = []\<rparr>"

definition set_timer :: "string \<Rightarrow> duration \<Rightarrow> instant \<Rightarrow> scheduler \<Rightarrow> scheduler" where
  "set_timer i d now s = s\<lparr>timers := hm_insert i (now + d) (timers s)\<rparr>"

definition cancel_timer :: "string \<Rightarrow> scheduler \<Rightarrow> scheduler" where
  "cancel_timer i s = s\<lparr>timers := hm_remove i (timers s)\<rparr>"

definition fired_timers :: "instant \<Rightarrow> scheduler \<Rightarrow> event list \<times> scheduler" where
  "fired_timers now s =
     (let fired = filter (\<lambda>(i, at). at \<le> now) (timers s);
          to_remove = map fst fired
      in (map (\<lambda>(i, _). Timer i) fired,
          s\<lparr>timers := foldl (\<lambda>m i. hm_remove i m) (timers s) to_remove\<rparr>))"

definition next_deadline :: "scheduler \<Rightarrow> instant option" where
  "next_deadline s =
     (case map snd (timers s) of [] \<Rightarrow> None | t # ts \<Rightarrow> Some (fold min ts t))"

definition has_timers :: "scheduler \<Rightarrow> bool" where
  "has_timers s \<longleftrightarrow> timers s \<noteq> []"

section \<open>The contract of a timer queue\<close>

definition deadline :: "scheduler \<Rightarrow> string \<Rightarrow> instant option" where
  "deadline s i = hm_get (timers s) i"

definition scheduler_wf :: "scheduler \<Rightarrow> bool" where
  "scheduler_wf s \<longleftrightarrow> hm_wf (timers s)"

locale timer_queue =
  fixes new :: "'q"
    and set :: "string \<Rightarrow> duration \<Rightarrow> instant \<Rightarrow> 'q \<Rightarrow> 'q"
    and cancel :: "string \<Rightarrow> 'q \<Rightarrow> 'q"
    and fire :: "instant \<Rightarrow> 'q \<Rightarrow> event list \<times> 'q"
    and due :: "'q \<Rightarrow> string \<Rightarrow> instant option"
    and invar :: "'q \<Rightarrow> bool"
  assumes due_new: "due new i = None"
    and due_set: "due (set i d now q) = (due q)(i \<mapsto> now + d)"
    and due_cancel: "due (cancel i q) = (due q)(i := None)"
    and fire_events: "invar q \<Longrightarrow> fire now q = (es, q') \<Longrightarrow>
      distinct es \<and> (\<forall>e. e \<in> List.set es \<longleftrightarrow> (\<exists>i t. e = Timer i \<and> due q i = Some t \<and> t \<le> now))"
    and fire_due: "invar q \<Longrightarrow> fire now q = (es, q') \<Longrightarrow>
      due q' i = (case due q i of Some t \<Rightarrow> (if t \<le> now then None else Some t) | None \<Rightarrow> None)"
    and invar_new: "invar new"
    and invar_set: "invar q \<Longrightarrow> invar (set i d now q)"
    and invar_cancel: "invar q \<Longrightarrow> invar (cancel i q)"
    and invar_fire: "invar q \<Longrightarrow> invar (snd (fire now q))"
begin

text \<open>A timer that has fired does not fire again until it is set again.\<close>

lemma fires_once:
  assumes "invar q" and "fire now q = (es, q1)" and "fire later q1 = (fs, q2)" and "Timer i \<in> List.set es"
  shows "Timer i \<notin> List.set fs"
proof -
  have q1: "invar q1" using invar_fire [OF assms(1), of now] assms(2) by simp
  from assms(4) fire_events [OF assms(1,2)] obtain t where "due q i = Some t" "t \<le> now" by auto
  then have "due q1 i = None" using fire_due [OF assms(1,2), of i] by simp
  with fire_events [OF q1 assms(3)] show ?thesis by auto
qed

text \<open>A timer fires at its deadline and not before, unless it is cancelled or set again.\<close>

lemma set_then_fire:
  assumes "invar q" and "fire later (set i d now q) = (es, q')"
  shows "Timer i \<in> List.set es \<longleftrightarrow> now + d \<le> later"
  using fire_events [OF invar_set [OF assms(1)] assms(2)] by (simp add: due_set)

lemma cancel_then_fire:
  assumes "invar q" and "fire later (cancel i q) = (es, q')"
  shows "Timer i \<notin> List.set es"
  using fire_events [OF invar_cancel [OF assms(1)] assms(2)] by (simp add: due_cancel)

end

lemma entries_deadline:
  "scheduler_wf q \<Longrightarrow> (i, t) \<in> set (timers q) \<longleftrightarrow> deadline q i = Some t"
  unfolding scheduler_wf_def deadline_def by (rule hm.entries_lookup)

lemma deadline_remove_all:
  "deadline (q\<lparr>timers := foldl (\<lambda>m i. hm_remove i m) (timers q) is\<rparr>) i =
    (if i \<in> set is then None else deadline q i)"
  by (simp add: deadline_def hm.lookup_remove_all)

lemma distinct_timers:
  "distinct (map fst kvs) \<Longrightarrow> distinct (map (\<lambda>(i, _). Timer i) (filter P kvs))"
  by (induction kvs) (auto simp: image_iff)

interpretation sched: timer_queue scheduler_new set_timer cancel_timer fired_timers deadline scheduler_wf
proof
  fix now q es q'
  assume wf: "scheduler_wf q" and f: "fired_timers now q = (es, q')"
  show "distinct es \<and> (\<forall>e. e \<in> set es \<longleftrightarrow> (\<exists>i t. e = Timer i \<and> deadline q i = Some t \<and> t \<le> now))"
  proof
    have es: "es = map (\<lambda>(i, _). Timer i) (filter (\<lambda>(i, at). at \<le> now) (timers q))"
      using f by (auto simp: fired_timers_def Let_def)
    show "distinct es"
      unfolding es using distinct_timers wf by (auto simp: scheduler_wf_def hm_wf_def)
    show "\<forall>e. e \<in> set es \<longleftrightarrow> (\<exists>i t. e = Timer i \<and> deadline q i = Some t \<and> t \<le> now)"
      unfolding es using entries_deadline [OF wf] by (force simp: image_iff)
  qed
  fix i
  have m: "i \<in> set (map fst (filter (\<lambda>(i, at). at \<le> now) (timers q))) \<longleftrightarrow>
      (\<exists>t. deadline q i = Some t \<and> t \<le> now)"
    using entries_deadline [OF wf] by (force simp: image_iff)
  have q': "q' = q\<lparr>timers := foldl (\<lambda>m i. hm_remove i m) (timers q)
      (map fst (filter (\<lambda>(i, at). at \<le> now) (timers q)))\<rparr>"
    using f by (simp add: fired_timers_def Let_def)
  have "deadline q' i = (if i \<in> set (map fst (filter (\<lambda>(i, at). at \<le> now) (timers q))) then None
      else deadline q i)"
    unfolding q' deadline_remove_all by simp
  then show "deadline q' i =
      (case deadline q i of Some t \<Rightarrow> (if t \<le> now then None else Some t) | None \<Rightarrow> None)"
    unfolding m by (auto split: option.split)
qed (auto simp: scheduler_new_def set_timer_def cancel_timer_def fired_timers_def deadline_def
    scheduler_wf_def Let_def hm.invar_remove_all hm_get_insert hm_get_remove)

lemma fold_min: "fold min ts t = Min (set (t # ts))"
proof (induction ts arbitrary: t)
  case (Cons u ts)
  have "fold min (u # ts) t = Min (set (min u t # ts))" using Cons by simp
  also have "\<dots> = Min (set (t # u # ts))"
    by (cases "ts = []") (auto simp: min.commute min.left_commute)
  finally show ?case .
qed simp

lemma next_deadline_min:
  assumes "scheduler_wf s"
  shows "next_deadline s = Some t \<longleftrightarrow>
    (\<exists>i. deadline s i = Some t) \<and> (\<forall>i u. deadline s i = Some u \<longrightarrow> t \<le> u)"
proof -
  let ?T = "snd ` set (timers s)"
  have T: "u \<in> ?T \<longleftrightarrow> (\<exists>i. deadline s i = Some u)" for u
    using entries_deadline [OF assms] by (force simp: image_iff)
  show ?thesis
  proof (cases "timers s")
    case Nil
    then show ?thesis by (simp add: next_deadline_def deadline_def)
  next
    case (Cons x xs)
    have n: "next_deadline s = Some (Min ?T)" using Cons by (simp add: next_deadline_def fold_min)
    have ne: "finite ?T" "?T \<noteq> {}" using Cons by auto
    have "Min ?T = t \<longleftrightarrow> t \<in> ?T \<and> (\<forall>u\<in>?T. t \<le> u)" by (rule Min_eq_iff [OF ne])
    then show ?thesis unfolding n using T by (metis option.inject)
  qed
qed

section \<open>Properties\<close>

text \<open>At an instant, \<open>fired_timers\<close> returns each timer that is due by then exactly once, removes
  these and no others, keeps the deadlines of the rest, and leaves a next deadline that lies after
  that instant.\<close>

lemma fired_timers_exact:
  assumes "scheduler_wf s" and "fired_timers now s = (es, s')"
  shows "distinct es \<and>
    (\<forall>e. e \<in> set es \<longleftrightarrow> (\<exists>i t. e = Timer i \<and> deadline s i = Some t \<and> t \<le> now)) \<and>
    (\<forall>i. deadline s' i =
       (case deadline s i of Some t \<Rightarrow> (if t \<le> now then None else Some t) | None \<Rightarrow> None)) \<and>
    (\<forall>t. next_deadline s' = Some t \<longrightarrow> now < t)"
proof (intro conjI)
  have wf': "scheduler_wf s'" using sched.invar_fire [OF assms(1), of now] assms(2) by simp
  show "\<forall>i. deadline s' i =
       (case deadline s i of Some t \<Rightarrow> (if t \<le> now then None else Some t) | None \<Rightarrow> None)"
    using sched.fire_due [OF assms] by blast
  then show "\<forall>t. next_deadline s' = Some t \<longrightarrow> now < t"
    by (auto simp: next_deadline_min [OF wf'] split: option.splits if_splits)
qed (use sched.fire_events [OF assms] in blast)+

lemma fired_timers_exact_witness:
  "let s = set_timer ''b'' 20 0 (set_timer ''a'' 5 0 scheduler_new)
   in fst (fired_timers 10 s) = [Timer ''a''] \<and> next_deadline (snd (fired_timers 10 s)) = Some 20"
proof -
  let ?s = "set_timer ''b'' 20 0 (set_timer ''a'' 5 0 scheduler_new)"
  have wf: "scheduler_wf ?s" by (intro sched.invar_set sched.invar_new)
  obtain es s' where f: "fired_timers 10 ?s = (es, s')" by fastforce
  then have "es = [Timer ''a'']" "next_deadline s' = Some 20"
    by (auto simp: fired_timers_def set_timer_def scheduler_new_def hm_insert_def hm_remove_def
        next_deadline_def)
  with fired_timers_exact [OF wf f] f show ?thesis by simp
qed

text \<open>C26: a timer fires at its deadline and not before: after \<open>set_timer\<close>, the timer is among the
  fired ones at an instant exactly if the instant is at or past the deadline; once it has fired, or
  when it was cancelled, it does not fire again.\<close>

theorem timer_life:
  assumes "scheduler_wf s"
  shows "(Timer i \<in> set (fst (fired_timers later (set_timer i d now s))) \<longleftrightarrow> now + d \<le> later) \<and>
    Timer i \<notin> set (fst (fired_timers later (cancel_timer i s))) \<and>
    (Timer i \<in> set (fst (fired_timers now s)) \<longrightarrow>
     Timer i \<notin> set (fst (fired_timers later (snd (fired_timers now s)))))"
  using sched.set_then_fire [OF assms surjective_pairing] sched.cancel_then_fire [OF assms surjective_pairing]
    sched.fires_once [OF assms surjective_pairing surjective_pairing] by blast

theorem timer_life_witness:
  "Timer ''a'' \<in> set (fst (fired_timers 15 (set_timer ''a'' 10 5 scheduler_new))) \<and>
   Timer ''a'' \<notin> set (fst (fired_timers 14 (set_timer ''a'' 10 5 scheduler_new)))"
proof -
  have "scheduler_wf scheduler_new" by (rule sched.invar_new)
  from timer_life [OF this, of "''a''" 15 10 5] timer_life [OF this, of "''a''" 14 10 5]
  show ?thesis by simp
qed

end
