(* ===== verification/Executor.thy ===== *)
theory Executor
  imports Adapters Scheduler "HOL-Library.Countable"
begin

text \<open>
  \<open>crates/engine/src/executor.rs\<close> and \<open>error.rs\<close>: the execution of effects over the write-ahead log, the state, the
  scheduler and the adapters. \<open>host\<close> gathers what the engine calls outside itself: the adapters, the
  JSON libraries, the clock, the id generator, the shell, the environment and the file system. Each is
  a function of the world \<open>'w\<close>, the type of everything outside the program; an operation that acts
  returns the next world. Log output is left out.
\<close>

section \<open>What the engine calls outside itself\<close>

record 'w host =
  h_sessions :: "'w session_adapter"
  h_repos :: "'w repo_adapter"
  h_notify :: "'w notify_adapter"
  h_ser :: "wal_entry \<Rightarrow> string + string"
  h_write :: "'w \<Rightarrow> write_outcome \<times> 'w"
  h_now :: "'w \<Rightarrow> instant \<times> 'w"
  h_shell :: "string \<Rightarrow> path \<Rightarrow> (string, string) hmap \<Rightarrow> ('w, io_error, int option) comp"
  h_desktop :: "string \<Rightarrow> string \<Rightarrow> 'w \<Rightarrow> 'w"
  h_dbg_event :: "event \<Rightarrow> string"
  h_next_id :: "'w \<Rightarrow> string \<times> 'w"
  h_env :: "string \<Rightarrow> 'w \<Rightarrow> string option"
  h_home :: "'w \<Rightarrow> path option"
  h_exists :: "path \<Rightarrow> 'w \<Rightarrow> bool"
  h_read_dir :: "path \<Rightarrow> 'w \<Rightarrow> (string \<times> instant option) list option"
  h_hash_path :: "path \<Rightarrow> string"
  h_read_log :: "path \<Rightarrow> 'w \<Rightarrow> string option list option"
  h_from_json :: "string \<Rightarrow> json option"
  h_read_file :: "path \<Rightarrow> 'w \<Rightarrow> io_error + string"
  h_create_dir_all :: "path \<Rightarrow> ('w, io_error, unit) comp"
  h_write_file :: "path \<Rightarrow> string \<Rightarrow> ('w, io_error, unit) comp"
  h_copy :: "path \<Rightarrow> path \<Rightarrow> ('w, io_error, unit) comp"

section \<open>Errors\<close>

datatype execute_error =
    SessionErr session_error
  | RepoErr repo_error
  | NotifyErr notify_error
  | StorageErr wal_error
  | WorkspaceNotFound string
  | ShellErr string

fun show_session_error :: "session_error \<Rightarrow> string" where
  "show_session_error (SessionNotFound s) = ''session not found: '' @ s"
| "show_session_error (SpawnFailed s) = ''spawn failed: '' @ s"
| "show_session_error (SessionCommandFailed s) = ''command failed: '' @ s"

fun show_repo_error :: "repo_error \<Rightarrow> string" where
  "show_repo_error (WorktreeNotFound s) = ''worktree not found: '' @ s"
| "show_repo_error (RepoCommandFailed s) = ''command failed: '' @ s"
| "show_repo_error (BranchExists s) = ''branch already exists: '' @ s"

fun show_notify_error :: "notify_error \<Rightarrow> string" where
  "show_notify_error (SendFailed s) = ''send failed: '' @ s"

fun show_wal_error :: "wal_error \<Rightarrow> string" where
  "show_wal_error (WalIo e) = ''IO error: '' @ io_message e"
| "show_wal_error (WalJson s) = ''JSON error: '' @ s"

fun show_execute_error :: "execute_error \<Rightarrow> string" where
  "show_execute_error (SessionErr e) = ''session error: '' @ show_session_error e"
| "show_execute_error (RepoErr e) = ''repo error: '' @ show_repo_error e"
| "show_execute_error (NotifyErr e) = ''notify error: '' @ show_notify_error e"
| "show_execute_error (StorageErr e) = ''storage error: '' @ show_wal_error e"
| "show_execute_error (WorkspaceNotFound s) = ''workspace not found: '' @ s"
| "show_execute_error (ShellErr s) = ''shell execution error: '' @ s"

text \<open>The errors of the runtime (\<open>error.rs\<close>).\<close>

datatype runtime_error =
    Execute execute_error
  | PipelineNotFound string
  | CommandNotFound string
  | PipelineDefNotFound string
  | AgentNotFound string
  | PromptError string string
  | InvalidRunDirective string string

fun show_runtime_error :: "runtime_error \<Rightarrow> string" where
  "show_runtime_error (Execute e) = ''execute error: '' @ show_execute_error e"
| "show_runtime_error (PipelineNotFound s) = ''pipeline not found: '' @ s"
| "show_runtime_error (CommandNotFound s) = ''command not found: '' @ s"
| "show_runtime_error (PipelineDefNotFound s) = ''pipeline definition not found: '' @ s"
| "show_runtime_error (AgentNotFound s) = ''agent not found: '' @ s"
| "show_runtime_error (PromptError a m) = ''prompt error for agent '' @ a @ '': '' @ m"
| "show_runtime_error (InvalidRunDirective c d) =
     ''invalid run directive for '' @ c @ '': '' @ d"

section \<open>The executor\<close>

record 'w executor =
  ex_wal :: wal
  ex_state :: materialized_state
  ex_scheduler :: scheduler
  ex_world :: 'w

type_synonym ('w, 'a) exec = "('w executor, execute_error, 'a) comp"

text \<open>An adapter call acts on the world alone.\<close>

definition on_world :: "('e \<Rightarrow> execute_error) \<Rightarrow> ('w, 'e, 'a) comp \<Rightarrow> ('w, 'a) exec" where
  "on_world err m = on_part ex_world (\<lambda>w x. x\<lparr>ex_world := w\<rparr>) (map_err err m)"

definition exec_now :: "'w host \<Rightarrow> ('w, instant) exec" where
  "exec_now h x = (case h_now h (ex_world x) of (now, w) \<Rightarrow> (Inr now, x\<lparr>ex_world := w\<rparr>))"

text \<open>Nothing is written when the entry cannot be serialised.\<close>

definition exec_append :: "'w host \<Rightarrow> operation \<Rightarrow> ('w, nat) exec" where
  "exec_append h op x =
     (case h_write h (ex_world x) of
        (outcome, w) \<Rightarrow>
          (case wal_append (h_ser h) outcome op (ex_wal x) of
             (Inl e, l) \<Rightarrow>
               (Inl (StorageErr e),
                x\<lparr>ex_wal := l, ex_world := (case e of WalIo _ \<Rightarrow> w | WalJson _ \<Rightarrow> ex_world x)\<rparr>)
           | (Inr n, l) \<Rightarrow> (Inr n, x\<lparr>ex_wal := l, ex_world := w\<rparr>)))"

definition exec_apply :: "'w host \<Rightarrow> operation \<Rightarrow> ('w, unit) exec" where
  "exec_apply h op =
     bind (exec_now h) (\<lambda>now. modify (\<lambda>x. x\<lparr>ex_state := apply_op now op (ex_state x)\<rparr>))"

definition exec_scheduler :: "(scheduler \<Rightarrow> scheduler) \<Rightarrow> ('w, unit) exec" where
  "exec_scheduler f = modify (\<lambda>x. x\<lparr>ex_scheduler := f (ex_scheduler x)\<rparr>)"

fun execute_inner :: "'w host \<Rightarrow> effect \<Rightarrow> ('w, event option) exec" where
  "execute_inner h (Emit e) =
     bind (on_world NotifyErr (notify_send (h_notify h) ''events'' (h_dbg_event h e))) (\<lambda>_. ok None)"
| "execute_inner h (Spawn wid command env cwd) =
     bind (gets (\<lambda>x. map_option ws_path (hm_get (workspaces (ex_state x)) wid))) (\<lambda>found.
     bind (ok_or (WorkspaceNotFound wid) found) (\<lambda>wpath.
     bind (on_world SessionErr (sess_spawn (h_sessions h) wid
             (case cwd of Some d \<Rightarrow> d | None \<Rightarrow> wpath) command env)) (\<lambda>_. ok None)))"
| "execute_inner h (Send sid input) =
     bind (on_world SessionErr (sess_send (h_sessions h) sid input)) (\<lambda>_. ok None)"
| "execute_inner h (Kill sid) =
     bind (on_world SessionErr (sess_kill (h_sessions h) sid)) (\<lambda>_. ok None)"
| "execute_inner h (WorktreeAdd b p) =
     bind (on_world RepoErr (repo_worktree_add (h_repos h) b p)) (\<lambda>_. ok None)"
| "execute_inner h (WorktreeRemove p) =
     bind (on_world RepoErr (repo_worktree_remove (h_repos h) p)) (\<lambda>_. ok None)"
| "execute_inner h (SetTimer i d) =
     bind (exec_now h) (\<lambda>now. bind (exec_scheduler (set_timer i d now)) (\<lambda>_. ok None))"
| "execute_inner h (CancelTimer i) = bind (exec_scheduler (cancel_timer i)) (\<lambda>_. ok None)"
| "execute_inner h (Persist op) =
     bind (exec_append h op) (\<lambda>_. bind (exec_apply h op) (\<lambda>_. ok None))"
| "execute_inner h (Shell pid ph command cwd env) =
     bind (on_world (\<lambda>e. ShellErr (io_message e)) (h_shell h command cwd env)) (\<lambda>code.
     ok (Some (ShellCompleted pid ph (case code of Some c \<Rightarrow> c | None \<Rightarrow> -1))))"
| "execute_inner h (Notify t m) =
     bind (modify (\<lambda>x. x\<lparr>ex_world := h_desktop h t m (ex_world x)\<rparr>)) (\<lambda>_. ok None)"

definition execute :: "'w host \<Rightarrow> effect \<Rightarrow> ('w, event option) exec" where
  "execute h eff = execute_inner h eff"

fun execute_all :: "'w host \<Rightarrow> effect list \<Rightarrow> ('w, event list) exec" where
  "execute_all h [] = ok []"
| "execute_all h (eff # effs) =
     bind (execute h eff) (\<lambda>r.
     bind (execute_all h effs) (\<lambda>es. ok (case r of Some e \<Rightarrow> e # es | None \<Rightarrow> es)))"

section \<open>What an effect does\<close>

lemmas exec_defs = on_world_def exec_now_def exec_append_def exec_apply_def exec_scheduler_def

text \<open>Only a \<open>Persist\<close> touches the log and the state, and only the timer effects the scheduler.\<close>

lemma execute_frame:
  assumes "execute h eff x = (r, y)"
  shows "(\<forall>op. eff \<noteq> Persist op) \<Longrightarrow> ex_wal y = ex_wal x \<and> ex_state y = ex_state x"
    and "(\<forall>i d. eff \<noteq> SetTimer i d) \<Longrightarrow> (\<forall>i. eff \<noteq> CancelTimer i) \<Longrightarrow>
      ex_scheduler y = ex_scheduler x"
  using assms
  by (cases eff; auto simp: execute_def exec_defs comp_defs split: prod.splits sum.splits option.splits)+

lemma execute_all_append:
  "execute_all h (es @ fs) =
     bind (execute_all h es) (\<lambda>as. bind (execute_all h fs) (\<lambda>bs. ok (as @ bs)))"
proof (induction es)
  case Nil
  show ?case by (rule ext) (auto simp: comp_defs split: prod.splits sum.splits)
next
  case (Cons e es)
  show ?case
    by (rule ext) (auto simp: Cons.IH comp_defs split: prod.splits sum.splits option.splits)
qed

text \<open>A persisted operation: what is in the log afterwards and what in the state.\<close>

lemma execute_persist:
  assumes "execute h (Persist op) x = (r, y)"
  shows "(\<exists>n now. r = Inr None \<and> ex_state y = apply_op now op (ex_state x) \<and>
      wal_append (h_ser h) (fst (h_write h (ex_world x))) op (ex_wal x) = (Inr n, ex_wal y)) \<or>
    (\<exists>e. r = Inl (StorageErr e) \<and> ex_state y = ex_state x \<and>
      wal_append (h_ser h) (fst (h_write h (ex_world x))) op (ex_wal x) = (Inl e, ex_wal y))"
  using assms
  by (auto simp: execute_def exec_defs comp_defs split: prod.splits sum.splits)

section \<open>Invariants of the executor\<close>

text \<open>\<open>admissible\<close> selects effects; an invariant that each of them keeps is kept by every list of
  them, whether it runs to its end or stops at an error.\<close>

locale executor_invariant =
  fixes h :: "'w host" and admissible :: "effect \<Rightarrow> bool" and I :: "'w executor \<Rightarrow> bool"
  assumes keeps_execute: "admissible eff \<Longrightarrow> preserves I (execute h eff)"
    and keeps_world: "I x \<Longrightarrow> I (x\<lparr>ex_world := w\<rparr>)"
begin

lemma keeps_execute_all: "\<forall>eff \<in> set effs. admissible eff \<Longrightarrow> preserves I (execute_all h effs)"
proof (induction effs)
  case Nil
  show ?case by (simp add: pres_intros)
next
  case (Cons eff effs)
  then have "preserves I (execute h eff)" "preserves I (execute_all h effs)"
    by (simp_all add: keeps_execute)
  then show ?case unfolding execute_all.simps by (intro pres_intros)
qed

end

text \<open>An invariant of the state alone, kept by the admissible operations.\<close>

lemma state_invariant:
  fixes h :: "'w host"
  assumes "\<And>op now st. admissible (Persist op) \<Longrightarrow> P st \<Longrightarrow> P (apply_op now op st)"
  shows "executor_invariant h admissible (\<lambda>x :: 'w executor. P (ex_state x))"
proof
  fix eff
  assume adm: "admissible eff"
  show "preserves (\<lambda>x. P (ex_state x)) (execute h eff)"
  proof (rule preservesI)
    fix x :: "'w executor"
    assume P: "P (ex_state x)"
    obtain r y where e: "execute h eff x = (r, y)" by fastforce
    show "P (ex_state (snd (execute h eff x)))"
    proof (cases "\<exists>op. eff = Persist op")
      case True
      then obtain op where op: "eff = Persist op" by blast
      from execute_persist [of h op x r y] e op consider now where "ex_state y = apply_op now op (ex_state x)"
        | "ex_state y = ex_state x" by auto
      then show ?thesis using e adm P assms op by cases auto
    next
      case False
      with execute_frame(1) [OF e] e P show ?thesis by auto
    qed
  qed
qed simp

subsection \<open>The state is well formed, and no pipeline records a session or an error\<close>

interpretation wf: executor_invariant h "\<lambda>_. True" "\<lambda>x. state_wf (ex_state x)" for h :: "'w host"
  by (rule state_invariant) (rule apply_op_wf)

interpretation unlinked: executor_invariant h "\<lambda>_. True" "\<lambda>x. unlinked (ex_state x)" for h :: "'w host"
  by (rule state_invariant) (rule apply_op_unlinked)

subsection \<open>The log tells the state\<close>

text \<open>Replaying the log from the empty state gives the state, up to the time stamps.\<close>

definition log_tells_state :: "(string \<Rightarrow> string + wal_entry) \<Rightarrow> 'w executor \<Rightarrow> bool" where
  "log_tells_state de x \<longleftrightarrow>
     (\<exists>ops. log_holds de (ex_wal x) ops \<and>
       untimed (ex_state x) = apply_all (map (\<lambda>op. (0, op)) ops) state_default)"

text \<open>What is relied on: the JSON library reads back what it wrote, and a write that fails leaves
  nothing of the line in the file.\<close>

definition reliable_log :: "(string \<Rightarrow> string + wal_entry) \<Rightarrow> 'w host \<Rightarrow> bool" where
  "reliable_log de h \<longleftrightarrow> (\<forall>op. codec_ok (h_ser h) de op) \<and> (\<forall>w. clean (fst (h_write h w)))"

lemma log_tells_state_append:
  assumes rel: "reliable_log de h" and x: "log_tells_state de x"
    and e: "execute h (Persist op) x = (r, y)"
  shows "log_tells_state de y"
proof -
  from x obtain ops where l: "log_holds de (ex_wal x) ops"
    and s: "untimed (ex_state x) = apply_all (map (\<lambda>op. (0, op)) ops) state_default"
    unfolding log_tells_state_def by blast
  have c: "codec_ok (h_ser h) de op" "clean (fst (h_write h (ex_world x)))"
    using rel by (simp_all add: reliable_log_def)
  note app = wal_append_clean [OF l c]
  from execute_persist [OF e] show ?thesis
  proof (elim disjE exE conjE)
    fix n now
    assume st: "ex_state y = apply_op now op (ex_state x)"
      and w: "wal_append (h_ser h) (fst (h_write h (ex_world x))) op (ex_wal x) = (Inr n, ex_wal y)"
    have "log_holds de (ex_wal y) (ops @ [op])" using app w by auto
    moreover have "untimed (ex_state y) = apply_all (map (\<lambda>op. (0, op)) (ops @ [op])) state_default"
      using s by (simp add: st untimed_apply_op)
    ultimately show ?thesis unfolding log_tells_state_def by blast
  next
    fix err
    assume st: "ex_state y = ex_state x"
      and w: "wal_append (h_ser h) (fst (h_write h (ex_world x))) op (ex_wal x) = (Inl err, ex_wal y)"
    have "log_holds de (ex_wal y) ops" using app w by auto
    then show ?thesis using s st by (auto simp: log_tells_state_def)
  qed
qed

interpretation log: executor_invariant h "\<lambda>_. True"
    "\<lambda>x. reliable_log de h \<longrightarrow> log_tells_state de x" for h :: "'w host" and de
proof
  fix eff
  show "preserves (\<lambda>x. reliable_log de h \<longrightarrow> log_tells_state de x) (execute h eff)"
  proof (rule preservesI, rule impI)
    fix x :: "'w executor"
    assume "reliable_log de h \<longrightarrow> log_tells_state de x" and rel: "reliable_log de h"
    then have x: "log_tells_state de x" by blast
    obtain r y where e: "execute h eff x = (r, y)" by fastforce
    show "log_tells_state de (snd (execute h eff x))"
    proof (cases "\<exists>op. eff = Persist op")
      case True
      with log_tells_state_append [OF rel x] e show ?thesis by auto
    next
      case False
      with execute_frame(1) [OF e] e x show ?thesis by (auto simp: log_tells_state_def)
    qed
  qed
qed (simp add: log_tells_state_def)

subsection \<open>The timers are well formed\<close>

interpretation timers: executor_invariant h "\<lambda>_. True" "\<lambda>x. scheduler_wf (ex_scheduler x)" for h :: "'w host"
proof
  fix eff
  show "preserves (\<lambda>x. scheduler_wf (ex_scheduler x)) (execute h eff)"
  proof (rule preservesI)
    fix x :: "'w executor"
    assume wf: "scheduler_wf (ex_scheduler x)"
    obtain r y where e: "execute h eff x = (r, y)" by fastforce
    show "scheduler_wf (ex_scheduler (snd (execute h eff x)))"
    proof (cases "(\<exists>i d. eff = SetTimer i d) \<or> (\<exists>i. eff = CancelTimer i)")
      case True
      then show ?thesis
        using wf sched.invar_set sched.invar_cancel
        by (auto simp: execute_def exec_defs comp_defs split: prod.splits)
    next
      case False
      with execute_frame(2) [OF e] e wf show ?thesis by auto
    qed
  qed
qed simp

section \<open>A concrete host\<close>

text \<open>A JSON library in the form of a numbering of the entries, and a host whose world is a pair of
  the time and the number of ids given out; every file is missing, every command succeeds.\<close>

instance phase_status :: countable
  by countable_datatype

instance operation :: countable
  by countable_datatype

definition num_ser :: "wal_entry \<Rightarrow> string + string" where
  "num_ser e = Inr (show_nat (to_nat (we_seq e, we_op e)))"

definition num_de :: "string \<Rightarrow> string + wal_entry" where
  "num_de l = (case from_nat (read_digits 0 l) of (n, op) \<Rightarrow> Inr \<lparr>we_seq = n, we_op = op\<rparr>)"

lemma num_codec: "codec_ok num_ser num_de op"
proof -
  have d: "(of_char c :: nat) \<notin> {10, 13}" if "c \<in> set (show_nat k)" for c k
    using show_nat_chars [of k] that by auto
  have "CHR 0x0A \<notin> set (show_nat k)" "last (show_nat k) \<noteq> CHR 0x0D" for k
    using d [of "CHR 0x0A" k] d [of "last (show_nat k)" k] last_in_set [OF show_nat_nonempty [of k]]
    by auto
  then show ?thesis
    by (auto simp: codec_ok_def num_ser_def num_de_def show_nat_nonempty read_show_nat)
qed

definition quiet_host :: "(nat \<times> nat) host" where
  "quiet_host =
     \<lparr>h_sessions = noop_session, h_repos = noop_repo, h_notify = noop_notify, h_ser = num_ser,
      h_write = (\<lambda>w. (Written, w)), h_now = (\<lambda>(t, n). (t, (t + 1, n))),
      h_shell = (\<lambda>_ _ _. ok (Some 0)), h_desktop = (\<lambda>_ _ w. w), h_dbg_event = (\<lambda>_. ''event''),
      h_next_id = (\<lambda>(t, n). (''p'' @ show_nat n, (t, n + 1))), h_env = (\<lambda>_ _. None),
      h_home = (\<lambda>_. None), h_exists = (\<lambda>_ _. False), h_read_dir = (\<lambda>_ _. None),
      h_hash_path = (\<lambda>_. ''h''), h_read_log = (\<lambda>_ _. None), h_from_json = (\<lambda>_. None),
      h_read_file = (\<lambda>_ _. Inl (IoError NotFound ''no such file'')), h_create_dir_all = (\<lambda>_. ok ()),
      h_write_file = (\<lambda>_ _. ok ()), h_copy = (\<lambda>_ _. ok ())\<rparr>"

text \<open>The same with entries written as a fixed line, for evaluation.\<close>

definition plain_host :: "(nat \<times> nat) host" where
  "plain_host = quiet_host\<lparr>h_ser := (\<lambda>_. Inr ''entry'')\<rparr>"

definition empty_executor :: "'w \<Rightarrow> 'w executor" where
  "empty_executor w =
     \<lparr>ex_wal = \<lparr>wal_file = [], wal_sequence = 0\<rparr>, ex_state = state_default,
      ex_scheduler = scheduler_new, ex_world = w\<rparr>"

lemma quiet_host_reliable: "reliable_log num_de quiet_host"
  using num_codec by (simp add: reliable_log_def quiet_host_def)

lemma empty_executor_log: "log_tells_state de (empty_executor w)"
  by (auto simp: log_tells_state_def empty_executor_def log_holds_def wal_replay_def apply_all_def
      intro!: exI [of _ "[]"])

end
