(* ===== verification/Monitor.thy ===== *)
theory Monitor
  imports Session_Log Runbook Executor
begin

text \<open>
  \<open>crates/engine/src/monitor.rs\<close>: from the detected state of an agent to the action that the agent's
  definition asks for; \<open>workspace.rs\<close> and \<open>spawn.rs\<close>: preparing a workspace for an agent and the
  effects that spawn it.
\<close>

section \<open>Actions\<close>

fun failure_to_error_type :: "failure_reason \<Rightarrow> error_type option" where
  "failure_to_error_type failure_reason.Unauthorized = Some error_type.Unauthorized"
| "failure_to_error_type failure_reason.OutOfCredits = Some error_type.OutOfCredits"
| "failure_to_error_type failure_reason.NoInternet = Some error_type.NoInternet"
| "failure_to_error_type failure_reason.RateLimited = Some error_type.RateLimited"
| "failure_to_error_type (OtherReason _) = None"

fun failure_to_message :: "failure_reason \<Rightarrow> string" where
  "failure_to_message failure_reason.Unauthorized = ''API key unauthorized''"
| "failure_to_message failure_reason.OutOfCredits = ''Out of API credits''"
| "failure_to_message failure_reason.NoInternet = ''Network error''"
| "failure_to_message failure_reason.RateLimited = ''Rate limited''"
| "failure_to_message (OtherReason m) = m"

definition get_agent_def :: "runbook \<Rightarrow> pipeline \<Rightarrow> runtime_error + agent_def" where
  "get_agent_def rb p =
     (case get_pipeline_def rb (kind p) of
        None \<Rightarrow> Inl (PipelineDefNotFound (kind p))
      | Some d \<Rightarrow>
          (case get_phase d (phase p) of
             None \<Rightarrow> Inl (PipelineNotFound (''phase '' @ phase p @ '' not found''))
           | Some ph \<Rightarrow>
               (case ph_run ph of
                  RunAgent a \<Rightarrow>
                    (case get_agent rb a of None \<Rightarrow> Inl (AgentNotFound a) | Some ag \<Rightarrow> Inr ag)
                | _ \<Rightarrow> Inl (InvalidRunDirective (''phase '' @ phase p) ''not an agent phase''))))"

datatype action_effects =
    NudgeWith "effect list"
  | AdvancePipeline
  | FailPipeline string
  | RestartAgent "string option" "path option" string "(string, string) hmap"
  | RecoverAgent "string option" string "(string, string) hmap"
  | EscalateWith "effect list"

definition check_timer :: "string \<Rightarrow> string" where
  "check_timer pid = ''session:'' @ pid @ '':check''"

definition recover_inputs ::
  "action_config \<Rightarrow> (string, string) hmap \<Rightarrow> (string, string) hmap" where
  "recover_inputs c ins =
     (case message c of
        None \<Rightarrow> ins
      | Some m \<Rightarrow>
          (if append_flag c then
             (let existing = (case hm_get ins ''prompt'' of Some x \<Rightarrow> x | None \<Rightarrow> [])
              in hm_insert ''prompt'' (existing @ nl @ nl @ m) ins)
           else hm_insert ''prompt'' m ins))"

definition escalate_effects :: "pipeline \<Rightarrow> string \<Rightarrow> effect list" where
  "escalate_effects p trigger =
     [Emit (Custom ''pipeline:escalate''
        (json_strings [(''pipeline_id'', id p), (''pipeline_name'', name p), (''phase'', phase p),
           (''reason'', trigger)])),
      Notify (''Pipeline needs attention: '' @ name p) trigger,
      Persist (PhaseStatusUpdate (id p) Waiting),
      CancelTimer (check_timer (id p))]"

definition build_action_effects ::
  "pipeline \<Rightarrow> agent_def \<Rightarrow> action_config \<Rightarrow> string \<Rightarrow> (string, string) hmap \<Rightarrow>
   runtime_error + action_effects" where
  "build_action_effects p ag c trigger ins =
     (case action c of
        Nudge \<Rightarrow>
          (case session_id p of
             None \<Rightarrow> Inl (PipelineNotFound ''no session'')
           | Some sid \<Rightarrow>
               Inr (NudgeWith [Send sid
                 ((case message c of Some m \<Rightarrow> m | None \<Rightarrow> ''Please continue with the task.'') @ nl)]))
      | Done \<Rightarrow> Inr AdvancePipeline
      | Fail \<Rightarrow> Inr (FailPipeline trigger)
      | Restart \<Rightarrow> Inr (RestartAgent (session_id p) (workspace_path p) (ag_name ag) ins)
      | Recover \<Rightarrow> Inr (RecoverAgent (session_id p) (ag_name ag) (recover_inputs c ins))
      | Escalate \<Rightarrow> Inr (EscalateWith (escalate_effects p trigger)))"

section \<open>Preparing a workspace and spawning an agent\<close>

definition claude_md :: "string \<Rightarrow> string \<Rightarrow> string" where
  "claude_md pname prompt =
     ''# '' @ pname @ nl @ nl @ prompt @ nl @ nl @ ''## Completion'' @ nl @ nl @
     ''When done, run: `oj done`'' @ nl @
     ''On error, run: `oj done --error '' @ [CHR 0x22] @ ''description'' @ [CHR 0x22] @ ''`'' @ nl"

definition prepare_for_agent ::
  "'w host \<Rightarrow> path \<Rightarrow> path \<Rightarrow> string \<Rightarrow> string \<Rightarrow> ('w, io_error, unit) comp" where
  "prepare_for_agent h wpath project_root pname prompt =
     bind (h_create_dir_all h wpath) (\<lambda>_.
     bind (h_write_file h (path_join wpath ''CLAUDE.md'') (claude_md pname prompt)) (\<lambda>_.
     (let project_settings = path_join project_root ''.claude/settings.json'';
          claude_dir = path_join wpath ''.claude''
      in bind (gets (h_exists h project_settings)) (\<lambda>there.
         if there then
           bind (h_create_dir_all h claude_dir) (\<lambda>_.
           h_copy h project_settings (path_join claude_dir ''settings.local.json''))
         else ok ()))))"

definition session_monitor_interval :: duration where
  "session_monitor_interval = from_secs 10"

definition spawn_vars ::
  "pipeline \<Rightarrow> string \<Rightarrow> (string, string) hmap \<Rightarrow> path \<Rightarrow> (string, string) hmap" where
  "spawn_vars p pid ins wpath =
     hm_insert ''workspace'' wpath (hm_insert ''name'' (name p) (hm_insert ''pipeline_id'' pid ins))"

definition effective_cwd ::
  "(string \<Rightarrow> string option) \<Rightarrow> agent_def \<Rightarrow> (string, string) hmap \<Rightarrow> path \<Rightarrow> path option" where
  "effective_cwd env ag vars wpath =
     map_option (\<lambda>t. let d = interpolate env t vars
                     in if is_absolute d then d else path_join wpath d) (ag_cwd ag)"

definition build_spawn_effects ::
  "'w host \<Rightarrow> agent_def \<Rightarrow> pipeline \<Rightarrow> string \<Rightarrow> string \<Rightarrow> (string, string) hmap \<Rightarrow> path \<Rightarrow> path \<Rightarrow>
   ('w, runtime_error, effect list) comp" where
  "build_spawn_effects h ag p pid agent ins wpath project_root =
     (let vars = spawn_vars p pid ins wpath
      in bind (gets (\<lambda>w. get_prompt (\<lambda>k. h_env h k w) (\<lambda>f. h_read_file h f w) ag vars)) (\<lambda>pr.
         bind (map_err (\<lambda>e. PromptError agent (io_message e)) (from_result pr)) (\<lambda>prompt.
         bind (map_err (\<lambda>e. Execute (ShellErr (io_message e)))
                (prepare_for_agent h wpath project_root (name p) prompt)) (\<lambda>_.
         bind (gets (\<lambda>w k. h_env h k w)) (\<lambda>env.
         ok [Persist (SessionCreate pid pid),
             Spawn pid (build_command env ag vars)
               (build_env env ag vars @ [(''OJ_PROJECT_ROOT'', project_root)] @
                (case env ''OJ_SOCKET_DIR'' of Some d \<Rightarrow> [(''OJ_SOCKET_DIR'', d)] | None \<Rightarrow> []))
               (effective_cwd env ag vars wpath),
             SetTimer (check_timer pid) session_monitor_interval])))))"

section \<open>Lemmas\<close>

lemma build_spawn_effects_result:
  "build_spawn_effects h ag p pid agent ins wpath root w = (Inr effs, w') \<Longrightarrow>
   \<exists>cmd env cwd. effs = [Persist (SessionCreate pid pid), Spawn pid cmd env cwd,
     SetTimer (check_timer pid) session_monitor_interval]"
  by (auto simp: build_spawn_effects_def comp_defs Let_def split: sum.splits prod.splits)

end
