(* ===== verification/Phases.thy ===== *)
theory Phases
  imports Pipeline_State
begin

text \<open>
  \<open>crates/engine/src/phases.rs\<close>: the lists of effects that move a pipeline between phases. A JSON
  object of strings is \<open>json_strings\<close>.
\<close>

definition phase_start_effects :: "string \<Rightarrow> string \<Rightarrow> effect list" where
  "phase_start_effects pid ph =
     [Persist (PhaseStatusUpdate pid Running),
      Emit (Custom ''pipeline:phase:start''
        (json_strings [(''pipeline_id'', pid), (''phase'', ph)]))]"

definition phase_transition_effects :: "pipeline \<Rightarrow> string \<Rightarrow> effect list" where
  "phase_transition_effects p ph =
     [Persist (PipelineTransition (id p) ph),
      Emit (Custom ''pipeline:phase'' (json_strings [(''id'', id p), (''phase'', ph)]))]"

definition failure_transition_effects :: "pipeline \<Rightarrow> string \<Rightarrow> string \<Rightarrow> effect list" where
  "failure_transition_effects p fail_phase err =
     [Persist (PipelineTransition (id p) fail_phase),
      Emit (Custom ''pipeline:phase''
        (json_strings [(''id'', id p), (''phase'', fail_phase), (''error'', err)]))]"

definition failure_effects :: "pipeline \<Rightarrow> string \<Rightarrow> effect list" where
  "failure_effects p err =
     [Persist (PipelineTransition (id p) ''failed''),
      Emit (Custom ''pipeline:failed''
        (json_strings [(''pipeline_id'', id p), (''name'', name p), (''phase'', phase p),
           (''error'', err)]))]"

definition completion_effects :: "pipeline \<Rightarrow> effect list" where
  "completion_effects p =
     (if \<not> is_terminal p then [Persist (PipelineTransition (id p) ''done'')] else []) @
     [Persist (PhaseStatusUpdate (id p) Completed),
      Emit (Custom ''pipeline:completed''
        (json_strings [(''pipeline_id'', id p), (''name'', name p), (''kind'', kind p)]))] @
     (case session_id p of
        Some sid \<Rightarrow> [Kill sid, Persist (SessionDelete sid)]
      | None \<Rightarrow> [])"

lemmas phase_effects_defs = phase_start_effects_def phase_transition_effects_def
  failure_transition_effects_def failure_effects_def completion_effects_def

text \<open>The operations that a list of effects persists, in order.\<close>

fun persisted :: "effect list \<Rightarrow> operation list" where
  "persisted [] = []"
| "persisted (Persist op # es) = op # persisted es"
| "persisted (e # es) = persisted es"

lemma persisted_append [simp]: "persisted (es @ fs) = persisted es @ persisted fs"
  by (induction es rule: persisted.induct) auto

lemma persisted_set: "op \<in> set (persisted es) \<longleftrightarrow> Persist op \<in> set es"
  by (induction es rule: persisted.induct) auto

end
