(* ===== verification/Runtime.thy ===== *)
theory Runtime
  imports Monitor Phases
begin

text \<open>
  \<open>crates/engine/src/runtime.rs\<close> and \<open>events.rs\<close>: the handlers of events. The configuration of a
  runtime (the host, the runbook, the two root directories) does not change and is an argument; its
  state is the executor and the session log watchers, each the path it was created with. A handler
  returns the events to be fed back into the event loop.
\<close>

section \<open>The runtime\<close>

record 'w runtime_config =
  rc_host :: "'w host"
  rc_runbook :: runbook
  rc_project_root :: path
  rc_worktree_root :: path

record 'w runtime =
  rt_executor :: "'w executor"
  rt_watchers :: "(string, path) hmap"

type_synonym ('w, 'a) handler = "('w runtime, runtime_error, 'a) comp"

definition runtime_new :: "wal \<Rightarrow> materialized_state \<Rightarrow> 'w \<Rightarrow> 'w runtime" where
  "runtime_new l st w =
     \<lparr>rt_executor = \<lparr>ex_wal = l, ex_state = st, ex_scheduler = scheduler_new, ex_world = w\<rparr>,
      rt_watchers = []\<rparr>"

text \<open>Calls into the executor, and into the world directly.\<close>

definition on_executor :: "('w, 'a) exec \<Rightarrow> ('w, 'a) handler" where
  "on_executor m = map_err Execute (on_part rt_executor (\<lambda>x r. r\<lparr>rt_executor := x\<rparr>) m)"

definition on_runtime_world :: "('w, runtime_error, 'a) comp \<Rightarrow> ('w, 'a) handler" where
  "on_runtime_world m =
     on_part rt_executor (\<lambda>x r. r\<lparr>rt_executor := x\<rparr>) (on_part ex_world (\<lambda>w x. x\<lparr>ex_world := w\<rparr>) m)"

definition run_effects :: "'w runtime_config \<Rightarrow> effect list \<Rightarrow> ('w, event list) handler" where
  "run_effects cfg effs = on_executor (execute_all (rc_host cfg) effs)"

definition run_effect :: "'w runtime_config \<Rightarrow> effect \<Rightarrow> ('w, event option) handler" where
  "run_effect cfg eff = on_executor (execute (rc_host cfg) eff)"

abbreviation rt_state :: "'w runtime \<Rightarrow> materialized_state" where
  "rt_state r \<equiv> ex_state (rt_executor r)"

abbreviation rt_world :: "'w runtime \<Rightarrow> 'w" where
  "rt_world r \<equiv> ex_world (rt_executor r)"

definition rt_pipelines :: "'w runtime \<Rightarrow> (string, pipeline) hmap" where
  "rt_pipelines r = pipelines (rt_state r)"

definition rt_get_pipeline :: "'w runtime \<Rightarrow> string \<Rightarrow> pipeline option" where
  "rt_get_pipeline r i = get_pipeline (rt_state r) i"

text \<open>\<open>self.get_pipeline(id).ok_or_else(|| PipelineNotFound(id))?\<close>\<close>

definition lookup_pipeline :: "string \<Rightarrow> ('w, pipeline) handler" where
  "lookup_pipeline i =
     bind (gets (\<lambda>r. rt_get_pipeline r i)) (\<lambda>p. ok_or (PipelineNotFound i) p)"

text \<open>The same with the exact id, \<open>state.pipelines.get(id)\<close>.\<close>

definition exact_pipeline :: "string \<Rightarrow> ('w, pipeline) handler" where
  "exact_pipeline i =
     bind (gets (\<lambda>r. hm_get (pipelines (rt_state r)) i)) (\<lambda>p. ok_or (PipelineNotFound i) p)"

definition workspace_path_of :: "'w runtime_config \<Rightarrow> pipeline \<Rightarrow> path" where
  "workspace_path_of cfg p =
     (case workspace_path p of
        Some d \<Rightarrow> d
      | None \<Rightarrow> path_join (rc_worktree_root cfg) (name p))"

definition start_session_monitor :: "string \<Rightarrow> effect" where
  "start_session_monitor pid = SetTimer (check_timer pid) (from_secs 10)"

section \<open>Starting and finishing phases\<close>

definition spawn_agent ::
  "'w runtime_config \<Rightarrow> string \<Rightarrow> string \<Rightarrow> (string, string) hmap \<Rightarrow> ('w, event list) handler" where
  "spawn_agent cfg pid agent ins =
     bind (ok_or (AgentNotFound agent) (get_agent (rc_runbook cfg) agent)) (\<lambda>ag.
     bind (lookup_pipeline pid) (\<lambda>p.
     bind (on_runtime_world (build_spawn_effects (rc_host cfg) ag p pid agent ins
             (workspace_path_of cfg p) (rc_project_root cfg))) (\<lambda>effs.
     run_effects cfg (effs @ [start_session_monitor pid]))))"

definition shell_effect ::
  "'w runtime_config \<Rightarrow> pipeline \<Rightarrow> string \<Rightarrow> string \<Rightarrow> (string, string) hmap \<Rightarrow> path \<Rightarrow> string \<Rightarrow>
   'w \<Rightarrow> effect" where
  "shell_effect cfg p pid ph ins wpath cmd w =
     Shell pid ph
       (interpolate (\<lambda>k. h_env (rc_host cfg) k w) cmd (spawn_vars p pid ins wpath)) wpath []"

definition dispatch_run ::
  "'w runtime_config \<Rightarrow> pipeline \<Rightarrow> string \<Rightarrow> string \<Rightarrow> (string, string) hmap \<Rightarrow> path \<Rightarrow>
   run_directive \<Rightarrow> ('w, event list) handler" where
  "dispatch_run cfg p pid ph ins wpath run =
     (case run of
        RunShell cmd \<Rightarrow>
          bind (gets (\<lambda>r. shell_effect cfg p pid ph ins wpath cmd (rt_world r)))
            (\<lambda>eff. run_effects cfg [eff])
      | RunAgent a \<Rightarrow> spawn_agent cfg pid a ins
      | RunPipeline q \<Rightarrow>
          fail (InvalidRunDirective (''phase '' @ ph) (''nested pipeline ('' @ q @ '')''))
      | RunStrategy s \<Rightarrow>
          fail (InvalidRunDirective (''phase '' @ ph) (''strategy ('' @ s @ '')'')))"

definition start_phase ::
  "'w runtime_config \<Rightarrow> string \<Rightarrow> string \<Rightarrow> (string, string) hmap \<Rightarrow> path \<Rightarrow> ('w, event list) handler"
where
  "start_phase cfg pid ph ins wpath =
     bind (exact_pipeline pid) (\<lambda>p.
     bind (ok_or (PipelineDefNotFound (kind p)) (get_pipeline_def (rc_runbook cfg) (kind p))) (\<lambda>d.
     bind (ok_or (PipelineNotFound (''phase '' @ ph @ '' not found'')) (get_phase d ph)) (\<lambda>phd.
     bind (run_effects cfg (phase_start_effects pid ph)) (\<lambda>evs.
     bind (dispatch_run cfg p pid ph ins wpath (ph_run phd)) (\<lambda>evs2. ok (evs @ evs2))))))"

definition complete_pipeline :: "'w runtime_config \<Rightarrow> pipeline \<Rightarrow> ('w, event list) handler" where
  "complete_pipeline cfg p = run_effects cfg (completion_effects p)"

text \<open>The next phase: the explicit one, or the one that follows in the definition.\<close>

definition next_phase_name :: "runbook \<Rightarrow> pipeline \<Rightarrow> string option" where
  "next_phase_name rb p =
     (case get_pipeline_def rb (kind p) of
        None \<Rightarrow> None
      | Some d \<Rightarrow>
          (case get_phase d (phase p) of
             None \<Rightarrow> None
           | Some phd \<Rightarrow>
               (case ph_next phd of
                  Some n \<Rightarrow> Some n
                | None \<Rightarrow> map_option ph_name (next_phase d (phase p)))))"

definition has_phase_def :: "runbook \<Rightarrow> pipeline \<Rightarrow> string \<Rightarrow> bool" where
  "has_phase_def rb p n =
     (case get_pipeline_def rb (kind p) of None \<Rightarrow> False | Some d \<Rightarrow> get_phase d n \<noteq> None)"

definition advance_pipeline :: "'w runtime_config \<Rightarrow> pipeline \<Rightarrow> ('w, event list) handler" where
  "advance_pipeline cfg p =
     (if is_terminal p then complete_pipeline cfg p
      else (case next_phase_name (rc_runbook cfg) p of
              Some n \<Rightarrow>
                bind (run_effects cfg (phase_transition_effects p n)) (\<lambda>evs.
                if \<not> has_phase_def (rc_runbook cfg) p n \<and> (n = ''done'' \<or> n = ''failed'')
                then bind (complete_pipeline cfg p) (\<lambda>evs2. ok (evs @ evs2))
                else bind (start_phase cfg (id p) n (inputs p) (workspace_path_of cfg p))
                       (\<lambda>evs2. ok (evs @ evs2)))
            | None \<Rightarrow>
                bind (run_effects cfg (phase_transition_effects p ''done'')) (\<lambda>evs.
                bind (complete_pipeline cfg p) (\<lambda>evs2. ok (evs @ evs2)))))"

definition on_fail_phase :: "runbook \<Rightarrow> pipeline \<Rightarrow> string option" where
  "on_fail_phase rb p =
     (case get_pipeline_def rb (kind p) of
        None \<Rightarrow> None
      | Some d \<Rightarrow> (case get_phase d (phase p) of None \<Rightarrow> None | Some phd \<Rightarrow> ph_on_fail phd))"

definition fail_pipeline :: "'w runtime_config \<Rightarrow> pipeline \<Rightarrow> string \<Rightarrow> ('w, event list) handler" where
  "fail_pipeline cfg p err =
     (case on_fail_phase (rc_runbook cfg) p of
        Some n \<Rightarrow>
          bind (run_effects cfg (failure_transition_effects p n err)) (\<lambda>evs.
          bind (start_phase cfg (id p) n (inputs p) (workspace_path_of cfg p))
            (\<lambda>evs2. ok (evs @ evs2)))
      | None \<Rightarrow> run_effects cfg (failure_effects p err))"

section \<open>Commands\<close>

definition create_effects ::
  "string \<Rightarrow> string \<Rightarrow> string \<Rightarrow> (string, string) hmap \<Rightarrow> path \<Rightarrow> string \<Rightarrow> effect list" where
  "create_effects pid knd nm args wpath initial_phase =
     [Persist (WorkspaceCreate pid wpath (''feature/'' @ nm)),
      WorktreeAdd (''feature/'' @ nm) wpath,
      Persist (PipelineCreate pid knd nm args initial_phase),
      Emit (Custom ''pipeline:created''
        (json_strings [(''id'', pid), (''name'', nm), (''kind'', knd)]))]"

definition next_id :: "'w runtime_config \<Rightarrow> ('w, string) handler" where
  "next_id cfg r =
     (case h_next_id (rc_host cfg) (rt_world r) of
        (i, w) \<Rightarrow> (Inr i, r\<lparr>rt_executor := (rt_executor r)\<lparr>ex_world := w\<rparr>\<rparr>))"

text \<open>The arm of \<open>handle_command\<close> for a command that runs a pipeline.\<close>

definition create_pipeline ::
  "'w runtime_config \<Rightarrow> string \<Rightarrow> (string, string) hmap \<Rightarrow> ('w, event list) handler" where
  "create_pipeline cfg knd args =
     bind (ok_or (PipelineDefNotFound knd) (get_pipeline_def (rc_runbook cfg) knd)) (\<lambda>d.
     bind (next_id cfg) (\<lambda>pid.
     (let nm = (case hm_get args ''name'' of Some n \<Rightarrow> n | None \<Rightarrow> pid);
          wpath = path_join (rc_worktree_root cfg) nm;
          initial_phase = (case first_phase d of Some p \<Rightarrow> ph_name p | None \<Rightarrow> ''init'')
      in bind (run_effects cfg (create_effects pid knd nm args wpath initial_phase)) (\<lambda>evs.
         (case first_phase d of
            Some fp \<Rightarrow>
              bind (start_phase cfg pid (ph_name fp) args wpath) (\<lambda>evs2. ok (evs @ evs2))
          | None \<Rightarrow> ok evs)))))"

definition handle_command ::
  "'w runtime_config \<Rightarrow> string \<Rightarrow> (string, string) hmap \<Rightarrow> ('w, event list) handler" where
  "handle_command cfg command args =
     bind (ok_or (CommandNotFound command) (get_command (rc_runbook cfg) command)) (\<lambda>cd.
     (case cd_run cd of
        RunPipeline knd \<Rightarrow> create_pipeline cfg knd args
      | RunShell cmd \<Rightarrow> fail (InvalidRunDirective ''command'' (''shell ('' @ cmd @ '')''))
      | RunAgent a \<Rightarrow> fail (InvalidRunDirective ''command'' (''agent ('' @ a @ '')''))
      | RunStrategy s \<Rightarrow> fail (InvalidRunDirective ''command'' (''strategy ('' @ s @ '')''))))"

section \<open>Events of sessions, agents and shells\<close>

definition handle_session_exit ::
  "'w runtime_config \<Rightarrow> string \<Rightarrow> int \<Rightarrow> ('w, event list) handler" where
  "handle_session_exit cfg sid exit_code =
     bind (gets (\<lambda>r. hm_find (\<lambda>p. session_id p = Some sid) (pipelines (rt_state r)))) (\<lambda>found.
     (case found of
        None \<Rightarrow> ok []
      | Some p \<Rightarrow>
          (let (q, effs) = transition p (SessionExited sid exit_code)
           in bind (run_effects cfg effs) (\<lambda>evs.
              if status q = Completed
              then bind (advance_pipeline cfg q) (\<lambda>evs2. ok (evs @ evs2))
              else ok evs))))"

definition handle_agent_event ::
  "'w runtime_config \<Rightarrow> string \<Rightarrow> event \<Rightarrow> ('w, event list) handler" where
  "handle_agent_event cfg pid e =
     bind (lookup_pipeline pid) (\<lambda>p.
     (case e of
        AgentDone _ \<Rightarrow> advance_pipeline cfg p
      | AgentError _ err \<Rightarrow> fail_pipeline cfg p err
      | _ \<Rightarrow> ok []))"

definition handle_shell_completed ::
  "'w runtime_config \<Rightarrow> string \<Rightarrow> string \<Rightarrow> int \<Rightarrow> ('w, event list) handler" where
  "handle_shell_completed cfg pid ph exit_code =
     bind (exact_pipeline pid) (\<lambda>p.
     if phase p \<noteq> ph then ok []
     else if exit_code = 0 then advance_pipeline cfg p
     else fail_pipeline cfg p (''shell exited with code '' @ show_int exit_code))"

text \<open>\<open>events.rs\<close>\<close>

definition handle_custom_event ::
  "'w runtime_config \<Rightarrow> string \<Rightarrow> json \<Rightarrow> ('w, event list) handler" where
  "handle_custom_event cfg nm data =
     (if nm = ''session:send'' then
        bind (ok_or (PipelineNotFound ''missing session_id'') (json_str_field data ''session_id''))
          (\<lambda>sid.
        bind (ok_or (PipelineNotFound ''missing input'') (json_str_field data ''input'')) (\<lambda>input.
        bind (run_effect cfg (Send sid (input @ nl))) (\<lambda>_. ok [])))
      else if nm = ''pipeline:resume'' then
        bind (ok_or (PipelineNotFound ''missing pipeline_id'') (json_str_field data ''pipeline_id''))
          (\<lambda>pid.
        bind (lookup_pipeline pid) (\<lambda>p.
        bind (run_effect cfg (Persist (PhaseStatusUpdate (id p) Running))) (\<lambda>_.
        bind (run_effect cfg (SetTimer (check_timer (id p)) (from_secs 10))) (\<lambda>_. ok []))))
      else ok [])"

section \<open>The session monitor\<close>

definition kill_and_respawn ::
  "'w runtime_config \<Rightarrow> string option \<Rightarrow> path option option \<Rightarrow> string \<Rightarrow> string \<Rightarrow>
   (string, string) hmap \<Rightarrow> ('w, event list) handler" where
  "kill_and_respawn cfg kill_session wpath pid agent ins =
     bind (case kill_session of
             Some sid \<Rightarrow> bind (run_effect cfg (Kill sid)) (\<lambda>_. ok ()) | None \<Rightarrow> ok ()) (\<lambda>_.
     bind (case wpath of
             Some (Some d) \<Rightarrow> bind (run_effect cfg (WorktreeRemove d)) (\<lambda>_. ok ()) | _ \<Rightarrow> ok ()) (\<lambda>_.
     spawn_agent cfg pid agent ins))"

definition execute_action_effects ::
  "'w runtime_config \<Rightarrow> pipeline \<Rightarrow> action_effects \<Rightarrow> ('w, event list) handler" where
  "execute_action_effects cfg p a =
     (case a of
        NudgeWith effs \<Rightarrow> run_effects cfg (effs @ [start_session_monitor (id p)])
      | AdvancePipeline \<Rightarrow> advance_pipeline cfg p
      | FailPipeline err \<Rightarrow> fail_pipeline cfg p err
      | RestartAgent sid wpath agent ins \<Rightarrow>
          kill_and_respawn cfg sid (Some wpath) (id p) agent ins
      | RecoverAgent sid agent ins \<Rightarrow> kill_and_respawn cfg sid None (id p) agent ins
      | EscalateWith effs \<Rightarrow> run_effects cfg effs)"

definition act ::
  "'w runtime_config \<Rightarrow> pipeline \<Rightarrow> agent_def \<Rightarrow> action_config \<Rightarrow> string \<Rightarrow> ('w, event list) handler"
where
  "act cfg p ag c trigger =
     bind (from_result (build_action_effects p ag c trigger (inputs p)))
       (\<lambda>a. execute_action_effects cfg p a)"

definition session_log_path ::
  "'w runtime_config \<Rightarrow> path \<Rightarrow> string \<Rightarrow> 'w \<Rightarrow> path option" where
  "session_log_path cfg wpath sid w =
     (let h = rc_host cfg
      in find_session_log (\<lambda>k. h_env h k w) (h_home h w) (\<lambda>p. h_exists h p w) (\<lambda>p. h_read_dir h p w)
           (h_hash_path h) wpath sid)"

text \<open>\<open>watchers.entry(id).or_insert_with(..)\<close>: the watcher of an id keeps the path it was made with.\<close>

definition watch :: "'w runtime_config \<Rightarrow> string \<Rightarrow> path \<Rightarrow> ('w, session_state) handler" where
  "watch cfg pid log_path =
     bind (gets (\<lambda>r. case hm_get (rt_watchers r) pid of Some l \<Rightarrow> l | None \<Rightarrow> log_path)) (\<lambda>l.
     bind (modify (\<lambda>r. r\<lparr>rt_watchers :=
             (if hm_contains (rt_watchers r) pid then rt_watchers r
              else hm_insert pid log_path (rt_watchers r))\<rparr>)) (\<lambda>_.
     gets (\<lambda>r. check_state (h_from_json (rc_host cfg))
                  (h_read_log (rc_host cfg) l (rt_world r)))))"

definition handle_session_monitor :: "'w runtime_config \<Rightarrow> string \<Rightarrow> ('w, event list) handler" where
  "handle_session_monitor cfg pid =
     bind (lookup_pipeline pid) (\<lambda>p.
     if is_terminal p then ok []
     else bind (from_result (get_agent_def (rc_runbook cfg) p)) (\<lambda>ag.
          bind (ok_or (PipelineNotFound ''no workspace'') (workspace_path p)) (\<lambda>wpath.
          bind (gets (\<lambda>r. session_log_path cfg wpath
                  (case session_id p of Some s \<Rightarrow> s | None \<Rightarrow> []) (rt_world r))) (\<lambda>log.
          (case log of
             None \<Rightarrow> bind (run_effect cfg (start_session_monitor pid)) (\<lambda>_. ok [])
           | Some log_path \<Rightarrow>
               bind (watch cfg pid log_path) (\<lambda>st.
               (case st of
                  Working \<Rightarrow> bind (run_effect cfg (start_session_monitor pid)) (\<lambda>_. ok [])
                | Unknown \<Rightarrow> bind (run_effect cfg (start_session_monitor pid)) (\<lambda>_. ok [])
                | WaitingForInput \<Rightarrow> act cfg p ag (on_idle ag) ''idle''
                | SessionFailed reason \<Rightarrow>
                    act cfg p ag (action_for (on_error ag) (failure_to_error_type reason))
                      (failure_to_message reason))))))))"

definition handle_timer :: "'w runtime_config \<Rightarrow> string \<Rightarrow> ('w, event list) handler" where
  "handle_timer cfg i =
     (if starts_with i ''session:'' \<and> ends_with i '':check'' then
        handle_session_monitor cfg
          (case Option.bind (strip_prefix i ''session:'') (\<lambda>s. strip_suffix s '':check'') of
             Some pid \<Rightarrow> pid
           | None \<Rightarrow> i)
      else ok [])"

definition handle_claude_exited :: "'w runtime_config \<Rightarrow> string \<Rightarrow> ('w, event list) handler" where
  "handle_claude_exited cfg pid =
     bind (lookup_pipeline pid) (\<lambda>p.
     if is_terminal p then ok []
     else bind (from_result (get_agent_def (rc_runbook cfg) p)) (\<lambda>ag.
          act cfg p ag (on_exit ag) ''exit''))"

definition handle_tmux_exited :: "'w runtime_config \<Rightarrow> string \<Rightarrow> ('w, event list) handler" where
  "handle_tmux_exited cfg pid =
     bind (lookup_pipeline pid) (\<lambda>p. fail_pipeline cfg p ''tmux session exited'')"

section \<open>Handling an event\<close>

definition handle_event :: "'w runtime_config \<Rightarrow> event \<Rightarrow> ('w, event list) handler" where
  "handle_event cfg e =
     (case e of
        CommandInvoked command args \<Rightarrow> handle_command cfg command args
      | SessionExited sid code \<Rightarrow> handle_session_exit cfg sid code
      | AgentDone pid \<Rightarrow> handle_agent_event cfg pid e
      | AgentError pid _ \<Rightarrow> handle_agent_event cfg pid e
      | ShellCompleted pid ph code \<Rightarrow> handle_shell_completed cfg pid ph code
      | Timer i \<Rightarrow> handle_timer cfg i
      | Custom nm data \<Rightarrow> handle_custom_event cfg nm data
      | _ \<Rightarrow> ok [])"

end
