(* ===== verification/Runtime_Invariants.thy ===== *)
theory Runtime_Invariants
  imports Runtime
begin

text \<open>
  Invariants of the runtime. \<open>start_effect\<close> holds of the effects that start a phase, \<open>phase_effect\<close> of
  those that the handlers issue for an existing pipeline, \<open>runtime_effect\<close> adds those that create one.
  The locale \<open>start_invariant\<close> proves once that a predicate kept by the first is kept when a phase
  starts, whatever errors occur, \<open>phase_invariant\<close> extends it to every handler but \<open>handle_command\<close>,
  and \<open>command_invariant\<close> to \<open>handle_command\<close> and \<open>handle_event\<close>.
\<close>

fun start_effect :: "effect \<Rightarrow> bool" where
  "start_effect (Persist (PhaseStatusUpdate _ st)) = (st = Running)"
| "start_effect (Persist (SessionCreate _ _)) = True"
| "start_effect (Persist (SessionDelete _)) = True"
| "start_effect (Persist _) = False"
| "start_effect (WorktreeAdd _ _) = False"
| "start_effect _ = True"

fun phase_effect :: "effect \<Rightarrow> bool" where
  "phase_effect (Persist (PipelineTransition _ _)) = True"
| "phase_effect (Persist (PhaseStatusUpdate _ _)) = True"
| "phase_effect (Persist (SessionCreate _ _)) = True"
| "phase_effect (Persist (SessionDelete _)) = True"
| "phase_effect (Persist _) = False"
| "phase_effect (WorktreeAdd _ _) = False"
| "phase_effect _ = True"

fun create_effect :: "effect \<Rightarrow> bool" where
  "create_effect (Persist (WorkspaceCreate _ _ _)) = True"
| "create_effect (Persist (PipelineCreate _ _ _ _ _)) = True"
| "create_effect (WorktreeAdd _ _) = True"
| "create_effect _ = False"

lemma start_effect_phase: "start_effect e \<Longrightarrow> phase_effect e"
  by (cases e rule: start_effect.cases) auto

definition runtime_effect :: "effect \<Rightarrow> bool" where
  "runtime_effect e \<longleftrightarrow> phase_effect e \<or> create_effect e"

section \<open>The effects of the parts\<close>

lemma start_effects_admissible [simp]:
  "\<forall>e \<in> set (phase_start_effects pid ph). start_effect e"
  "start_effect (start_session_monitor pid)"
  "start_effect (shell_effect cfg p pid ph ins wpath cmd w)"
  by (auto simp: phase_effects_defs start_session_monitor_def shell_effect_def)

lemma phase_effects_admissible [simp]:
  "\<forall>e \<in> set (phase_transition_effects p n). phase_effect e"
  "\<forall>e \<in> set (failure_transition_effects p n err). phase_effect e"
  "\<forall>e \<in> set (failure_effects p err). phase_effect e"
  "\<forall>e \<in> set (completion_effects p). phase_effect e"
  "\<forall>e \<in> set (escalate_effects p t). phase_effect e"
  "phase_effect (start_session_monitor pid)"
  by (auto simp: phase_effects_defs escalate_effects_def start_session_monitor_def split: option.splits)

lemma spawn_effects_admissible:
  "build_spawn_effects h ag p pid agent ins wpath root w = (Inr effs, w') \<Longrightarrow>
   \<forall>e \<in> set (effs @ [start_session_monitor pid']). start_effect e"
  by (auto dest!: build_spawn_effects_result simp: start_session_monitor_def)

lemma transition_effects_admissible:
  "transition p e = (q, effs) \<Longrightarrow> \<forall>e \<in> set effs. phase_effect e"
  using pipeline_step_effects [OF transition_step] by fastforce

lemma action_effects_admissible:
  assumes "build_action_effects p ag c t ins = Inr a"
  shows "(\<forall>effs. a = NudgeWith effs \<longrightarrow> (\<forall>e \<in> set effs. phase_effect e)) \<and>
    (\<forall>effs. a = EscalateWith effs \<longrightarrow> (\<forall>e \<in> set effs. phase_effect e))"
  using assms by (auto simp: build_action_effects_def split: agent_action.splits option.splits)

section \<open>Invariants of the handlers\<close>

lemma preserves_bind_result:
  assumes "preserves P m" and "\<And>s a t. m s = (Inr a, t) \<Longrightarrow> preserves P (f a)"
  shows "preserves P (bind m f)"
  using assms by (fastforce simp: preserves_def bind_def split: prod.split sum.split)

lemma preserves_case_run [pres_intros]:
  assumes "\<And>c. r = RunShell c \<Longrightarrow> preserves P (a c)" and "\<And>c. r = RunPipeline c \<Longrightarrow> preserves P (b c)"
    and "\<And>c. r = RunAgent c \<Longrightarrow> preserves P (d c)" and "\<And>c. r = RunStrategy c \<Longrightarrow> preserves P (g c)"
  shows "preserves P (case r of RunShell c \<Rightarrow> a c | RunPipeline c \<Rightarrow> b c | RunAgent c \<Rightarrow> d c
    | RunStrategy c \<Rightarrow> g c)"
  using assms by (cases r) auto

lemma preserves_case_session [pres_intros]:
  assumes "preserves P a" and "preserves P b" and "\<And>r. preserves P (c r)" and "preserves P d"
  shows "preserves P (case s of Working \<Rightarrow> a | WaitingForInput \<Rightarrow> b | SessionFailed r \<Rightarrow> c r
    | Unknown \<Rightarrow> d)"
  using assms by (cases s) auto

locale start_invariant = executor_invariant "rc_host cfg" admissible I
  for cfg :: "'w runtime_config" and admissible and I +
  assumes start_admissible: "start_effect e \<Longrightarrow> admissible e"
begin

abbreviation RI :: "'w runtime \<Rightarrow> bool" where
  "RI r \<equiv> I (rt_executor r)"

lemma run_effects_I: "\<forall>e \<in> set effs. admissible e \<Longrightarrow> preserves RI (run_effects cfg effs)"
  unfolding run_effects_def on_executor_def
  by (intro preserves_map_err preserves_on_part keeps_execute_all) auto

lemma run_start_effects_I: "\<forall>e \<in> set effs. start_effect e \<Longrightarrow> preserves RI (run_effects cfg effs)"
  by (rule run_effects_I) (auto simp: start_admissible)

lemma run_start_effect_I: "start_effect e \<Longrightarrow> preserves RI (run_effect cfg e)"
  unfolding run_effect_def on_executor_def
  by (intro preserves_map_err preserves_on_part keeps_execute start_admissible) auto

lemma world_I: "preserves RI (on_runtime_world m)"
  by (auto simp: preserves_def on_runtime_world_def on_part_def keeps_world split: prod.split)

lemma lookup_I: "preserves RI (lookup_pipeline i)" "preserves RI (exact_pipeline i)"
  unfolding lookup_pipeline_def exact_pipeline_def by (intro pres_intros)+

lemma next_id_I: "preserves RI (next_id cfg)"
  by (auto simp: preserves_def next_id_def keeps_world split: prod.split)

lemma run_spawn_I:
  "preserves RI (bind (on_runtime_world (build_spawn_effects (rc_host cfg) ag p pid agent ins d root))
     (\<lambda>effs. run_effects cfg (effs @ [start_session_monitor pid])))"
proof (rule preserves_bind_result [OF world_I])
  fix s :: "'w runtime" and effs t
  assume "on_runtime_world (build_spawn_effects (rc_host cfg) ag p pid agent ins d root) s = (Inr effs, t)"
  then obtain w w' where "build_spawn_effects (rc_host cfg) ag p pid agent ins d root w = (Inr effs, w')"
    by (auto simp: on_runtime_world_def on_part_def split: prod.splits)
  then show "preserves RI (run_effects cfg (effs @ [start_session_monitor pid]))"
    by (intro run_start_effects_I spawn_effects_admissible)
qed

lemma spawn_agent_I: "preserves RI (spawn_agent cfg pid agent ins)"
  unfolding spawn_agent_def
  by (rule preserves_bind [OF preserves_ok_or], rule preserves_bind [OF lookup_I(1)], rule run_spawn_I)

lemma run_shell_I:
  "preserves RI (bind (gets (\<lambda>r. shell_effect cfg p pid ph ins wpath cmd (rt_world r)))
     (\<lambda>eff. run_effects cfg [eff]))"
proof (rule preserves_bind_result [OF preserves_gets])
  fix s :: "'w runtime" and eff t
  assume "gets (\<lambda>r. shell_effect cfg p pid ph ins wpath cmd (rt_world r)) s = (Inr eff, t)"
  then have "start_effect eff" by (auto simp: gets_def)
  then show "preserves RI (run_effects cfg [eff])" by (intro run_start_effects_I) simp
qed

lemma dispatch_I: "preserves RI (dispatch_run cfg p pid ph ins wpath run)"
  unfolding dispatch_run_def
  by (rule preserves_case_run) (rule run_shell_I preserves_fail spawn_agent_I)+

lemma start_phase_I: "preserves RI (start_phase cfg pid ph ins wpath)"
  unfolding start_phase_def
  by (intro pres_intros lookup_I run_start_effects_I start_effects_admissible dispatch_I)

lemma kill_and_respawn_I: "preserves RI (kill_and_respawn cfg sid wpath pid agent ins)"
  unfolding kill_and_respawn_def
  by (intro pres_intros run_start_effect_I spawn_agent_I) auto

lemma watch_I: "preserves RI (watch cfg pid log_path)"
  by (auto simp: preserves_def watch_def comp_defs)

end

locale phase_invariant = executor_invariant "rc_host cfg" admissible I
  for cfg :: "'w runtime_config" and admissible and I +
  assumes phase_admissible: "phase_effect e \<Longrightarrow> admissible e"

sublocale phase_invariant \<subseteq> start_invariant cfg admissible I
  by unfold_locales (rule phase_admissible, rule start_effect_phase)

context phase_invariant
begin

lemma run_phase_effects_I: "\<forall>e \<in> set effs. phase_effect e \<Longrightarrow> preserves RI (run_effects cfg effs)"
  by (rule run_effects_I) (auto simp: phase_admissible)

lemma run_effect_I: "phase_effect e \<Longrightarrow> preserves RI (run_effect cfg e)"
  unfolding run_effect_def on_executor_def
  by (intro preserves_map_err preserves_on_part keeps_execute phase_admissible) auto

lemma complete_I: "preserves RI (complete_pipeline cfg p)"
  unfolding complete_pipeline_def by (intro run_phase_effects_I phase_effects_admissible)

lemma advance_I: "preserves RI (advance_pipeline cfg p)"
  unfolding advance_pipeline_def
  by (intro pres_intros run_phase_effects_I phase_effects_admissible complete_I start_phase_I)

lemma fail_I: "preserves RI (fail_pipeline cfg p err)"
  unfolding fail_pipeline_def
  by (intro pres_intros run_phase_effects_I phase_effects_admissible start_phase_I)

lemma session_exit_I: "preserves RI (handle_session_exit cfg sid code)"
  unfolding handle_session_exit_def
proof (intro pres_intros)
  fix p
  obtain q effs where t: "transition p (SessionExited sid code) = (q, effs)" by fastforce
  have "preserves RI (run_effects cfg effs)"
    by (rule run_phase_effects_I [OF transition_effects_admissible [OF t]])
  then show "preserves RI (let (q, effs) = transition p (SessionExited sid code)
      in bind (run_effects cfg effs) (\<lambda>evs. if status q = Completed
         then bind (advance_pipeline cfg q) (\<lambda>evs2. ok (evs @ evs2)) else ok evs))"
    unfolding t Let_def prod.case by (intro pres_intros advance_I)
qed

lemma agent_event_I: "preserves RI (handle_agent_event cfg pid e)"
  unfolding handle_agent_event_def
  by (cases e) (simp_all, (intro pres_intros lookup_I advance_I fail_I)+)

lemma shell_completed_I: "preserves RI (handle_shell_completed cfg pid ph code)"
  unfolding handle_shell_completed_def by (intro pres_intros lookup_I advance_I fail_I)

lemma custom_event_I: "preserves RI (handle_custom_event cfg nm data)"
  unfolding handle_custom_event_def by (intro pres_intros lookup_I run_effect_I) auto

lemma act_I: "preserves RI (act cfg p ag c trigger)"
  unfolding act_def
proof (rule preserves_bind_result [OF preserves_from_result])
  fix s :: "'w runtime" and a t
  assume "from_result (build_action_effects p ag c trigger (inputs p)) s = (Inr a, t)"
  then have "build_action_effects p ag c trigger (inputs p) = Inr a" by (simp add: from_result_def)
  from action_effects_admissible [OF this] show "preserves RI (execute_action_effects cfg p a)"
    unfolding execute_action_effects_def
    by (cases a) (auto intro!: run_phase_effects_I advance_I fail_I kill_and_respawn_I)
qed

lemma session_monitor_I: "preserves RI (handle_session_monitor cfg pid)"
  unfolding handle_session_monitor_def
  by (intro pres_intros lookup_I run_effect_I phase_effects_admissible watch_I act_I)

lemma timer_I: "preserves RI (handle_timer cfg i)"
  unfolding handle_timer_def by (intro pres_intros session_monitor_I)

lemma claude_exited_I: "preserves RI (handle_claude_exited cfg pid)"
  unfolding handle_claude_exited_def by (intro pres_intros lookup_I act_I)

lemma tmux_exited_I: "preserves RI (handle_tmux_exited cfg pid)"
  unfolding handle_tmux_exited_def by (intro pres_intros lookup_I fail_I)

lemmas event_I = session_exit_I agent_event_I shell_completed_I timer_I custom_event_I

lemma handle_event_phase_I:
  "(\<And>c args. e \<noteq> CommandInvoked c args) \<Longrightarrow> preserves RI (handle_event cfg e)"
  unfolding handle_event_def by (cases e) (auto intro: event_I pres_intros)

end

section \<open>Reachable runtimes\<close>

text \<open>What the daemon does with its runtime: it hands it events and the exits it observed, while the
  world outside changes in its own way. Errors are logged, and the runtime goes on.\<close>

inductive reaches :: "'w runtime_config \<Rightarrow> 'w runtime \<Rightarrow> 'w runtime \<Rightarrow> bool" for cfg where
  start: "reaches cfg r r"
| event: "reaches cfg r s \<Longrightarrow> reaches cfg r (snd (handle_event cfg e s))"
| claude_exited: "reaches cfg r s \<Longrightarrow> reaches cfg r (snd (handle_claude_exited cfg pid s))"
| tmux_exited: "reaches cfg r s \<Longrightarrow> reaches cfg r (snd (handle_tmux_exited cfg pid s))"
| outside: "reaches cfg r s \<Longrightarrow>
    reaches cfg r (s\<lparr>rt_executor := (rt_executor s)\<lparr>ex_world := w\<rparr>\<rparr>)"

locale command_invariant = phase_invariant +
  assumes create_admissible: "create_effect e \<Longrightarrow> admissible e"
begin

lemma create_I: "preserves RI (run_effects cfg (create_effects pid knd nm args wpath ph))"
  by (rule run_effects_I) (auto simp: create_effects_def phase_admissible create_admissible)

lemma command_I: "preserves RI (handle_command cfg command args)"
  unfolding handle_command_def create_pipeline_def Let_def
  by (intro pres_intros next_id_I create_I start_phase_I)

lemma handle_event_I: "preserves RI (handle_event cfg e)"
proof (cases "\<exists>c args. e = CommandInvoked c args")
  case True
  then show ?thesis by (auto simp: handle_event_def intro: command_I)
qed (use handle_event_phase_I in blast)

lemma reaches_I: "reaches cfg r s \<Longrightarrow> RI r \<Longrightarrow> RI s"
proof (induction rule: reaches.induct)
  case (event r s e)
  then show ?case using handle_event_I by (auto simp: preserves_def)
next
  case (claude_exited r s pid)
  then show ?case using claude_exited_I by (auto simp: preserves_def)
next
  case (tmux_exited r s pid)
  then show ?case using tmux_exited_I by (auto simp: preserves_def)
next
  case (outside r s w)
  then show ?case using keeps_world by simp
qed

end

section \<open>The invariants of this runtime\<close>

interpretation wf_rt: command_invariant cfg "\<lambda>_. True" "\<lambda>x. state_wf (ex_state x)"
  for cfg :: "'w runtime_config"
  by unfold_locales auto

interpretation unlinked_rt: command_invariant cfg "\<lambda>_. True" "\<lambda>x. unlinked (ex_state x)"
  for cfg :: "'w runtime_config"
  by unfold_locales auto

interpretation log_rt: command_invariant cfg "\<lambda>_. True"
    "\<lambda>x. reliable_log de (rc_host cfg) \<longrightarrow> log_tells_state de x"
  for cfg :: "'w runtime_config" and de
  by unfold_locales auto

interpretation timers_rt: command_invariant cfg "\<lambda>_. True" "\<lambda>x. scheduler_wf (ex_scheduler x)"
  for cfg :: "'w runtime_config"
  by unfold_locales auto

text \<open>Records that exist stay: the runtime deletes neither pipelines nor workspaces.\<close>

definition has_records :: "string set \<Rightarrow> string set \<Rightarrow> materialized_state \<Rightarrow> bool" where
  "has_records ps ws st \<longleftrightarrow>
     (\<forall>i \<in> ps. hm_get (pipelines st) i \<noteq> None) \<and> (\<forall>i \<in> ws. hm_get (workspaces st) i \<noteq> None)"

lemma has_records_apply:
  "runtime_effect (Persist op) \<Longrightarrow> has_records ps ws st \<Longrightarrow> has_records ps ws (apply_op now op st)"
  by (cases op) (auto simp: has_records_def runtime_effect_def split: if_splits)

interpretation records_rt: command_invariant cfg runtime_effect "\<lambda>x. has_records ps ws (ex_state x)"
  for cfg :: "'w runtime_config" and ps ws
proof (intro command_invariant.intro phase_invariant.intro)
  show "executor_invariant (rc_host cfg) runtime_effect (\<lambda>x. has_records ps ws (ex_state x))"
    by (rule state_invariant) (rule has_records_apply)
qed (unfold_locales, auto simp: runtime_effect_def)

text \<open>No pipeline has a workspace recorded. The effects on existing pipelines keep it so.\<close>

definition no_workspace :: "materialized_state \<Rightarrow> bool" where
  "no_workspace st \<longleftrightarrow> (\<forall>i p. hm_get (pipelines st) i = Some p \<longrightarrow> workspace_path p = None)"

lemma no_workspace_apply:
  "phase_effect (Persist op) \<Longrightarrow> no_workspace st \<Longrightarrow> no_workspace (apply_op now op st)"
  by (cases op) (auto simp: no_workspace_def split: if_splits)

interpretation bare_rt: phase_invariant cfg phase_effect "\<lambda>x. no_workspace (ex_state x)"
  for cfg :: "'w runtime_config"
proof (intro phase_invariant.intro)
  show "executor_invariant (rc_host cfg) phase_effect (\<lambda>x. no_workspace (ex_state x))"
    by (rule state_invariant) (rule no_workspace_apply)
qed (unfold_locales, auto)

end
