(* ===== verification/Runtime_Behaviour.thy ===== *)
theory Runtime_Behaviour
  imports Runtime_Invariants
begin

text \<open>
  What the handlers do to the state. \<open>applies ops r s\<close> abstracts a run of a handler to the operations
  it persisted: the state of \<open>s\<close> is that of \<open>r\<close> after \<open>ops\<close>. Each part of the runtime is specified
  by its operations when it succeeds, and the effect on a pipeline is read off them.
\<close>

section \<open>Operations applied by lists of effects\<close>

definition applies :: "operation list \<Rightarrow> 'w runtime \<Rightarrow> 'w runtime \<Rightarrow> bool" where
  "applies ops r s \<longleftrightarrow> (\<exists>tops. map snd tops = ops \<and> rt_state s = apply_all tops (rt_state r))"

lemma apply_all_append: "apply_all (as @ bs) st = apply_all bs (apply_all as st)"
  by (simp add: apply_all_def)

lemma apply_all_Nil [simp]: "apply_all [] st = st"
  by (simp add: apply_all_def)

lemma apply_all_Cons [simp]: "apply_all ((t, op) # tops) st = apply_all tops (apply_op t op st)"
  by (simp add: apply_all_def)

lemma applies_Nil: "rt_state s = rt_state r \<Longrightarrow> applies [] r s"
  by (auto simp: applies_def)

lemma applies_append: "applies as r s \<Longrightarrow> applies bs s t \<Longrightarrow> applies (as @ bs) r t"
  unfolding applies_def by (metis apply_all_append map_append)

lemma execute_all_applies:
  "execute_all h effs x = (res, y) \<Longrightarrow>
   \<exists>tops. prefix (map snd tops) (persisted effs) \<and> ex_state y = apply_all tops (ex_state x) \<and>
     ((\<exists>evs. res = Inr evs) \<longrightarrow> map snd tops = persisted effs)"
proof (induction effs arbitrary: x res)
  case Nil
  then show ?case by (auto simp: ok_def intro!: exI [of _ "[]"])
next
  case (Cons eff effs)
  obtain r1 x1 where 1: "execute h eff x = (r1, x1)" by fastforce
  show ?case
  proof (cases r1)
    case (Inl e)
    with 1 Cons.prems have r: "res = Inl e" "y = x1" by (auto simp: bind_def)
    have "ex_state x1 = ex_state x"
      using 1 Inl execute_frame(1) [OF 1] execute_persist [of h _ x r1 x1]
      by (cases "\<exists>op. eff = Persist op") auto
    with r show ?thesis by (auto intro!: exI [of _ "[]"])
  next
    case (Inr ev)
    obtain r2 where 2: "execute_all h effs x1 = (r2, y)" and
      r: "res = (case r2 of Inl e \<Rightarrow> Inl e | Inr es \<Rightarrow> Inr (case ev of Some e \<Rightarrow> e # es | None \<Rightarrow> es))"
      using Cons.prems 1 Inr by (auto simp: comp_defs split: prod.splits sum.splits)
    from Cons.IH [OF 2] obtain tops where t: "prefix (map snd tops) (persisted effs)"
      "ex_state y = apply_all tops (ex_state x1)"
      "(\<exists>evs. r2 = Inr evs) \<longrightarrow> map snd tops = persisted effs" by blast
    have r2: "(\<exists>evs. res = Inr evs) \<Longrightarrow> \<exists>evs. r2 = Inr evs" using r by (auto split: sum.splits)
    show ?thesis
    proof (cases "\<exists>op. eff = Persist op")
      case True
      then obtain op where op: "eff = Persist op" by blast
      with execute_persist [of h op x r1 x1] 1 Inr obtain now where
        "ex_state x1 = apply_op now op (ex_state x)" by auto
      with t op r2 show ?thesis by (intro exI [of _ "(now, op) # tops"]) auto
    next
      case False
      then have "persisted (eff # effs) = persisted effs" by (cases eff) auto
      with execute_frame(1) [OF 1] False t r2 show ?thesis by (intro exI [of _ tops]) auto
    qed
  qed
qed

lemma run_effects_applies:
  assumes "run_effects cfg effs r = (Inr evs, s)"
  shows "applies (persisted effs) r s"
proof -
  obtain res y where e: "execute_all (rc_host cfg) effs (rt_executor r) = (res, y)" by fastforce
  with assms have "res = Inr evs" "s = r\<lparr>rt_executor := y\<rparr>"
    by (auto simp: run_effects_def on_executor_def map_err_def on_part_def split: sum.splits)
  with execute_all_applies [OF e] show ?thesis by (auto simp: applies_def)
qed

text \<open>Only shell commands produce events.\<close>

definition is_shell_effect :: "effect \<Rightarrow> bool" where
  "is_shell_effect e = (case e of Shell _ _ _ _ _ \<Rightarrow> True | _ \<Rightarrow> False)"

lemma execute_event: "execute h eff x = (Inr (Some e), y) \<Longrightarrow> is_shell_effect eff"
  by (cases eff) (auto simp: is_shell_effect_def execute_def exec_defs comp_defs
      split: prod.splits sum.splits option.splits)

lemma execute_all_events:
  "execute_all h effs x = (Inr evs, y) \<Longrightarrow> evs \<noteq> [] \<Longrightarrow> \<exists>eff \<in> set effs. is_shell_effect eff"
proof (induction effs arbitrary: x evs)
  case (Cons eff effs)
  from Cons.prems(1) obtain r1 x1 es where 1: "execute h eff x = (Inr r1, x1)"
    and 2: "execute_all h effs x1 = (Inr es, y)"
    and evs: "evs = (case r1 of Some e \<Rightarrow> e # es | None \<Rightarrow> es)"
    by (auto simp: comp_defs split: prod.splits sum.splits)
  show ?case
  proof (cases "es = []")
    case True
    with evs Cons.prems(2) obtain e where "r1 = Some e" by (auto split: option.splits)
    with execute_event 1 show ?thesis by fastforce
  next
    case False
    from Cons.IH [OF 2 False] show ?thesis by auto
  qed
qed (simp add: ok_def)

lemma run_effects_no_events:
  assumes "run_effects cfg effs r = (Inr evs, s)" and "\<forall>e \<in> set effs. \<not> is_shell_effect e"
  shows "evs = []"
proof -
  from assms(1) obtain y where "execute_all (rc_host cfg) effs (rt_executor r) = (Inr evs, y)"
    by (auto simp: run_effects_def on_executor_def map_err_def on_part_def split: sum.splits prod.splits)
  with execute_all_events assms(2) show ?thesis by blast
qed

lemma no_shell_effects [simp]:
  "\<forall>e \<in> set (phase_start_effects pid ph). \<not> is_shell_effect e"
  "\<forall>e \<in> set (phase_transition_effects p n). \<not> is_shell_effect e"
  "\<forall>e \<in> set (failure_transition_effects p n err). \<not> is_shell_effect e"
  "\<forall>e \<in> set (failure_effects p err). \<not> is_shell_effect e"
  "\<forall>e \<in> set (completion_effects p). \<not> is_shell_effect e"
  "\<forall>e \<in> set (create_effects pid knd nm args d ph). \<not> is_shell_effect e"
  by (auto simp: phase_effects_defs create_effects_def is_shell_effect_def split: option.splits)

lemma persisted_lists [simp]:
  "persisted (phase_start_effects pid ph) = [PhaseStatusUpdate pid Running]"
  "persisted (phase_transition_effects p n) = [PipelineTransition (id p) n]"
  "persisted (failure_transition_effects p n err) = [PipelineTransition (id p) n]"
  "persisted (failure_effects p err) = [PipelineTransition (id p) ''failed'']"
  "persisted (completion_effects p) =
     (if is_terminal p then [] else [PipelineTransition (id p) ''done'']) @
     [PhaseStatusUpdate (id p) Completed] @
     (case session_id p of None \<Rightarrow> [] | Some sid \<Rightarrow> [SessionDelete sid])"
  "persisted (create_effects pid knd nm args d ph) =
     [WorkspaceCreate pid d (''feature/'' @ nm), PipelineCreate pid knd nm args ph]"
  by (auto simp: phase_effects_defs create_effects_def split: option.splits)

section \<open>Phases\<close>

text \<open>\<open>bind\<close> that succeeded, taken apart.\<close>

lemma bind_Inr:
  "bind m f s = (Inr b, t) \<longleftrightarrow> (\<exists>a u. m s = (Inr a, u) \<and> f a u = (Inr b, t))"
  by (auto simp: bind_def split: prod.splits sum.splits)

lemma bind_InrE:
  assumes "bind m f s = (Inr b, t)"
  obtains a u where "m s = (Inr a, u)" and "f a u = (Inr b, t)"
  using assms by (auto simp: bind_Inr)

lemma ok_or_Inr [simp]: "ok_or e x s = (Inr a, t) \<longleftrightarrow> x = Some a \<and> t = s"
  by (auto simp: ok_or_def ok_def fail_def split: option.splits)

lemma ok_Inr [simp]: "ok a s = (Inr b, t) \<longleftrightarrow> b = a \<and> t = s"
  by (auto simp: ok_def)

lemma gets_Inr [simp]: "gets f s = (Inr a, t) \<longleftrightarrow> a = f s \<and> t = s"
  by (auto simp: gets_def)

lemma fail_Inr [simp]: "fail e s \<noteq> (Inr a, t)"
  by (simp add: fail_def)

lemma spawn_agent_applies:
  assumes "spawn_agent cfg pid a ins r = (Inr evs, s)"
  shows "applies [SessionCreate pid pid] r s \<and> evs = []"
proof -
  from assms obtain ag p effs u where
    u: "on_runtime_world (build_spawn_effects (rc_host cfg) ag p pid a ins (workspace_path_of cfg p)
        (rc_project_root cfg)) r = (Inr effs, u)"
    and run: "run_effects cfg (effs @ [start_session_monitor pid]) u = (Inr evs, s)"
    by (auto simp: spawn_agent_def bind_Inr lookup_pipeline_def)
  from u obtain w w' where "build_spawn_effects (rc_host cfg) ag p pid a ins (workspace_path_of cfg p)
        (rc_project_root cfg) w = (Inr effs, w')" and st: "rt_state u = rt_state r"
    by (auto simp: on_runtime_world_def on_part_def split: prod.splits)
  from build_spawn_effects_result [OF this(1)] obtain cmd env cwd where
    effs: "effs = [Persist (SessionCreate pid pid), Spawn pid cmd env cwd,
      SetTimer (check_timer pid) session_monitor_interval]" by blast
  from run_effects_applies [OF run] have "applies [SessionCreate pid pid] u s"
    by (simp add: effs start_session_monitor_def)
  moreover have "evs = []"
    by (rule run_effects_no_events [OF run]) (simp add: effs start_session_monitor_def is_shell_effect_def)
  ultimately show ?thesis using applies_append [OF applies_Nil [OF st]] by simp
qed

text \<open>A phase that starts: its status is persisted, then its command has run or its agent is spawned.\<close>

lemma start_phase_applies:
  assumes "start_phase cfg pid ph ins d r = (Inr evs, s)"
  shows "\<exists>p df phd. hm_get (pipelines (rt_state r)) pid = Some p \<and>
    get_pipeline_def (rc_runbook cfg) (kind p) = Some df \<and> get_phase df ph = Some phd \<and>
    ((\<exists>cmd code. ph_run phd = RunShell cmd \<and> evs = [ShellCompleted pid ph code] \<and>
        applies [PhaseStatusUpdate pid Running] r s) \<or>
     (\<exists>a. ph_run phd = RunAgent a \<and> evs = [] \<and>
        applies [PhaseStatusUpdate pid Running, SessionCreate pid pid] r s))"
proof -
  from assms obtain p df phd evs1 evs2 u where
    p: "hm_get (pipelines (rt_state r)) pid = Some p"
      "get_pipeline_def (rc_runbook cfg) (kind p) = Some df" "get_phase df ph = Some phd"
    and 1: "run_effects cfg (phase_start_effects pid ph) r = (Inr evs1, u)"
    and 2: "dispatch_run cfg p pid ph ins d (ph_run phd) u = (Inr evs2, s)" and evs: "evs = evs1 @ evs2"
    by (auto simp: start_phase_def exact_pipeline_def bind_Inr)
  have e1: "evs1 = []" by (rule run_effects_no_events [OF 1]) simp
  have a1: "applies [PhaseStatusUpdate pid Running] r u" using run_effects_applies [OF 1] by simp
  show ?thesis
  proof (cases "ph_run phd")
    case (RunShell cmd)
    with 2 obtain w where run: "run_effects cfg [shell_effect cfg p pid ph ins d cmd w] u = (Inr evs2, s)"
      by (auto simp: dispatch_run_def bind_Inr)
    then have "applies [] u s" using run_effects_applies [OF run] by (simp add: shell_effect_def)
    moreover have "\<exists>code. evs2 = [ShellCompleted pid ph code]"
      using run by (auto simp: shell_effect_def run_effects_def on_executor_def execute_def exec_defs
          comp_defs split: prod.splits sum.splits)
    ultimately show ?thesis using RunShell p evs e1 applies_append [OF a1] by auto
  next
    case (RunAgent a)
    with 2 have "spawn_agent cfg pid a ins u = (Inr evs2, s)" by (auto simp: dispatch_run_def)
    from spawn_agent_applies [OF this] RunAgent p evs e1 applies_append [OF a1] show ?thesis by auto
  qed (use 2 in \<open>auto simp: dispatch_run_def\<close>)
qed

lemma applies_transition_pipeline:
  assumes "applies [PipelineTransition i n, PhaseStatusUpdate i st] r s"
    and "hm_get (pipelines (rt_state r)) i = Some p"
  shows "hm_get (pipelines (rt_state s)) i = Some (p\<lparr>phase := n, status := st\<rparr>)"
    and "j \<noteq> i \<Longrightarrow> hm_get (pipelines (rt_state s)) j = hm_get (pipelines (rt_state r)) j"
  using assms by (auto simp: applies_def)


text \<open>Moving to a phase: the transition is persisted, then the phase starts.\<close>

lemma move_to_phase:
  assumes p: "hm_get (pipelines (rt_state r)) (id p) = Some p"
    and t: "run_effects cfg effs r = (Inr evs1, u)" "persisted effs = [PipelineTransition (id p) n]"
      "\<forall>e \<in> set effs. \<not> is_shell_effect e"
    and st: "start_phase cfg (id p) n ins d u = (Inr evs2, s)"
  shows "hm_get (pipelines (rt_state s)) (id p) = Some (p\<lparr>phase := n, status := Running\<rparr>)"
    and "\<forall>j. j \<noteq> id p \<longrightarrow> hm_get (pipelines (rt_state s)) j = hm_get (pipelines (rt_state r)) j"
    and "evs1 = []" and "evs2 = [] \<or> (\<exists>code. evs2 = [ShellCompleted (id p) n code])"
proof -
  have a: "applies [PipelineTransition (id p) n] r u" using run_effects_applies [OF t(1)] t(2) by simp
  from start_phase_applies [OF st] obtain ops where
    ops: "ops = [PhaseStatusUpdate (id p) Running] \<or>
        ops = [PhaseStatusUpdate (id p) Running, SessionCreate (id p) (id p)]" "applies ops u s"
    by blast
  from applies_append [OF a ops(2)] ops(1) p
  show "hm_get (pipelines (rt_state s)) (id p) = Some (p\<lparr>phase := n, status := Running\<rparr>)"
    and "\<forall>j. j \<noteq> id p \<longrightarrow> hm_get (pipelines (rt_state s)) j = hm_get (pipelines (rt_state r)) j"
    by (auto simp: applies_def)
  show "evs1 = []" by (rule run_effects_no_events [OF t(1,3)])
  show "evs2 = [] \<or> (\<exists>code. evs2 = [ShellCompleted (id p) n code])"
    using start_phase_applies [OF st] by blast
qed

lemma complete_applies:
  assumes "complete_pipeline cfg p r = (Inr evs, s)"
  shows "applies (persisted (completion_effects p)) r s" and "evs = []"
  using run_effects_applies run_effects_no_events [OF _ no_shell_effects(5)] assms
  unfolding complete_pipeline_def by blast+

section \<open>Properties\<close>

text \<open>\<open>advance_pipeline\<close> on a running pipeline with a next phase that the runbook defines moves
  this pipeline to that phase and marks it running, leaves every other pipeline as it is, and
  produces at most one event, the completion of the shell command of the new phase.\<close>

lemma advance_to_next_phase:
  assumes "hm_get (pipelines (rt_state r)) (id p) = Some p" and "\<not> is_terminal p"
    and "next_phase_name (rc_runbook cfg) p = Some n" and "has_phase_def (rc_runbook cfg) p n"
    and "advance_pipeline cfg p r = (Inr evs, s)"
  shows "hm_get (pipelines (rt_state s)) (id p) = Some (p\<lparr>phase := n, status := Running\<rparr>) \<and>
    (\<forall>j. j \<noteq> id p \<longrightarrow> hm_get (pipelines (rt_state s)) j = hm_get (pipelines (rt_state r)) j) \<and>
    (evs = [] \<or> (\<exists>code. evs = [ShellCompleted (id p) n code]))"
proof -
  from assms obtain evs1 evs2 u where
    1: "run_effects cfg (phase_transition_effects p n) r = (Inr evs1, u)" and
    2: "start_phase cfg (id p) n (inputs p) (workspace_path_of cfg p) u = (Inr evs2, s)" and
    evs: "evs = evs1 @ evs2"
    by (auto simp: advance_pipeline_def bind_Inr)
  from move_to_phase [OF assms(1) 1 persisted_lists(2) no_shell_effects(2) 2] evs show ?thesis by simp
qed

definition demo_runbook :: runbook where
  "demo_runbook =
     \<lparr>rb_commands = [(''build'', \<lparr>cd_name = ''build'',
        cd_args = \<lparr>positional = [], flags = [], options = [], variadic = None\<rparr>,
        cd_defaults = [], cd_run = RunPipeline ''build''\<rparr>)],
      rb_workers = [],
      rb_pipelines = [(''build'', \<lparr>pl_name = ''build'', pl_inputs = [], pl_defaults = [],
        pl_phases = [
          \<lparr>ph_name = ''init'', ph_run = RunShell ''make'', ph_next = None, ph_on_fail = Some ''fix''\<rparr>,
          \<lparr>ph_name = ''test'', ph_run = RunShell ''make test'', ph_next = Some ''failed'',
           ph_on_fail = None\<rparr>,
          \<lparr>ph_name = ''plan'', ph_run = RunShell ''make plan'', ph_next = None, ph_on_fail = None\<rparr>,
          \<lparr>ph_name = ''fix'', ph_run = RunStrategy ''retry'', ph_next = None, ph_on_fail = None\<rparr>,
          \<lparr>ph_name = ''code'', ph_run = RunAgent ''coder'', ph_next = None, ph_on_fail = None\<rparr>]\<rparr>)],
      rb_agents = [(''coder'', agent_def_default)]\<rparr>"

definition demo_config :: "(nat \<times> nat) runtime_config" where
  "demo_config =
     \<lparr>rc_host = plain_host, rc_runbook = demo_runbook, rc_project_root = ''/p'',
      rc_worktree_root = ''/w''\<rparr>"

definition demo_at :: "string \<Rightarrow> pipeline" where
  "demo_at ph = pipeline_new ''p0'' ''x'' ''build'' [] ph 0"

definition demo_runtime :: "string \<Rightarrow> (nat \<times> nat) runtime" where
  "demo_runtime ph =
     runtime_new \<lparr>wal_file = [], wal_sequence = 0\<rparr>
       (state_default\<lparr>pipelines := [(''p0'', demo_at ph)]\<rparr>) (0, 1)"

lemma advance_to_next_phase_witness:
  "map_option phase (hm_get (pipelines (rt_state (snd (advance_pipeline demo_config (demo_at ''init'')
     (demo_runtime ''init''))))) ''p0'') = Some ''test'' \<and>
   fst (advance_pipeline demo_config (demo_at ''init'') (demo_runtime ''init'')) =
     Inr [ShellCompleted ''p0'' ''test'' 0]"
proof -
  let ?run = "advance_pipeline demo_config (demo_at ''init'') (demo_runtime ''init'')"
  have f: "fst ?run = Inr [ShellCompleted ''p0'' ''test'' 0]" by code_simp
  then obtain s where a: "?run = (Inr [ShellCompleted ''p0'' ''test'' 0], s)"
    by (cases ?run) simp
  have 1: "hm_get (pipelines (rt_state (demo_runtime ''init''))) (id (demo_at ''init'')) =
      Some (demo_at ''init'')"
    and 2: "\<not> is_terminal (demo_at ''init'')"
    and 3: "next_phase_name (rc_runbook demo_config) (demo_at ''init'') = Some ''test''"
    and 4: "has_phase_def (rc_runbook demo_config) (demo_at ''init'') ''test''"
    and 5: "id (demo_at ''init'') = ''p0''"
    by (code_simp)+
  from advance_to_next_phase [OF 1 2 3 4 a] f a 5 show ?thesis by simp
qed

end
