(* ===== verification/Runtime_Properties.thy ===== *)
theory Runtime_Properties
  imports Runtime_Behaviour
begin

text \<open>
  Properties of the handlers of \<open>runtime.rs\<close>, each over the facts of \<open>Runtime_Behaviour\<close> and the
  interpretations of \<open>Runtime_Invariants\<close>: how a pipeline ends, what is persisted when a phase cannot
  start, which events are ignored, what the log and the records keep over any run of the daemon.
\<close>

section \<open>Ends of a pipeline\<close>

text \<open>\<open>advance_pipeline\<close> on a running pipeline with no next phase, or whose next phase is
  \<open>done\<close> or \<open>failed\<close> and is not defined in the runbook, ends the pipeline as completed in phase
  \<open>done\<close>, also when the runbook names \<open>failed\<close> as the next phase, and produces no event.\<close>

lemma advance_completes:
  assumes "hm_get (pipelines (rt_state r)) (id p) = Some p" and "\<not> is_terminal p"
    and "next_phase_name (rc_runbook cfg) p = None \<or>
      (\<exists>n \<in> {''done'', ''failed''}. next_phase_name (rc_runbook cfg) p = Some n \<and>
         \<not> has_phase_def (rc_runbook cfg) p n)"
    and "advance_pipeline cfg p r = (Inr evs, s)"
  shows "hm_get (pipelines (rt_state s)) (id p) = Some (p\<lparr>phase := ''done'', status := Completed\<rparr>) \<and>
    evs = []"
proof -
  from assms(2-4) obtain n u evs1 evs2 where
    1: "run_effects cfg (phase_transition_effects p n) r = (Inr evs1, u)" and
    2: "complete_pipeline cfg p u = (Inr evs2, s)" and evs: "evs = evs1 @ evs2"
    by (auto simp: advance_pipeline_def bind_Inr)
  have "applies ([PipelineTransition (id p) n] @ persisted (completion_effects p)) r s"
    using applies_append [OF run_effects_applies [OF 1] complete_applies(1) [OF 2]]
    unfolding persisted_lists(2) .
  then have "hm_get (pipelines (rt_state s)) (id p) = Some (p\<lparr>phase := ''done'', status := Completed\<rparr>)"
    using assms(1,2) by (auto simp: applies_def split: option.splits)
  moreover have "evs1 = []" by (rule run_effects_no_events [OF 1 no_shell_effects(2)])
  ultimately show ?thesis using complete_applies(2) [OF 2] evs by simp
qed

lemma advance_completes_witness:
  "map_option (\<lambda>p. (phase p, status p)) (hm_get (pipelines (rt_state (snd
     (advance_pipeline demo_config (demo_at ''test'') (demo_runtime ''test''))))) ''p0'') =
     Some (''done'', Completed) \<and>
   next_phase_name demo_runbook (demo_at ''test'') = Some ''failed''"
proof -
  let ?run = "advance_pipeline demo_config (demo_at ''test'') (demo_runtime ''test'')"
  have "fst ?run = Inr []" by code_simp
  then obtain s where a: "?run = (Inr [], s)" by (cases ?run) simp
  have 1: "hm_get (pipelines (rt_state (demo_runtime ''test''))) (id (demo_at ''test'')) =
      Some (demo_at ''test'')"
    and 2: "\<not> is_terminal (demo_at ''test'')"
    and 3: "next_phase_name (rc_runbook demo_config) (demo_at ''test'') = Some ''failed''"
    and 4: "\<not> has_phase_def (rc_runbook demo_config) (demo_at ''test'') ''failed''"
    and 5: "id (demo_at ''test'') = ''p0''" and 6: "rc_runbook demo_config = demo_runbook"
    by (code_simp)+
  from 3 4 have "next_phase_name (rc_runbook demo_config) (demo_at ''test'') = None \<or>
      (\<exists>n \<in> {''done'', ''failed''}. next_phase_name (rc_runbook demo_config) (demo_at ''test'') = Some n \<and>
         \<not> has_phase_def (rc_runbook demo_config) (demo_at ''test'') n)" by blast
  from advance_completes [OF 1 2 this a] 3 5 6 a show ?thesis by simp
qed

text \<open>C14: \<open>fail_pipeline\<close> without an \<open>on_fail\<close> phase moves the pipeline to \<open>failed\<close>; the status it
  leaves is \<open>Pending\<close> and the error is not recorded in the pipeline. With an \<open>on_fail\<close> phase the
  pipeline moves to that phase and runs.\<close>

theorem fail_pipeline_outcome:
  assumes "hm_get (pipelines (rt_state r)) (id p) = Some p"
    and "fail_pipeline cfg p err r = (Inr evs, s)"
  shows "hm_get (pipelines (rt_state s)) (id p) =
    (case on_fail_phase (rc_runbook cfg) p of
       None \<Rightarrow> Some (p\<lparr>phase := ''failed'', status := Pending\<rparr>)
     | Some n \<Rightarrow> Some (p\<lparr>phase := n, status := Running\<rparr>))"
proof (cases "on_fail_phase (rc_runbook cfg) p")
  case None
  with assms(2) have "run_effects cfg (failure_effects p err) r = (Inr evs, s)"
    by (simp add: fail_pipeline_def)
  from run_effects_applies [OF this] assms(1) None show ?thesis by (auto simp: applies_def)
next
  case (Some n)
  with assms(2) obtain evs1 evs2 u where
    1: "run_effects cfg (failure_transition_effects p n err) r = (Inr evs1, u)" and
    2: "start_phase cfg (id p) n (inputs p) (workspace_path_of cfg p) u = (Inr evs2, s)"
    by (auto simp: fail_pipeline_def bind_Inr)
  from move_to_phase [OF assms(1) 1 persisted_lists(3) no_shell_effects(3) 2] Some
  show ?thesis by simp
qed

theorem fail_pipeline_outcome_witness:
  "map_option (\<lambda>p. (phase p, status p, error p)) (hm_get (pipelines (rt_state (snd
     (fail_pipeline demo_config (demo_at ''test'') ''boom'' (demo_runtime ''test''))))) ''p0'') =
     Some (''failed'', Pending, None)"
proof -
  let ?run = "fail_pipeline demo_config (demo_at ''test'') ''boom'' (demo_runtime ''test'')"
  have "fst ?run = Inr []" by code_simp
  then obtain s where a: "?run = (Inr [], s)" by (cases ?run) simp
  have 1: "hm_get (pipelines (rt_state (demo_runtime ''test''))) (id (demo_at ''test'')) =
      Some (demo_at ''test'')"
    and 2: "on_fail_phase (rc_runbook demo_config) (demo_at ''test'') = None"
    and 3: "id (demo_at ''test'') = ''p0''" and 4: "error (demo_at ''test'') = None"
    by (code_simp)+
  from fail_pipeline_outcome [OF 1 a] 2 3 4 a show ?thesis by simp
qed

section \<open>A phase that cannot start\<close>

lemma run_effects_error: "run_effects cfg effs r = (Inl e, s) \<Longrightarrow> \<exists>x. e = Execute x"
  by (auto simp: run_effects_def on_executor_def map_err_def on_part_def split: prod.splits sum.splits)

lemma spawn_agent_error:
  assumes "spawn_agent cfg pid a ins r = (Inl e, s)"
  shows "(\<exists>x. e = Execute x) \<or> (\<exists>x. e = AgentNotFound x) \<or> (\<exists>x. e = PipelineNotFound x) \<or>
    (\<exists>x y. e = PromptError x y)"
  using assms
  by (auto simp: spawn_agent_def lookup_pipeline_def on_runtime_world_def build_spawn_effects_def
      comp_defs Let_def split: prod.splits sum.splits option.splits dest: run_effects_error)

lemma start_phase_unsupported:
  assumes "start_phase cfg pid ph ins d r = (Inl (InvalidRunDirective c t), s)"
  shows "applies [PhaseStatusUpdate pid Running] r s"
proof -
  from assms obtain p and phd :: phase_def and evs u where
    1: "run_effects cfg (phase_start_effects pid ph) r = (Inr evs, u)"
    and 2: "dispatch_run cfg p pid ph ins d (ph_run phd) u = (Inl (InvalidRunDirective c t), s)"
    by (auto simp: start_phase_def exact_pipeline_def bind_def gets_def ok_or_def ok_def fail_def
        split: prod.splits sum.splits option.splits dest: run_effects_error)
  from 2 have "u = s"
    by (auto simp: dispatch_run_def bind_def gets_def fail_def
        split: run_directive.splits prod.splits sum.splits dest: run_effects_error spawn_agent_error)
  with run_effects_applies [OF 1] show ?thesis by simp
qed

text \<open>When the next phase has a directive that phases do not support (a nested pipeline or a
  strategy), \<open>advance_pipeline\<close> returns the error after it has persisted the move: the pipeline is
  left in that phase with status \<open>Running\<close>, although nothing runs.\<close>

lemma unsupported_phase_left_running:
  assumes "hm_get (pipelines (rt_state r)) (id p) = Some p"
    and "advance_pipeline cfg p r = (Inl (InvalidRunDirective c t), s)"
  shows "\<exists>n. next_phase_name (rc_runbook cfg) p = Some n \<and>
    hm_get (pipelines (rt_state s)) (id p) = Some (p\<lparr>phase := n, status := Running\<rparr>)"
proof -
  from assms(2) obtain n evs u where n: "next_phase_name (rc_runbook cfg) p = Some n"
    and 1: "run_effects cfg (phase_transition_effects p n) r = (Inr evs, u)"
    and 2: "start_phase cfg (id p) n (inputs p) (workspace_path_of cfg p) u =
      (Inl (InvalidRunDirective c t), s)"
    by (auto simp: advance_pipeline_def complete_pipeline_def bind_def ok_def
        split: if_splits option.splits prod.splits sum.splits dest: run_effects_error)
  from applies_append [OF run_effects_applies [OF 1] start_phase_unsupported [OF 2]] n assms(1)
  show ?thesis by (auto simp: applies_def)
qed

lemma unsupported_phase_left_running_witness:
  "map_option (\<lambda>p. (phase p, status p)) (hm_get (pipelines (rt_state (snd
     (advance_pipeline demo_config (demo_at ''plan'') (demo_runtime ''plan''))))) ''p0'') =
     Some (''fix'', Running)"
proof -
  let ?run = "advance_pipeline demo_config (demo_at ''plan'') (demo_runtime ''plan'')"
  have "fst ?run = Inl (InvalidRunDirective ''phase fix'' ''strategy (retry)'')" by code_simp
  then obtain s where a: "?run = (Inl (InvalidRunDirective ''phase fix'' ''strategy (retry)''), s)"
    by (cases ?run) simp
  have 1: "hm_get (pipelines (rt_state (demo_runtime ''plan''))) (id (demo_at ''plan'')) =
      Some (demo_at ''plan'')"
    and 2: "next_phase_name (rc_runbook demo_config) (demo_at ''plan'') = Some ''fix''"
    and 3: "id (demo_at ''plan'') = ''p0''"
    by (code_simp)+
  from unsupported_phase_left_running [OF 1 a] 2 3 a show ?thesis by simp
qed

section \<open>Completions of shell commands\<close>

lemma shell_completed_eq:
  "hm_get (pipelines (rt_state r)) pid = Some p \<Longrightarrow>
   handle_event cfg (ShellCompleted pid ph code) r =
     (if phase p \<noteq> ph then (Inr [], r)
      else if code = 0 then advance_pipeline cfg p r
      else fail_pipeline cfg p (''shell exited with code '' @ show_int code) r)"
  by (simp add: handle_event_def handle_shell_completed_def exact_pipeline_def comp_defs)

lemma shell_completed_unknown:
  "hm_get (pipelines (rt_state r)) pid = None \<Longrightarrow>
   handle_event cfg (ShellCompleted pid ph code) r = (Inl (PipelineNotFound pid), r)"
  by (simp add: handle_event_def handle_shell_completed_def exact_pipeline_def comp_defs)

section \<open>Over any run of the daemon\<close>

text \<open>C3: crash consistency. If the log tells the state when the runtime is created, then at every
  reachable moment, after any sequence of events, errors and changes of the outside world, the log
  file replays without error, and applying the replayed operations to the empty state, at whatever
  times, gives the state of the runtime up to the time stamps. Writes that fail leave no part of a
  line, and the JSON library reads back what it wrote.\<close>

theorem crash_consistency:
  assumes "reliable_log de (rc_host cfg)" and "log_tells_state de (rt_executor r)"
    and "reaches cfg r s"
  shows "\<exists>ops. wal_replay de (Inr (wal_file (ex_wal (rt_executor s)))) = Inr ops \<and>
    (\<forall>tops. map snd tops = ops \<longrightarrow> untimed (apply_all tops state_default) = untimed (rt_state s))"
proof -
  have "log_tells_state de (rt_executor s)"
    using log_rt.reaches_I [OF assms(3), of de] assms(1,2) by blast
  then obtain ops where "log_holds de (ex_wal (rt_executor s)) ops"
    and "untimed (rt_state s) = apply_all (map (\<lambda>op. (0, op)) ops) state_default"
    unfolding log_tells_state_def by blast
  then show ?thesis by (auto simp: log_holds_def untimed_apply_all case_prod_unfold comp_def)
qed

definition quiet_config :: "(nat \<times> nat) runtime_config" where
  "quiet_config = demo_config\<lparr>rc_host := quiet_host\<rparr>"

theorem crash_consistency_witness:
  "\<exists>ops. wal_replay num_de (Inr (wal_file (ex_wal (rt_executor (snd (handle_event quiet_config
      (CommandInvoked ''build'' []) \<lparr>rt_executor = empty_executor (0, 0), rt_watchers = []\<rparr>)))))) =
    Inr ops"
proof -
  let ?r = "\<lparr>rt_executor = empty_executor (0, 0), rt_watchers = []\<rparr>"
  have 1: "reliable_log num_de (rc_host quiet_config)"
    using quiet_host_reliable by (simp add: quiet_config_def)
  have 2: "log_tells_state num_de (rt_executor ?r)" by (simp add: empty_executor_log)
  have 3: "reaches quiet_config ?r (snd (handle_event quiet_config (CommandInvoked ''build'' []) ?r))"
    by (rule reaches.event) (rule reaches.start)
  from crash_consistency [OF 1 2 3] show ?thesis by blast
qed

text \<open>The runtime never deletes a pipeline or a workspace record: one that exists when the
  runtime is created is there at every reachable moment.\<close>

lemma records_kept:
  assumes "reaches cfg r s"
  shows "(hm_get (pipelines (rt_state r)) i \<noteq> None \<longrightarrow> hm_get (pipelines (rt_state s)) i \<noteq> None) \<and>
    (hm_get (workspaces (rt_state r)) j \<noteq> None \<longrightarrow> hm_get (workspaces (rt_state s)) j \<noteq> None)"
  using records_rt.reaches_I [OF assms, of "{i}" "{}"] records_rt.reaches_I [OF assms, of "{}" "{j}"]
  by (auto simp: has_records_def)

lemma records_kept_witness:
  "hm_get (pipelines (rt_state (snd (handle_event demo_config (AgentError ''p0'' ''boom'')
     (demo_runtime ''test''))))) ''p0'' \<noteq> None"
proof -
  have "reaches demo_config (demo_runtime ''test'')
      (snd (handle_event demo_config (AgentError ''p0'' ''boom'') (demo_runtime ''test'')))"
    by (rule reaches.event) (rule reaches.start)
  moreover have "hm_get (pipelines (rt_state (demo_runtime ''test''))) ''p0'' \<noteq> None" by code_simp
  ultimately show ?thesis using records_kept by blast
qed

end
