(* ===== verification/Runtime_Events.thy ===== *)
theory Runtime_Events
  imports Runtime_Properties
begin

text \<open>
  The events a handler feeds back. \<open>current_event evs s\<close>: at most one, and it is the completion of the
  shell command of the phase that some pipeline is running in the state reached. The next phase of a
  completion is related to the place of its phase in the definition of the pipeline, from which the
  event loop of the daemon gets its bound.
\<close>

definition current_event :: "event list \<Rightarrow> 'w runtime \<Rightarrow> bool" where
  "current_event evs s \<longleftrightarrow> evs = [] \<or>
     (\<exists>p code. evs = [ShellCompleted (id p) (phase p) code] \<and>
        hm_get (pipelines (rt_state s)) (id p) = Some p \<and> status p = Running)"

lemma current_event_Nil [simp]: "current_event [] s"
  by (simp add: current_event_def)

lemma applies_wf: "applies ops r s \<Longrightarrow> state_wf (rt_state r) \<Longrightarrow> state_wf (rt_state s)"
  using apply_all_induct [of state_wf] apply_op_wf by (auto simp: applies_def)

lemma start_phase_current:
  assumes wf: "state_wf (rt_state u)"
    and p: "\<And>q. hm_get (pipelines (rt_state u)) pid = Some q \<Longrightarrow> phase q = n"
    and st: "start_phase cfg pid n ins d u = (Inr evs, s)"
  shows "current_event evs s"
proof -
  from start_phase_applies [OF st] obtain q where q: "hm_get (pipelines (rt_state u)) pid = Some q"
    and c: "evs = [] \<or> (\<exists>code. evs = [ShellCompleted pid n code] \<and>
      applies [PhaseStatusUpdate pid Running] u s)" by blast
  have "id q = pid" "phase q = n" using state_wf_pipelineD [OF wf q] p q by auto
  with q have "hm_get (pipelines (rt_state s)) pid = Some (q\<lparr>status := Running\<rparr>) \<and> id q = pid \<and> phase q = n"
    if "applies [PhaseStatusUpdate pid Running] u s"
    using that by (auto simp: applies_def)
  with c show ?thesis
    unfolding current_event_def by (metis pipeline.select_convs(1,4,5) pipeline.surjective
        pipeline.update_convs(5))
qed

lemma move_current:
  assumes wf: "state_wf (rt_state r)"
    and t: "run_effects cfg effs r = (Inr evs1, u)" "persisted effs = [PipelineTransition i n]"
      "\<forall>e \<in> set effs. \<not> is_shell_effect e"
    and st: "start_phase cfg i n ins d u = (Inr evs2, s)"
  shows "current_event (evs1 @ evs2) s"
proof -
  have a: "applies [PipelineTransition i n] r u" using run_effects_applies [OF t(1)] t(2) by simp
  then have "hm_get (pipelines (rt_state u)) i = Some q \<Longrightarrow> phase q = n" for q
    by (auto simp: applies_def)
  from start_phase_current [OF applies_wf [OF a wf] this st] run_effects_no_events [OF t(1,3)]
  show ?thesis by simp
qed

lemma advance_current:
  assumes "state_wf (rt_state r)" and "advance_pipeline cfg p r = (Inr evs, s)"
  shows "current_event evs s"
proof -
  have none: "evs1 @ evs2 = []" if "run_effects cfg (phase_transition_effects p n) r = (Inr evs1, u)"
    "complete_pipeline cfg p u = (Inr evs2, s)" for n u evs1 evs2
    using run_effects_no_events [OF that(1) no_shell_effects(2)] complete_applies(2) [OF that(2)] by simp
  from assms(2) consider "complete_pipeline cfg p r = (Inr evs, s)"
    | n u evs1 evs2 where "run_effects cfg (phase_transition_effects p n) r = (Inr evs1, u)"
      "complete_pipeline cfg p u = (Inr evs2, s)" "evs = evs1 @ evs2"
    | n u evs1 evs2 where "run_effects cfg (phase_transition_effects p n) r = (Inr evs1, u)"
      "start_phase cfg (id p) n (inputs p) (workspace_path_of cfg p) u = (Inr evs2, s)"
      "evs = evs1 @ evs2"
    by (auto simp: advance_pipeline_def bind_Inr split: if_splits option.splits)
  then show ?thesis
  proof cases
    case 1
    then show ?thesis using complete_applies(2) [OF 1] by simp
  next
    case 2
    then show ?thesis using none by simp
  next
    case 3
    then show ?thesis
      using move_current [OF assms(1) 3(1) persisted_lists(2) no_shell_effects(2) 3(2)] by simp
  qed
qed

lemma fail_current:
  assumes "state_wf (rt_state r)" and "fail_pipeline cfg p err r = (Inr evs, s)"
  shows "current_event evs s"
proof (cases "on_fail_phase (rc_runbook cfg) p")
  case None
  with assms(2) have "run_effects cfg (failure_effects p err) r = (Inr evs, s)"
    by (simp add: fail_pipeline_def)
  from run_effects_no_events [OF this no_shell_effects(4)] show ?thesis by simp
next
  case (Some n)
  with assms(2) obtain evs1 evs2 u where
    1: "run_effects cfg (failure_transition_effects p n err) r = (Inr evs1, u)" and
    2: "start_phase cfg (id p) n (inputs p) (workspace_path_of cfg p) u = (Inr evs2, s)" and
    evs: "evs = evs1 @ evs2"
    by (auto simp: fail_pipeline_def bind_Inr)
  from move_current [OF assms(1) 1 persisted_lists(3) no_shell_effects(3) 2] evs
  show ?thesis by simp
qed

lemma kill_and_respawn_no_events:
  "kill_and_respawn cfg sid d pid agent ins r = (Inr evs, s) \<Longrightarrow> evs = []"
  by (auto simp: kill_and_respawn_def bind_Inr dest: spawn_agent_applies)

lemma action_effects_no_shell:
  "build_action_effects p ag c t ins = Inr a \<Longrightarrow>
   (\<forall>effs. a = NudgeWith effs \<longrightarrow> (\<forall>e \<in> set effs. \<not> is_shell_effect e)) \<and>
   (\<forall>effs. a = EscalateWith effs \<longrightarrow> (\<forall>e \<in> set effs. \<not> is_shell_effect e))"
  by (auto simp: build_action_effects_def escalate_effects_def is_shell_effect_def
      split: agent_action.splits option.splits)

lemma act_current:
  assumes "state_wf (rt_state r)" and "act cfg p ag c t r = (Inr evs, s)"
  shows "current_event evs s"
proof -
  from assms(2) obtain a where a: "build_action_effects p ag c t (inputs p) = Inr a"
    and x: "execute_action_effects cfg p a r = (Inr evs, s)"
    by (auto simp: act_def bind_Inr from_result_def)
  have m: "\<not> is_shell_effect (start_session_monitor i)" for i
    by (simp add: start_session_monitor_def is_shell_effect_def)
  show ?thesis
  proof (cases a)
    case (NudgeWith effs)
    with x have "run_effects cfg (effs @ [start_session_monitor (id p)]) r = (Inr evs, s)"
      by (simp add: execute_action_effects_def)
    from run_effects_no_events [OF this] action_effects_no_shell [OF a] NudgeWith m show ?thesis by auto
  next
    case (EscalateWith effs)
    with x have "run_effects cfg effs r = (Inr evs, s)" by (simp add: execute_action_effects_def)
    from run_effects_no_events [OF this] action_effects_no_shell [OF a] EscalateWith show ?thesis by auto
  qed (use x assms(1) in \<open>auto simp: execute_action_effects_def intro: advance_current fail_current
      dest: kill_and_respawn_no_events\<close>)
qed

text \<open>A handler that restarts the monitor only.\<close>

lemma run_effect_state:
  "run_effect cfg (SetTimer i d) r = (res, s) \<Longrightarrow> rt_state s = rt_state r"
  by (auto simp: run_effect_def on_executor_def execute_def exec_defs comp_defs split: prod.splits)

lemma watch_state: "watch cfg pid l r = (res, s) \<Longrightarrow> rt_state s = rt_state r"
  by (auto simp: watch_def comp_defs)

lemma session_monitor_current:
  assumes "state_wf (rt_state r)" and "handle_session_monitor cfg pid r = (Inr evs, s)"
  shows "current_event evs s"
proof -
  have w: "current_event evs s"
    if "watch cfg pid l r = (res, u)" and "act cfg p ag c t u = (Inr evs, s)" for l res u p ag c t
    using act_current [OF _ that(2)] watch_state [OF that(1)] assms(1) by simp
  show ?thesis
    using assms(2) w
    by (auto simp: handle_session_monitor_def lookup_pipeline_def from_result_def elim!: bind_InrE
        split: if_split_asm option.split_asm session_state.split_asm)
qed

text \<open>A pipeline that was created: the operations and the start of its first phase.\<close>

lemma create_pipeline_cases:
  assumes "create_pipeline cfg knd args r = (Inr evs, s)"
  obtains d pid u0 nm u where "get_pipeline_def (rc_runbook cfg) knd = Some d"
    and "next_id cfg r = (Inr pid, u0)"
    and "nm = (case hm_get args ''name'' of Some n \<Rightarrow> n | None \<Rightarrow> pid)"
    and "applies [WorkspaceCreate pid (path_join (rc_worktree_root cfg) nm) (''feature/'' @ nm),
        PipelineCreate pid knd nm args
          (case first_phase d of Some p \<Rightarrow> ph_name p | None \<Rightarrow> ''init'')] r u"
    and "(case first_phase d of
        Some fp \<Rightarrow> start_phase cfg pid (ph_name fp) args (path_join (rc_worktree_root cfg) nm) u =
          (Inr evs, s)
      | None \<Rightarrow> evs = [] \<and> s = u)"
proof -
  from assms obtain d pid u0 where d: "get_pipeline_def (rc_runbook cfg) knd = Some d"
    and i: "next_id cfg r = (Inr pid, u0)" and
    x: "(let nm = (case hm_get args ''name'' of Some n \<Rightarrow> n | None \<Rightarrow> pid);
          wpath = path_join (rc_worktree_root cfg) nm;
          initial_phase = (case first_phase d of Some p \<Rightarrow> ph_name p | None \<Rightarrow> ''init'')
        in bind (run_effects cfg (create_effects pid knd nm args wpath initial_phase)) (\<lambda>evs.
           (case first_phase d of
              Some fp \<Rightarrow>
                bind (start_phase cfg pid (ph_name fp) args wpath) (\<lambda>evs2. ok (evs @ evs2))
            | None \<Rightarrow> ok evs))) u0 = (Inr evs, s)"
    unfolding create_pipeline_def bind_Inr ok_or_Inr by blast
  define nm where "nm = (case hm_get args ''name'' of Some n \<Rightarrow> n | None \<Rightarrow> pid)"
  define ph where "ph = (case first_phase d of Some p \<Rightarrow> ph_name p | None \<Rightarrow> ''init'')"
  from x obtain evs1 u where
    1: "run_effects cfg (create_effects pid knd nm args (path_join (rc_worktree_root cfg) nm) ph) u0 =
      (Inr evs1, u)"
    and 2: "(case first_phase d of
              Some fp \<Rightarrow>
                bind (start_phase cfg pid (ph_name fp) args (path_join (rc_worktree_root cfg) nm))
                  (\<lambda>evs2. ok (evs1 @ evs2))
            | None \<Rightarrow> ok evs1) u = (Inr evs, s)"
    unfolding Let_def bind_Inr nm_def ph_def by blast
  have e1: "evs1 = []" by (rule run_effects_no_events [OF 1 no_shell_effects(6)])
  have st: "rt_state u0 = rt_state r" using i by (auto simp: next_id_def split: prod.splits)
  from applies_append [OF applies_Nil [OF st] run_effects_applies [OF 1]]
  have "applies [WorkspaceCreate pid (path_join (rc_worktree_root cfg) nm) (''feature/'' @ nm),
      PipelineCreate pid knd nm args ph] r u" by simp
  moreover have "(case first_phase d of
        Some fp \<Rightarrow> start_phase cfg pid (ph_name fp) args (path_join (rc_worktree_root cfg) nm) u =
          (Inr evs, s)
      | None \<Rightarrow> evs = [] \<and> s = u)"
    using 2 e1 by (auto simp: bind_Inr split: option.splits)
  ultimately show ?thesis using that d i nm_def ph_def by blast
qed

lemma handle_command_pipeline:
  assumes "handle_command cfg command args r = (Inr evs, s)"
  obtains knd where "create_pipeline cfg knd args r = (Inr evs, s)"
  using assms by (auto simp: handle_command_def elim!: bind_InrE split: run_directive.split_asm)

lemma handle_command_current:
  assumes wf: "state_wf (rt_state r)" and "handle_command cfg command args r = (Inr evs, s)"
  shows "current_event evs s"
proof -
  from assms(2) obtain knd where "create_pipeline cfg knd args r = (Inr evs, s)"
    by (rule handle_command_pipeline)
  then show ?thesis
  proof (rule create_pipeline_cases)
    fix d :: pipeline_def and pid nm u
    assume a: "applies [WorkspaceCreate pid (path_join (rc_worktree_root cfg) nm) (''feature/'' @ nm),
        PipelineCreate pid knd nm args
          (case first_phase d of Some p \<Rightarrow> ph_name p | None \<Rightarrow> ''init'')] r u"
      and f: "(case first_phase d of
        Some fp \<Rightarrow> start_phase cfg pid (ph_name fp) args (path_join (rc_worktree_root cfg) nm) u =
          (Inr evs, s)
      | None \<Rightarrow> evs = [] \<and> s = u)"
    have p: "hm_get (pipelines (rt_state u)) pid = Some q \<Longrightarrow>
        phase q = (case first_phase d of Some p \<Rightarrow> ph_name p | None \<Rightarrow> ''init'')" for q
      using a by (auto simp: applies_def pipeline_new_def)
    show ?thesis
    proof (cases "first_phase d")
      case (Some fp)
      with f have "start_phase cfg pid (ph_name fp) args (path_join (rc_worktree_root cfg) nm) u =
          (Inr evs, s)" by simp
      from start_phase_current [OF applies_wf [OF a wf] _ this] p Some show ?thesis by simp
    qed (use f in simp)
  qed
qed

lemma session_exit_current:
  assumes "state_wf (rt_state r)" and "handle_session_exit cfg sid code r = (Inr evs, s)"
  shows "current_event evs s"
proof -
  consider "evs = []" | p q effs u evs1 evs2 where "transition p (SessionExited sid code) = (q, effs)"
      "run_effects cfg effs r = (Inr evs1, u)" "evs = evs1 @ evs2"
      "evs2 = [] \<and> u = s \<or> advance_pipeline cfg q u = (Inr evs2, s)"
    using assms(2)
    by (fastforce simp: handle_session_exit_def bind_Inr split: option.splits prod.splits if_splits)
  then show ?thesis
  proof cases
    case 2
    have "\<forall>e \<in> set effs. \<not> is_shell_effect e"
      using pipeline_step_effects [OF transition_step [OF 2(1)]] by (auto simp: is_shell_effect_def)
    from run_effects_no_events [OF 2(2) this] have "evs1 = []" .
    moreover have "state_wf (rt_state u)" using applies_wf [OF run_effects_applies [OF 2(2)] assms(1)] .
    ultimately show ?thesis using 2(3,4) advance_current by auto
  qed simp
qed

lemma custom_event_no_events: "handle_custom_event cfg nm data r = (Inr evs, s) \<Longrightarrow> evs = []"
  by (auto simp: handle_custom_event_def bind_Inr split: if_splits)

lemma handle_event_current:
  assumes "state_wf (rt_state r)" and "handle_event cfg e r = (Inr evs, s)"
  shows "current_event evs s"
proof (cases e)
  case (CommandInvoked c as)
  then show ?thesis using assms handle_command_current by (auto simp: handle_event_def)
next
  case (SessionExited i c)
  then show ?thesis using assms session_exit_current by (auto simp: handle_event_def)
next
  case (AgentDone i)
  then show ?thesis using assms advance_current
    by (auto simp: handle_event_def handle_agent_event_def lookup_pipeline_def bind_Inr)
next
  case (AgentError i err)
  then show ?thesis using assms fail_current
    by (auto simp: handle_event_def handle_agent_event_def lookup_pipeline_def bind_Inr)
next
  case (ShellCompleted i ph c)
  then show ?thesis using assms advance_current fail_current
    by (auto simp: handle_event_def handle_shell_completed_def exact_pipeline_def bind_Inr
        split: if_splits)
next
  case (Timer i)
  then show ?thesis using assms session_monitor_current
    by (auto simp: handle_event_def handle_timer_def split: if_splits)
next
  case (Custom n d)
  then show ?thesis using assms by (auto simp: handle_event_def dest: custom_event_no_events)
qed (use assms in \<open>auto simp: handle_event_def\<close>)

section \<open>Properties\<close>

text \<open>C12: handling an event produces at most one further event: the completion of the shell command
  of a phase that a pipeline is in, with status \<open>Running\<close>, in the state reached. So the queue of the
  daemon never holds two events, and the completion it holds is never stale.\<close>

theorem handle_event_feeds_back:
  assumes "state_wf (rt_state r)" and "handle_event cfg e r = (Inr evs, s)"
  shows "evs = [] \<or>
    (\<exists>p code. evs = [ShellCompleted (id p) (phase p) code] \<and>
       hm_get (pipelines (rt_state s)) (id p) = Some p \<and> status p = Running)"
  using handle_event_current [OF assms] by (simp add: current_event_def)

theorem handle_event_feeds_back_witness:
  "state_wf (rt_state (demo_runtime ''init'')) \<and>
   (\<exists>p. hm_get (pipelines (rt_state (snd (handle_event demo_config (AgentDone ''p'')
      (demo_runtime ''init''))))) (id p) = Some p \<and> phase p = ''test'' \<and> status p = Running)"
proof -
  let ?run = "handle_event demo_config (AgentDone ''p'') (demo_runtime ''init'')"
  have wf: "state_wf (rt_state (demo_runtime ''init''))"
    by (auto simp: demo_runtime_def runtime_new_def state_wf_def state_default_def hm_wf_def
        hm_get_def demo_at_def pipeline_new_def split: if_splits)
  have "fst ?run = Inr [ShellCompleted ''p0'' ''test'' 0]" by code_simp
  then obtain s where a: "?run = (Inr [ShellCompleted ''p0'' ''test'' 0], s)" by (cases ?run) simp
  from handle_event_feeds_back [OF wf a] wf a show ?thesis by auto
qed

section \<open>Creating a pipeline\<close>

text \<open>C13: a command that succeeds has created the pipeline under the id the generator gave: of the
  kind the command names, with the arguments as inputs, named by the argument \<open>name\<close> or else by the
  id, in the first phase of its definition and running it; its workspace is recorded under the same
  id with the path below the worktree root. As the workspace was recorded before the pipeline, the
  pipeline itself has no workspace path.\<close>

theorem command_creates_pipeline:
  assumes "handle_event cfg (CommandInvoked command args) r = (Inr evs, s)"
    and "h_next_id (rc_host cfg) (rt_world r) = (pid, w)"
  shows "\<exists>cd knd d nm p now. get_command (rc_runbook cfg) command = Some cd \<and>
    cd_run cd = RunPipeline knd \<and> get_pipeline_def (rc_runbook cfg) knd = Some d \<and>
    nm = (case hm_get args ''name'' of Some n \<Rightarrow> n | None \<Rightarrow> pid) \<and>
    hm_get (pipelines (rt_state s)) pid = Some p \<and>
    p = (case first_phase d of
           Some fp \<Rightarrow> (pipeline_new pid nm knd args (ph_name fp) now)\<lparr>status := Running\<rparr>
         | None \<Rightarrow> pipeline_new pid nm knd args ''init'' now) \<and>
    workspace_path p = None \<and>
    map_option ws_path (hm_get (workspaces (rt_state s)) pid) =
      Some (path_join (rc_worktree_root cfg) nm)"
proof -
  from assms(1) obtain cd knd where cd: "get_command (rc_runbook cfg) command = Some cd"
      "cd_run cd = RunPipeline knd" and c: "create_pipeline cfg knd args r = (Inr evs, s)"
    by (auto simp: handle_event_def handle_command_def elim!: bind_InrE split: run_directive.split_asm)
  from c show ?thesis
  proof (rule create_pipeline_cases)
    fix d :: pipeline_def and pid' u0 nm u
    let ?ph = "case first_phase d of Some p \<Rightarrow> ph_name p | None \<Rightarrow> ''init''"
    assume d: "get_pipeline_def (rc_runbook cfg) knd = Some d" and i: "next_id cfg r = (Inr pid', u0)"
      and nm: "nm = (case hm_get args ''name'' of Some n \<Rightarrow> n | None \<Rightarrow> pid')"
      and a: "applies [WorkspaceCreate pid' (path_join (rc_worktree_root cfg) nm) (''feature/'' @ nm),
        PipelineCreate pid' knd nm args ?ph] r u"
      and f: "(case first_phase d of
        Some fp \<Rightarrow> start_phase cfg pid' (ph_name fp) args (path_join (rc_worktree_root cfg) nm) u =
          (Inr evs, s)
      | None \<Rightarrow> evs = [] \<and> s = u)"
    have pid: "pid' = pid" using i assms(2) by (simp add: next_id_def)
    from a obtain now where u: "hm_get (pipelines (rt_state u)) pid' =
        Some (pipeline_new pid' nm knd args ?ph now)"
      "map_option ws_path (hm_get (workspaces (rt_state u)) pid') =
        Some (path_join (rc_worktree_root cfg) nm)"
      by (auto simp: applies_def)
    show ?thesis
    proof (cases "first_phase d")
      case None
      with f u cd d nm pid show ?thesis by (auto simp: pipeline_new_def)
    next
      case (Some fp)
      with f have "start_phase cfg pid' (ph_name fp) args (path_join (rc_worktree_root cfg) nm) u =
          (Inr evs, s)" by simp
      from start_phase_applies [OF this] obtain ops where "applies ops u s"
        "ops = [PhaseStatusUpdate pid' Running] \<or>
         ops = [PhaseStatusUpdate pid' Running, SessionCreate pid' pid']" by blast
      with u Some have "hm_get (pipelines (rt_state s)) pid' =
          Some ((pipeline_new pid' nm knd args (ph_name fp) now)\<lparr>status := Running\<rparr>) \<and>
        map_option ws_path (hm_get (workspaces (rt_state s)) pid') =
          Some (path_join (rc_worktree_root cfg) nm)"
        by (auto simp: applies_def)
      with Some cd d nm pid show ?thesis by (auto simp: pipeline_new_def)
    qed
  qed
qed

definition fresh_runtime :: "(nat \<times> nat) runtime" where
  "fresh_runtime = runtime_new \<lparr>wal_file = [], wal_sequence = 0\<rparr> state_default (0, 0)"

theorem command_creates_pipeline_witness:
  "\<exists>p. hm_get (pipelines (rt_state (snd (handle_event demo_config (CommandInvoked ''build'' [])
     fresh_runtime)))) ''p0'' = Some p \<and> phase p = ''init'' \<and> status p = Running \<and>
     workspace_path p = None"
proof -
  let ?run = "handle_event demo_config (CommandInvoked ''build'' []) fresh_runtime"
  have "fst ?run = Inr [ShellCompleted ''p0'' ''init'' 0]" by code_simp
  then obtain s where a: "?run = (Inr [ShellCompleted ''p0'' ''init'' 0], s)" by (cases ?run) simp
  have "h_next_id (rc_host demo_config) (rt_world fresh_runtime) = (''p0'', (0, 1))" by code_simp
  from command_creates_pipeline [OF a this] a show ?thesis
    by (auto simp: get_command_def get_pipeline_def_def demo_config_def demo_runbook_def hm_get_def
        first_phase_def pipeline_new_def split: if_splits)
qed

section \<open>Sessions that are never linked\<close>

lemma hm_find_session_unlinked:
  "unlinked st \<Longrightarrow> state_wf st \<Longrightarrow> hm_find (\<lambda>p. session_id p = Some sid) (pipelines st) = None"
  by (auto simp: hm_find_None unlinked_def state_wf_def hm.entries_lookup)

text \<open>C34: no operation records the session of a pipeline, so at every moment reachable from a state in
  which no pipeline has one, the end of a session changes nothing, and an agent action \<open>nudge\<close>
  returns the error \<open>no session\<close> and changes nothing: it cannot reach the agent.\<close>

theorem sessions_never_linked:
  assumes "reaches cfg r s" and "state_wf (rt_state r)" and "unlinked (rt_state r)"
  shows "handle_event cfg (SessionExited sid code) s = (Inr [], s) \<and>
    (\<forall>pid p ag. rt_get_pipeline s pid = Some p \<longrightarrow> \<not> is_terminal p \<longrightarrow>
       get_agent_def (rc_runbook cfg) p = Inr ag \<longrightarrow> action (on_exit ag) = Nudge \<longrightarrow>
       handle_claude_exited cfg pid s = (Inl (PipelineNotFound ''no session''), s))"
proof (intro conjI allI impI)
  have wf: "state_wf (rt_state s)" and un: "unlinked (rt_state s)"
    using wf_rt.reaches_I [OF assms(1,2)] unlinked_rt.reaches_I [OF assms(1,3)] by auto
  show "handle_event cfg (SessionExited sid code) s = (Inr [], s)"
    using hm_find_session_unlinked [OF un wf, of sid]
    by (simp add: handle_event_def handle_session_exit_def comp_defs)
  fix pid p ag
  assume p: "rt_get_pipeline s pid = Some p" and "\<not> is_terminal p"
    and "get_agent_def (rc_runbook cfg) p = Inr ag" and "action (on_exit ag) = Nudge"
  moreover have "session_id p = None"
    using get_pipeline_key [OF wf, of pid p] p un by (auto simp: unlinked_def rt_get_pipeline_def)
  ultimately show "handle_claude_exited cfg pid s = (Inl (PipelineNotFound ''no session''), s)"
    by (simp add: handle_claude_exited_def lookup_pipeline_def act_def build_action_effects_def comp_defs)
qed

theorem sessions_never_linked_witness:
  "let s = snd (handle_event demo_config (CommandInvoked ''build'' []) fresh_runtime)
   in handle_event demo_config (SessionExited ''p0'' 1) s = (Inr [], s)"
proof -
  have "reaches demo_config fresh_runtime
      (snd (handle_event demo_config (CommandInvoked ''build'' []) fresh_runtime))"
    by (rule reaches.event) (rule reaches.start)
  from sessions_never_linked [OF this] show ?thesis
    by (simp add: fresh_runtime_def runtime_new_def Let_def)
qed

end
