(* ===== verification/Monitor_Properties.thy ===== *)
theory Monitor_Properties
  imports Runtime_Events
begin

text \<open>
  The monitoring of agents: which action an error leads to, what an escalation and the resumption of a
  pipeline do to state and timers, and what the monitor finds for the pipelines that commands create.
\<close>

section \<open>Choosing an action\<close>

lemma find_first:
  "i < length xs \<Longrightarrow> P (xs ! i) \<Longrightarrow> (\<forall>j < i. \<not> P (xs ! j)) \<Longrightarrow> List.find P xs = Some (xs ! i)"
proof (induction xs arbitrary: i)
  case (Cons x xs)
  show ?case
  proof (cases i)
    case (Suc k)
    with Cons.prems have "\<not> P x" "P (xs ! k)" "k < length xs" by auto
    moreover have "\<not> P (xs ! j)" if "j < k" for j
      using Cons.prems(3) Suc that by (metis Suc_less_eq nth_Cons_Suc)
    ultimately show ?thesis using Cons.IH [of k] Suc by simp
  qed (use Cons.prems in simp)
qed simp

text \<open>With a list of actions by error type, the action for a failed session is that of the first
  entry that names the type of the failure or names none; a failure without a type is only matched by
  an entry that names none, and when no entry matches the pipeline is escalated.\<close>

lemma failure_action:
  assumes "on_error ag = ByType ms"
  shows "(\<forall>i < length ms.
      (em_match (ms ! i) = None \<or> em_match (ms ! i) = failure_to_error_type reason) \<longrightarrow>
      (\<forall>j < i. em_match (ms ! j) \<noteq> None \<and> em_match (ms ! j) \<noteq> failure_to_error_type reason) \<longrightarrow>
      action_for (on_error ag) (failure_to_error_type reason) =
        WithOptions (em_action (ms ! i)) (em_message (ms ! i)) (em_append (ms ! i))) \<and>
    ((\<forall>m \<in> set ms. em_match m \<noteq> None \<and> em_match m \<noteq> failure_to_error_type reason) \<longrightarrow>
      action_for (on_error ag) (failure_to_error_type reason) = Simple Escalate) \<and>
    (\<forall>t. reason = OtherReason t \<longrightarrow> (\<forall>m \<in> set ms. em_match m \<noteq> None) \<longrightarrow>
      action (action_for (on_error ag) (failure_to_error_type reason)) = Escalate)"
proof -
  let ?P = "\<lambda>m. em_match m = None \<or> em_match m = failure_to_error_type reason"
  have none: "action_for (on_error ag) (failure_to_error_type reason) = Simple Escalate"
    if "\<forall>m \<in> set ms. \<not> ?P m"
    using that assms find_None_iff [of ?P ms] by (auto simp: action_for_def)
  have first: "action_for (on_error ag) (failure_to_error_type reason) =
      WithOptions (em_action (ms ! i)) (em_message (ms ! i)) (em_append (ms ! i))"
    if "i < length ms" "?P (ms ! i)" "\<forall>j < i. \<not> ?P (ms ! j)" for i
    using find_first [of i ms ?P, OF that] assms by (simp add: action_for_def)
  show ?thesis using none first by auto
qed

definition retry_agent :: agent_def where
  "retry_agent = agent_def_default\<lparr>on_error := ByType
     [\<lparr>em_match = Some error_type.RateLimited, em_action = Restart, em_message = None,
       em_append = False\<rparr>,
      \<lparr>em_match = Some error_type.NoInternet, em_action = Recover, em_message = Some ''again'',
       em_append = True\<rparr>]\<rparr>"

lemma failure_action_witness:
  "action_for (on_error retry_agent) (failure_to_error_type failure_reason.NoInternet) =
     WithOptions Recover (Some ''again'') True \<and>
   action (action_for (on_error retry_agent) (failure_to_error_type (OtherReason ''x''))) = Escalate"
proof -
  have e: "on_error retry_agent = ByType
     [\<lparr>em_match = Some error_type.RateLimited, em_action = Restart, em_message = None,
       em_append = False\<rparr>,
      \<lparr>em_match = Some error_type.NoInternet, em_action = Recover, em_message = Some ''again'',
       em_append = True\<rparr>]" by (simp add: retry_agent_def)
  from failure_action [OF e, of failure_reason.NoInternet] failure_action [OF e, of "OtherReason ''x''"]
  show ?thesis by (auto simp: less_Suc_eq)
qed

section \<open>Escalation and resumption\<close>

lemma run_effects_Cons:
  "run_effects cfg (e # es) =
     bind (run_effect cfg e) (\<lambda>ev. bind (run_effects cfg es)
       (\<lambda>evs. ok (case ev of Some x \<Rightarrow> x # evs | None \<Rightarrow> evs)))"
  by (rule ext) (simp add: run_effects_def run_effect_def on_executor_def comp_defs
      split: prod.split sum.split)

lemma run_effects_last:
  "run_effects cfg (es @ [e]) r = (Inr evs, s) \<Longrightarrow> \<exists>ev u. run_effect cfg e u = (Inr ev, s)"
proof (induction es arbitrary: r evs)
  case Nil
  then show ?case
    by (auto simp: run_effects_Cons elim!: bind_InrE)
      (auto simp: run_effects_def on_executor_def comp_defs)
next
  case (Cons x es)
  then show ?case by (auto simp: run_effects_Cons elim!: bind_InrE)
qed

definition monitored :: "'w runtime \<Rightarrow> string \<Rightarrow> instant option" where
  "monitored r pid = deadline (ex_scheduler (rt_executor r)) (check_timer pid)"

lemma check_timer_inject [simp]: "check_timer a = check_timer b \<longleftrightarrow> a = b"
  by (simp add: check_timer_def)

lemma run_effect_timer:
  assumes "run_effect cfg eff r = (Inr ev, s)"
  shows "(\<forall>i d. eff \<noteq> SetTimer i d) \<Longrightarrow> (\<forall>i. eff \<noteq> CancelTimer i) \<Longrightarrow> monitored s pid = monitored r pid"
    and "eff = CancelTimer (check_timer pid) \<Longrightarrow> monitored s pid = None"
    and "eff = SetTimer (check_timer pid) d \<Longrightarrow>
      monitored s pid = Some (fst (h_now (rc_host cfg) (rt_world r)) + d)"
proof -
  from assms obtain y where y: "execute (rc_host cfg) eff (rt_executor r) = (Inr ev, y)"
    "rt_executor s = y"
    by (auto simp: run_effect_def on_executor_def map_err_def on_part_def split: sum.splits prod.splits)
  show "(\<forall>i d. eff \<noteq> SetTimer i d) \<Longrightarrow> (\<forall>i. eff \<noteq> CancelTimer i) \<Longrightarrow> monitored s pid = monitored r pid"
    using execute_frame(2) [OF y(1)] y(2) by (simp add: monitored_def)
  have "ex_scheduler y = cancel_timer i (ex_scheduler (rt_executor r))" if "eff = CancelTimer i" for i
    using y(1) that by (auto simp: execute_def exec_defs comp_defs)
  then show "eff = CancelTimer (check_timer pid) \<Longrightarrow> monitored s pid = None"
    by (simp add: monitored_def y(2) cancel_timer_def deadline_def)
  have "ex_scheduler y = set_timer i d (fst (h_now (rc_host cfg) (rt_world r)))
      (ex_scheduler (rt_executor r))" if "eff = SetTimer i d" for i d
    using y(1) that by (auto simp: execute_def exec_defs comp_defs split: prod.splits)
  then show "eff = SetTimer (check_timer pid) d \<Longrightarrow>
      monitored s pid = Some (fst (h_now (rc_host cfg) (rt_world r)) + d)"
    by (simp add: monitored_def y(2) set_timer_def deadline_def)
qed

lemma run_effect_persist:
  assumes "run_effect cfg (Persist op) r = (Inr ev, s)"
  shows "\<exists>now. rt_state s = apply_op now op (rt_state r)"
proof -
  from assms obtain y where "execute (rc_host cfg) (Persist op) (rt_executor r) = (Inr ev, y)"
    "rt_executor s = y"
    by (auto simp: run_effect_def on_executor_def map_err_def on_part_def split: sum.splits prod.splits)
  with execute_persist show ?thesis by fastforce
qed

lemma run_effect_frame:
  assumes "run_effect cfg eff r = (res, s)" and "\<forall>op. eff \<noteq> Persist op"
  shows "rt_state s = rt_state r"
proof -
  from assms obtain x y where "execute (rc_host cfg) eff (rt_executor r) = (x, y)" "rt_executor s = y"
    by (auto simp: run_effect_def on_executor_def map_err_def on_part_def split: sum.splits prod.splits)
  with execute_frame(1) assms(2) show ?thesis by fastforce
qed

text \<open>\<open>oj pipeline resume\<close>, whatever the phase and the status of the pipeline.\<close>

lemma resume_runs:
  assumes "hm_get (pipelines (rt_state r)) (id p) = Some p" and "rt_get_pipeline r pid = Some p"
    and "handle_event cfg (Custom ''pipeline:resume'' (json_strings [(''pipeline_id'', pid)])) r =
      (Inr evs, s)"
  shows "hm_get (pipelines (rt_state s)) (id p) = Some (p\<lparr>status := Running\<rparr>) \<and>
    (\<exists>now. monitored s (id p) = Some (now + from_secs 10))"
proof -
  from assms(2,3) obtain ev1 ev2 v where
    1: "run_effect cfg (Persist (PhaseStatusUpdate (id p) Running)) r = (Inr ev1, v)" and
    2: "run_effect cfg (SetTimer (check_timer (id p)) (from_secs 10)) v = (Inr ev2, s)"
    by (auto simp: handle_event_def handle_custom_event_def lookup_pipeline_def bind_Inr)
  from run_effect_persist [OF 1] assms(1)
  have "hm_get (pipelines (rt_state v)) (id p) = Some (p\<lparr>status := Running\<rparr>)" by auto
  then show ?thesis using run_effect_state [OF 2] run_effect_timer(3) [OF 2 refl] by auto
qed

text \<open>C32: escalation is undone by resumption: when the agent of a pipeline exits and its definition
  says to escalate, the pipeline waits and is no longer monitored; the event \<open>pipeline:resume\<close> that
  succeeds makes it run again and sets its monitor to fire ten seconds after it was handled. Its
  phase is the same throughout.\<close>

theorem escalate_and_resume:
  assumes "state_wf (rt_state r)" and "rt_get_pipeline r pid = Some p" and "\<not> is_terminal p"
    and "get_agent_def (rc_runbook cfg) p = Inr ag" and "action (on_exit ag) = Escalate"
    and "handle_claude_exited cfg pid r = (Inr evs, s)"
  shows "hm_get (pipelines (rt_state s)) (id p) = Some (p\<lparr>status := Waiting\<rparr>) \<and>
    monitored s (id p) = None \<and> evs = [] \<and>
    (\<forall>evs2 t.
       handle_event cfg (Custom ''pipeline:resume'' (json_strings [(''pipeline_id'', id p)])) s =
         (Inr evs2, t) \<longrightarrow>
       hm_get (pipelines (rt_state t)) (id p) = Some (p\<lparr>status := Running\<rparr>) \<and>
       (\<exists>now. monitored t (id p) = Some (now + from_secs 10)))"
proof -
  have p: "hm_get (pipelines (rt_state r)) (id p) = Some p"
    using get_pipeline_key [OF assms(1)] assms(2) by (simp add: rt_get_pipeline_def)
  from assms(2-6) have run: "run_effects cfg (escalate_effects p ''exit'') r = (Inr evs, s)"
    by (auto simp: handle_claude_exited_def lookup_pipeline_def act_def build_action_effects_def
        execute_action_effects_def from_result_def bind_Inr)
  then have evs: "evs = []"
    by (rule run_effects_no_events) (simp add: escalate_effects_def is_shell_effect_def)
  have "applies [PhaseStatusUpdate (id p) Waiting] r s"
    using run_effects_applies [OF run] by (simp add: escalate_effects_def)
  then have s: "hm_get (pipelines (rt_state s)) (id p) = Some (p\<lparr>status := Waiting\<rparr>)"
    using p by (auto simp: applies_def)
  have "escalate_effects p ''exit'' = butlast (escalate_effects p ''exit'') @ [CancelTimer (check_timer (id p))]"
    by (simp add: escalate_effects_def)
  with run_effects_last run obtain ev u where "run_effect cfg (CancelTimer (check_timer (id p))) u = (Inr ev, s)"
    by metis
  then have m: "monitored s (id p) = None" using run_effect_timer(2) by blast
  have "rt_get_pipeline s (id p) = Some (p\<lparr>status := Waiting\<rparr>)"
    using s by (simp add: rt_get_pipeline_def get_pipeline_def)
  from resume_runs [OF _ this] s
  have res: "hm_get (pipelines (rt_state t)) (id p) = Some (p\<lparr>status := Running\<rparr>) \<and>
       (\<exists>now. monitored t (id p) = Some (now + from_secs 10))"
    if "handle_event cfg (Custom ''pipeline:resume'' (json_strings [(''pipeline_id'', id p)])) s =
         (Inr evs2, t)" for evs2 t
    using that by fastforce
  show ?thesis using s m evs res by blast
qed

theorem escalate_and_resume_witness:
  "\<exists>s. handle_claude_exited demo_config ''p0'' (demo_runtime ''code'') = (Inr [], s) \<and>
     monitored s ''p0'' = None \<and>
     map_option status (hm_get (pipelines (rt_state s)) ''p0'') = Some Waiting"
proof -
  let ?run = "handle_claude_exited demo_config ''p0'' (demo_runtime ''code'')"
  have "fst ?run = Inr []" by code_simp
  then obtain s where a: "?run = (Inr [], s)" by (cases ?run) simp
  have 1: "rt_get_pipeline (demo_runtime ''code'') ''p0'' = Some (demo_at ''code'')"
    and 2: "\<not> is_terminal (demo_at ''code'')"
    and 3: "get_agent_def (rc_runbook demo_config) (demo_at ''code'') = Inr agent_def_default"
    and 4: "action (on_exit agent_def_default) = Escalate" and 5: "id (demo_at ''code'') = ''p0''"
    by (code_simp)+
  have wf: "state_wf (rt_state (demo_runtime ''code''))"
    by (auto simp: demo_runtime_def runtime_new_def state_wf_def state_default_def hm_wf_def
        hm_get_def demo_at_def pipeline_new_def split: if_splits)
  from escalate_and_resume [OF wf 1 2 3 4 a] a 5 show ?thesis by simp
qed

section \<open>The monitor and workspaces\<close>

lemma no_workspace_apply_create:
  assumes "no_workspace st" and "hm_get (pipelines st) i = None"
    and "prefix (map snd tops) [WorkspaceCreate i pth br, PipelineCreate i k n ins ph]"
  shows "no_workspace (apply_all tops st)"
proof -
  from assms(3) consider "tops = []" | t where "tops = [(t, WorkspaceCreate i pth br)]"
    | t t' where "tops = [(t, WorkspaceCreate i pth br), (t', PipelineCreate i k n ins ph)]"
    by (auto simp: prefix_Cons map_eq_Cons_conv)
  then show ?thesis
    using assms(1,2) by cases (auto simp: no_workspace_def pipeline_new_def split: if_splits)
qed

lemma create_no_workspace:
  assumes nw: "no_workspace (rt_state r)" and fresh: "hm_get (pipelines (rt_state r)) pid = None"
  shows "no_workspace (rt_state (snd (run_effects cfg (create_effects pid knd nm args d ph) r)))"
proof -
  obtain res y where e: "execute_all (rc_host cfg) (create_effects pid knd nm args d ph)
      (rt_executor r) = (res, y)" by fastforce
  from execute_all_applies [OF e] obtain tops where
    "prefix (map snd tops) [WorkspaceCreate pid d (''feature/'' @ nm), PipelineCreate pid knd nm args ph]"
    "ex_state y = apply_all tops (rt_state r)" by auto
  with no_workspace_apply_create [OF nw fresh] have "no_workspace (ex_state y)" by simp
  then show ?thesis
    using e by (auto simp: run_effects_def on_executor_def map_err_def on_part_def split: sum.split)
qed

lemma command_no_workspace:
  assumes nw: "no_workspace (rt_state r)"
    and fresh: "hm_get (pipelines (rt_state r)) (fst (h_next_id (rc_host cfg) (rt_world r))) = None"
  shows "no_workspace (rt_state (snd (handle_command cfg command args r)))"
proof -
  obtain pid w where i: "h_next_id (rc_host cfg) (rt_world r) = (pid, w)" by fastforce
  let ?u = "r\<lparr>rt_executor := (rt_executor r)\<lparr>ex_world := w\<rparr>\<rparr>"
  have u: "no_workspace (rt_state ?u)" "hm_get (pipelines (rt_state ?u)) pid = None"
    using nw fresh i by simp_all
  have start: "no_workspace (rt_state (snd (start_phase cfg q ph ins d v)))"
    if "no_workspace (rt_state v)" for q ph ins d v
    using bare_rt.start_phase_I [of cfg q ph ins d] that by (simp add: preserves_def)
  have cr: "no_workspace (rt_state v)"
    if "run_effects cfg (create_effects pid knd nm args d ph) ?u = (res, v)" for knd nm d ph res v
    using create_no_workspace [OF u, of cfg knd nm args d ph] that by simp
  have "no_workspace (rt_state (snd (create_pipeline cfg knd args r)))" for knd
    using nw i cr start
    by (auto simp: create_pipeline_def next_id_def bind_def ok_or_def ok_def fail_def Let_def
        split: option.split prod.split sum.split) (metis snd_conv)+
  then show ?thesis
    using nw by (auto simp: handle_command_def bind_def ok_or_def ok_def fail_def
        split: option.split run_directive.split)
qed

text \<open>C33: as long as the id generator gives fresh ids, no event ever records a workspace in a pipeline;
  and while none is recorded, the timer that monitors an agent always ends in the error
  \<open>no workspace\<close> and changes nothing: it neither looks for a log nor sets itself again.\<close>

theorem monitor_finds_no_workspace:
  assumes "no_workspace (rt_state r)" and "state_wf (rt_state r)"
    and "hm_get (pipelines (rt_state r)) (fst (h_next_id (rc_host cfg) (rt_world r))) = None"
  shows "no_workspace (rt_state (snd (handle_event cfg e r))) \<and>
    (\<forall>pid p ag. rt_get_pipeline r pid = Some p \<longrightarrow> \<not> is_terminal p \<longrightarrow>
       get_agent_def (rc_runbook cfg) p = Inr ag \<longrightarrow>
       handle_event cfg (Timer (check_timer pid)) r = (Inl (PipelineNotFound ''no workspace''), r))"
proof (intro conjI allI impI)
  show "no_workspace (rt_state (snd (handle_event cfg e r)))"
  proof (cases "\<exists>c args. e = CommandInvoked c args")
    case True
    then show ?thesis using command_no_workspace [OF assms(1,3)] by (auto simp: handle_event_def)
  next
    case False
    then show ?thesis
      using bare_rt.handle_event_phase_I [of e cfg] assms(1) by (auto simp: preserves_def)
  qed
next
  fix pid p ag
  assume p: "rt_get_pipeline r pid = Some p" "\<not> is_terminal p"
    and ag: "get_agent_def (rc_runbook cfg) p = Inr ag"
  have "hm_get (pipelines (rt_state r)) (id p) = Some p"
    using get_pipeline_key [OF assms(2)] p(1) by (simp add: rt_get_pipeline_def)
  then have w: "workspace_path p = None" using assms(1) by (auto simp: no_workspace_def)
  have t: "starts_with (check_timer pid) ''session:''" "ends_with (check_timer pid) '':check''"
    unfolding check_timer_def using starts_with_append ends_with_append [of "''session:'' @ pid" "'':check''"]
    by simp_all
  have i: "Option.bind (strip_prefix (check_timer pid) ''session:'') (\<lambda>s. strip_suffix s '':check'') = Some pid"
    unfolding check_timer_def by (subst strip_prefix_append) (simp add: strip_suffix_append)
  show "handle_event cfg (Timer (check_timer pid)) r = (Inl (PipelineNotFound ''no workspace''), r)"
    using p ag w
    by (simp add: handle_event_def handle_timer_def t i handle_session_monitor_def lookup_pipeline_def
        comp_defs)
qed

theorem monitor_finds_no_workspace_witness:
  "handle_event demo_config (Timer ''session:p0:check'') (demo_runtime ''code'') =
     (Inl (PipelineNotFound ''no workspace''), demo_runtime ''code'')"
proof -
  have nw: "no_workspace (rt_state (demo_runtime ''code''))"
    and wf: "state_wf (rt_state (demo_runtime ''code''))"
    by (auto simp: demo_runtime_def runtime_new_def state_wf_def state_default_def hm_wf_def
        hm_get_def demo_at_def pipeline_new_def no_workspace_def split: if_splits)
  have 1: "rt_get_pipeline (demo_runtime ''code'') ''p0'' = Some (demo_at ''code'')"
    and 2: "\<not> is_terminal (demo_at ''code'')"
    and 3: "get_agent_def (rc_runbook demo_config) (demo_at ''code'') = Inr agent_def_default"
    and 4: "check_timer ''p0'' = ''session:p0:check''"
    and 5: "hm_get (pipelines (rt_state (demo_runtime ''code'')))
      (fst (h_next_id (rc_host demo_config) (rt_world (demo_runtime ''code'')))) = None"
    by (code_simp)+
  from monitor_finds_no_workspace [OF nw wf 5] 1 2 3
  have "handle_event demo_config (Timer (check_timer ''p0'')) (demo_runtime ''code'') =
      (Inl (PipelineNotFound ''no workspace''), demo_runtime ''code'')" by blast
  then show ?thesis unfolding 4 .
qed

end
