(* ===== verification/Event_Loop.thy ===== *)
theory Event_Loop
  imports Monitor_Properties
begin

text \<open>
  The daemon's state and its processing of events (\<open>crates/daemon/src/lifecycle.rs\<close>): the loop that
  feeds the events of the runtime back into it, the heartbeat that fires timers and the periodic check
  of sessions. The loop may run forever, so it is a partial function whose value \<open>None\<close> means that it
  does not return. The configuration of the runtime is an argument, as in \<open>Runtime\<close>.
\<close>

section \<open>The daemon\<close>

record daemon_config =
  dc_project_root :: path
  dc_socket_path :: path
  dc_lock_path :: path
  dc_version_path :: path
  dc_log_path :: path
  dc_wal_path :: path
  dc_workspaces_path :: path

record 'w daemon =
  dm_config :: daemon_config
  dm_runtime :: "'w runtime"
  dm_scheduler :: scheduler
  dm_start_time :: instant
  dm_shutdown_requested :: bool

datatype lifecycle_error =
    ProjectNotFound path io_error
  | NoStateDir
  | LockFailed io_error
  | BindFailed path io_error
  | LifecycleWal wal_error
  | LifecycleIo io_error
  | RunbookParse string
  | RuntimeFailed string

fun show_lifecycle_error :: "lifecycle_error \<Rightarrow> string" where
  "show_lifecycle_error (ProjectNotFound p e) =
     ''Project not found at '' @ p @ '': '' @ io_message e"
| "show_lifecycle_error NoStateDir = ''Could not determine state directory''"
| "show_lifecycle_error (LockFailed e) = ''Failed to acquire lock: daemon already running?''"
| "show_lifecycle_error (BindFailed p e) =
     ''Failed to bind socket at '' @ p @ '': '' @ io_message e"
| "show_lifecycle_error (LifecycleWal e) = ''WAL error: '' @ show_wal_error e"
| "show_lifecycle_error (LifecycleIo e) = ''IO error: '' @ io_message e"
| "show_lifecycle_error (RunbookParse s) = ''Runbook parse error: '' @ s"
| "show_lifecycle_error (RuntimeFailed s) = ''Runtime error: '' @ s"

section \<open>The event loop\<close>

partial_function (option) process_events ::
  "'w runtime_config \<Rightarrow> event list \<Rightarrow> 'w runtime \<Rightarrow> ((lifecycle_error + unit) \<times> 'w runtime) option"
where
  "process_events cfg pending r =
     (if pending = [] then Some (Inr (), r)
      else (case handle_event cfg (last pending) r of
              (Inl e, s) \<Rightarrow> Some (Inl (RuntimeFailed (show_runtime_error e)), s)
            | (Inr evs, s) \<Rightarrow> process_events cfg (butlast pending @ evs) s))"

definition process_event ::
  "'w runtime_config \<Rightarrow> event \<Rightarrow> 'w daemon \<Rightarrow> ((lifecycle_error + unit) \<times> 'w daemon) option" where
  "process_event cfg e d =
     (case process_events cfg [e] (dm_runtime d) of
        None \<Rightarrow> None
      | Some (res, r) \<Rightarrow> Some (res, d\<lparr>dm_runtime := r\<rparr>))"

fun process_all ::
  "'w runtime_config \<Rightarrow> event list \<Rightarrow> 'w daemon \<Rightarrow> ((lifecycle_error + unit) \<times> 'w daemon) option" where
  "process_all cfg [] d = Some (Inr (), d)"
| "process_all cfg (e # es) d =
     (case process_event cfg e d of
        None \<Rightarrow> None
      | Some (Inl err, d1) \<Rightarrow> Some (Inl err, d1)
      | Some (Inr _, d1) \<Rightarrow> process_all cfg es d1)"

definition set_world :: "'w \<Rightarrow> 'w daemon \<Rightarrow> 'w daemon" where
  "set_world w d =
     d\<lparr>dm_runtime := (dm_runtime d)\<lparr>rt_executor := (rt_executor (dm_runtime d))\<lparr>ex_world := w\<rparr>\<rparr>\<rparr>"

definition check_heartbeats ::
  "'w runtime_config \<Rightarrow> 'w daemon \<Rightarrow> ((lifecycle_error + unit) \<times> 'w daemon) option" where
  "check_heartbeats cfg d =
     (case h_now (rc_host cfg) (rt_world (dm_runtime d)) of
        (now, w) \<Rightarrow>
          (case fired_timers now (dm_scheduler d) of
             (timer_events, s) \<Rightarrow>
               process_all cfg timer_events (set_world w d\<lparr>dm_scheduler := s\<rparr>)))"

section \<open>Checking sessions\<close>

datatype session_event = TmuxExited string | ClaudeExited string

definition check_session ::
  "'w session_adapter \<Rightarrow> pipeline \<Rightarrow> 'w \<Rightarrow> session_event list \<times> 'w" where
  "check_session a p w =
     (if is_terminal p then ([], w)
      else (case session_id p of
              None \<Rightarrow> ([], w)
            | Some sid \<Rightarrow>
                (case sess_is_alive a sid w of
                   (Inr False, w1) \<Rightarrow> ([TmuxExited (id p)], w1)
                 | (Inl _, w1) \<Rightarrow> ([], w1)
                 | (Inr True, w1) \<Rightarrow>
                     (case sess_is_process_running a sid ''claude'' w1 of
                        (Inr False, w2) \<Rightarrow> ([ClaudeExited (id p)], w2)
                      | (Inr True, w2) \<Rightarrow> ([], w2)
                      | (Inl _, w2) \<Rightarrow> ([], w2)))))"

fun check_each ::
  "'w session_adapter \<Rightarrow> pipeline list \<Rightarrow> 'w \<Rightarrow> session_event list \<times> 'w" where
  "check_each a [] w = ([], w)"
| "check_each a (p # ps) w =
     (case check_session a p w of
        (es, w1) \<Rightarrow> (case check_each a ps w1 of (es', w2) \<Rightarrow> (es @ es', w2)))"

definition check_sessions ::
  "'w session_adapter \<Rightarrow> materialized_state \<Rightarrow> 'w \<Rightarrow> session_event list \<times> 'w" where
  "check_sessions a st w = check_each a (map snd (pipelines st)) w"

text \<open>The periodic check of the main loop: each session event goes to its handler, errors are logged.\<close>

fun dispatch_session_events ::
  "'w runtime_config \<Rightarrow> session_event list \<Rightarrow> 'w runtime \<Rightarrow> 'w runtime" where
  "dispatch_session_events cfg [] r = r"
| "dispatch_session_events cfg (TmuxExited pid # es) r =
     dispatch_session_events cfg es (snd (handle_tmux_exited cfg pid r))"
| "dispatch_session_events cfg (ClaudeExited pid # es) r =
     dispatch_session_events cfg es (snd (handle_claude_exited cfg pid r))"

definition run_session_check ::
  "'w runtime_config \<Rightarrow> 'w session_adapter \<Rightarrow> 'w daemon \<Rightarrow> 'w daemon" where
  "run_session_check cfg tmux d =
     (case check_sessions tmux (rt_state (dm_runtime d)) (rt_world (dm_runtime d)) of
        (es, w) \<Rightarrow>
          (let d1 = set_world w d
           in d1\<lparr>dm_runtime := dispatch_session_events cfg es (dm_runtime d1)\<rparr>))"

section \<open>Termination of the event loop\<close>

text \<open>A definition is forward when every explicit successor and every failure phase that exists stands
  after the phase that names it.\<close>

definition forward :: "pipeline_def \<Rightarrow> bool" where
  "forward d \<longleftrightarrow> distinct (map ph_name (pl_phases d)) \<and>
     (\<forall>i < length (pl_phases d). \<forall>j < length (pl_phases d).
        ph_next (pl_phases d ! i) = Some (ph_name (pl_phases d ! j)) \<or>
        ph_on_fail (pl_phases d ! i) = Some (ph_name (pl_phases d ! j)) \<longrightarrow> i < j)"

definition forward_runbook :: "runbook \<Rightarrow> bool" where
  "forward_runbook rb \<longleftrightarrow> (\<forall>k d. get_pipeline_def rb k = Some d \<longrightarrow> forward d)"

text \<open>How many phases lie after the phase a pipeline is in.\<close>

definition phases_left :: "runbook \<Rightarrow> pipeline \<Rightarrow> nat" where
  "phases_left rb p =
     (case get_pipeline_def rb (kind p) of
        None \<Rightarrow> 0
      | Some d \<Rightarrow>
          (case position (\<lambda>ph. ph_name ph = phase p) (pl_phases d) of
             None \<Rightarrow> 0
           | Some i \<Rightarrow> length (pl_phases d) - i))"

lemma get_phase_index:
  assumes "get_phase d n = Some phd"
  obtains i where "i < length (pl_phases d)" "pl_phases d ! i = phd" "ph_name phd = n"
  using assms by (auto simp: get_phase_def find_Some_iff)

lemma phases_left_at:
  assumes "get_pipeline_def rb (kind p) = Some d" and "distinct (map ph_name (pl_phases d))"
    and "i < length (pl_phases d)" and "phase p = ph_name (pl_phases d ! i)"
  shows "phases_left rb p = length (pl_phases d) - i"
  using assms position_nth [OF assms(2,3)] by (simp add: phases_left_def)

lemma forward_decreases:
  assumes d: "get_pipeline_def rb (kind p) = Some d" "forward d"
    and ph: "get_phase d (phase p) = Some a" and n: "get_phase d n = Some b"
    and step: "ph_next a = Some n \<or> ph_on_fail a = Some n \<or>
      (ph_next a = None \<and> map_option ph_name (next_phase d (phase p)) = Some n)"
    and q: "kind q = kind p" "phase q = n"
  shows "phases_left rb q < phases_left rb p"
proof -
  from ph obtain i where i: "i < length (pl_phases d)" "pl_phases d ! i = a" "ph_name a = phase p"
    by (rule get_phase_index)
  from n obtain j where j: "j < length (pl_phases d)" "pl_phases d ! j = b" "ph_name b = n"
    by (rule get_phase_index)
  have dist: "distinct (map ph_name (pl_phases d))" using d(2) by (simp add: forward_def)
  have "i < j"
  proof (cases "ph_next a = Some n \<or> ph_on_fail a = Some n")
    case True
    then have "ph_next (pl_phases d ! i) = Some (ph_name (pl_phases d ! j)) \<or>
        ph_on_fail (pl_phases d ! i) = Some (ph_name (pl_phases d ! j))"
      by (simp only: i j)
    with d(2) i(1) j(1) show ?thesis unfolding forward_def by blast
  next
    case False
    with step have none: "ph_next a = None" and
      nx: "map_option ph_name (next_phase d (phase p)) = Some n" by auto
    have "position (\<lambda>x. ph_name x = phase p) (pl_phases d) = Some i"
      using position_nth [OF dist i(1)] i(2,3) by simp
    with nx ph none have "i + 1 < length (pl_phases d)" "ph_name (pl_phases d ! (i + 1)) = n"
      by (auto simp: next_phase_def split: if_splits)
    with nth_eq_iff_index_eq [OF dist, of j "i + 1"] j show ?thesis by simp
  qed
  moreover have "phases_left rb p = length (pl_phases d) - i"
    by (rule phases_left_at [OF d(1) dist i(1)]) (simp add: i)
  moreover have "phases_left rb q = length (pl_phases d) - j"
    by (rule phases_left_at [OF _ dist j(1)]) (simp_all add: q d j)
  ultimately show ?thesis using j(1) by simp
qed

text \<open>A phase that is entered belongs to the definition of the pipeline's kind.\<close>

lemma move_event:
  assumes p: "hm_get (pipelines (rt_state r)) (id p) = Some p"
    and t: "run_effects cfg effs r = (Inr evs1, u)" "persisted effs = [PipelineTransition (id p) n]"
      "\<forall>e \<in> set effs. \<not> is_shell_effect e"
    and st: "start_phase cfg (id p) n ins d u = (Inr evs2, s)"
  shows "\<exists>df b q. get_pipeline_def (rc_runbook cfg) (kind p) = Some df \<and> get_phase df n = Some b \<and>
    hm_get (pipelines (rt_state s)) (id p) = Some q \<and> kind q = kind p \<and> phase q = n \<and>
    (evs1 @ evs2 = [] \<or> (\<exists>code. evs1 @ evs2 = [ShellCompleted (id p) n code]))"
proof -
  have "applies [PipelineTransition (id p) n] r u" using run_effects_applies [OF t(1)] t(2) by simp
  then have "hm_get (pipelines (rt_state u)) (id p) = Some (p\<lparr>phase := n, status := Pending\<rparr>)"
    using p by (auto simp: applies_def)
  with start_phase_applies [OF st] obtain df b where
    "get_pipeline_def (rc_runbook cfg) (kind p) = Some df" "get_phase df n = Some b" by auto
  with move_to_phase [OF assms] show ?thesis by auto
qed

definition smaller_event ::
  "runbook \<Rightarrow> pipeline \<Rightarrow> event list \<Rightarrow> 'w runtime \<Rightarrow> bool" where
  "smaller_event rb p evs s \<longleftrightarrow> evs = [] \<or>
     (\<exists>q code. evs = [ShellCompleted (id p) (phase q) code] \<and>
        hm_get (pipelines (rt_state s)) (id p) = Some q \<and> phases_left rb q < phases_left rb p)"

lemma advance_smaller:
  assumes fw: "forward_runbook (rc_runbook cfg)"
    and p: "hm_get (pipelines (rt_state r)) (id p) = Some p"
    and adv: "advance_pipeline cfg p r = (Inr evs, s)"
  shows "smaller_event (rc_runbook cfg) p evs s"
proof -
  have none: "evs1 @ evs2 = []" if "run_effects cfg (phase_transition_effects p n) r = (Inr evs1, u)"
    "complete_pipeline cfg p u = (Inr evs2, s)" for n u evs1 evs2
    using run_effects_no_events [OF that(1) no_shell_effects(2)] complete_applies(2) [OF that(2)] by simp
  from adv consider "complete_pipeline cfg p r = (Inr evs, s)"
    | n u evs1 evs2 where "run_effects cfg (phase_transition_effects p n) r = (Inr evs1, u)"
      "complete_pipeline cfg p u = (Inr evs2, s)" "evs = evs1 @ evs2"
    | n u evs1 evs2 where "next_phase_name (rc_runbook cfg) p = Some n"
      "run_effects cfg (phase_transition_effects p n) r = (Inr evs1, u)"
      "start_phase cfg (id p) n (inputs p) (workspace_path_of cfg p) u = (Inr evs2, s)"
      "evs = evs1 @ evs2"
    by (auto simp: advance_pipeline_def bind_Inr split: if_splits option.splits)
  then show ?thesis
  proof cases
    case 1
    then show ?thesis using complete_applies(2) [OF 1] by (simp add: smaller_event_def)
  next
    case 2
    then show ?thesis using none by (simp add: smaller_event_def)
  next
    case 3
    from move_event [OF p 3(2) persisted_lists(2) no_shell_effects(2) 3(3)]
    obtain df b q where m: "get_pipeline_def (rc_runbook cfg) (kind p) = Some df" "get_phase df n = Some b"
      "hm_get (pipelines (rt_state s)) (id p) = Some q" "kind q = kind p" "phase q = n"
      "evs = [] \<or> (\<exists>code. evs = [ShellCompleted (id p) n code])"
      using 3(4) by blast
    from 3(1) m(1) obtain a where a: "get_phase df (phase p) = Some a"
      "ph_next a = Some n \<or> (ph_next a = None \<and> map_option ph_name (next_phase df (phase p)) = Some n)"
      by (auto simp: next_phase_name_def split: option.splits)
    have "phases_left (rc_runbook cfg) q < phases_left (rc_runbook cfg) p"
      by (rule forward_decreases [OF m(1) _ a(1) m(2) _ m(4,5)])
        (use fw m(1) a(2) in \<open>auto simp: forward_runbook_def\<close>)
    with m show ?thesis by (auto simp: smaller_event_def)
  qed
qed

lemma fail_smaller:
  assumes fw: "forward_runbook (rc_runbook cfg)"
    and p: "hm_get (pipelines (rt_state r)) (id p) = Some p"
    and f: "fail_pipeline cfg p err r = (Inr evs, s)"
  shows "smaller_event (rc_runbook cfg) p evs s"
proof (cases "on_fail_phase (rc_runbook cfg) p")
  case None
  with f have "run_effects cfg (failure_effects p err) r = (Inr evs, s)"
    by (simp add: fail_pipeline_def)
  from run_effects_no_events [OF this no_shell_effects(4)] show ?thesis
    by (simp add: smaller_event_def)
next
  case (Some n)
  with f obtain evs1 evs2 u where
    1: "run_effects cfg (failure_transition_effects p n err) r = (Inr evs1, u)" and
    2: "start_phase cfg (id p) n (inputs p) (workspace_path_of cfg p) u = (Inr evs2, s)" and
    evs: "evs = evs1 @ evs2"
    by (auto simp: fail_pipeline_def bind_Inr)
  from move_event [OF p 1 persisted_lists(3) no_shell_effects(3) 2]
  obtain df b q where m: "get_pipeline_def (rc_runbook cfg) (kind p) = Some df" "get_phase df n = Some b"
    "hm_get (pipelines (rt_state s)) (id p) = Some q" "kind q = kind p" "phase q = n"
    "evs = [] \<or> (\<exists>code. evs = [ShellCompleted (id p) n code])"
    using evs by blast
  from Some m(1) obtain a where a: "get_phase df (phase p) = Some a" "ph_on_fail a = Some n"
    by (auto simp: on_fail_phase_def split: option.splits)
  have "phases_left (rc_runbook cfg) q < phases_left (rc_runbook cfg) p"
    by (rule forward_decreases [OF m(1) _ a(1) m(2) _ m(4,5)])
      (use fw m(1) a(2) in \<open>auto simp: forward_runbook_def\<close>)
  with m show ?thesis by (auto simp: smaller_event_def)
qed

lemma shell_completed_smaller:
  assumes fw: "forward_runbook (rc_runbook cfg)"
    and wf: "state_wf (rt_state r)" and p: "hm_get (pipelines (rt_state r)) pid = Some p"
    and e: "handle_event cfg (ShellCompleted pid ph code) r = (Inr evs, s)"
  shows "smaller_event (rc_runbook cfg) p evs s"
proof -
  have i: "id p = pid" by (rule state_wf_pipelineD [OF wf p])
  with p have p': "hm_get (pipelines (rt_state r)) (id p) = Some p" by simp
  show ?thesis
    using e advance_smaller [OF fw p'] fail_smaller [OF fw p']
    by (auto simp: shell_completed_eq [OF p] smaller_event_def split: if_splits)
qed

lemma handle_event_wf:
  "state_wf (rt_state r) \<Longrightarrow> handle_event cfg e r = (res, s) \<Longrightarrow> state_wf (rt_state s)"
  using wf_rt.handle_event_I [of cfg e] by (auto simp: preserves_def)

lemma process_shell_returns:
  assumes fw: "forward_runbook (rc_runbook cfg)"
  shows "state_wf (rt_state r) \<Longrightarrow> hm_get (pipelines (rt_state r)) pid = Some p \<Longrightarrow>
    \<exists>y. process_events cfg [ShellCompleted pid ph code] r = Some y"
proof (induction "phases_left (rc_runbook cfg) p" arbitrary: p r ph code rule: less_induct)
  case less
  obtain res s where e: "handle_event cfg (ShellCompleted pid ph code) r = (res, s)" by fastforce
  have i: "id p = pid" by (rule state_wf_pipelineD [OF less.prems])
  show ?case
  proof (cases res)
    case (Inl err)
    with e show ?thesis by (subst process_events.simps) simp
  next
    case (Inr evs)
    from shell_completed_smaller [OF fw less.prems e [unfolded Inr]]
    consider "evs = []" | q code' where "evs = [ShellCompleted pid (phase q) code']"
      "hm_get (pipelines (rt_state s)) pid = Some q"
      "phases_left (rc_runbook cfg) q < phases_left (rc_runbook cfg) p"
      by (auto simp: smaller_event_def i)
    then show ?thesis
    proof cases
      case 1
      with e Inr show ?thesis by (subst process_events.simps) (simp add: process_events.simps)
    next
      case 2
      from less.hyps [OF 2(3) handle_event_wf [OF less.prems(1) e] 2(2)]
      show ?thesis using e Inr 2(1) by (subst process_events.simps) simp
    qed
  qed
qed

end
