(* ===== verification/Loop_Properties.thy ===== *)
theory Loop_Properties
  imports Event_Loop
begin

text \<open>
  When the event loop returns; \<open>Pipeline_Liveness\<close> shows that it may not.
\<close>

section \<open>Termination\<close>

text \<open>C4: if in every pipeline of the runbook the explicit next phases and the failure phases lie
  further down than the phases that name them, then the processing of any event returns, with success
  or with an error, whatever the host does.\<close>

theorem process_event_returns:
  assumes "forward_runbook (rc_runbook cfg)" and "state_wf (rt_state (dm_runtime d))"
  shows "\<exists>res d'. process_event cfg e d = Some (res, d')"
proof -
  let ?r = "dm_runtime d"
  obtain res s where e: "handle_event cfg e ?r = (res, s)" by fastforce
  have "\<exists>y. process_events cfg [e] ?r = Some y"
  proof (cases res)
    case (Inl err)
    with e show ?thesis by (subst process_events.simps) simp
  next
    case (Inr evs)
    from handle_event_current [OF assms(2) e [unfolded Inr]]
    consider "evs = []" | p code where "evs = [ShellCompleted (id p) (phase p) code]"
      "hm_get (pipelines (rt_state s)) (id p) = Some p"
      by (auto simp: current_event_def)
    then show ?thesis
    proof cases
      case 1
      with e Inr show ?thesis by (subst process_events.simps) (simp add: process_events.simps)
    next
      case 2
      from process_shell_returns [OF assms(1) handle_event_wf [OF assms(2) e] 2(2)]
      show ?thesis using e Inr 2(1) by (subst process_events.simps) simp
    qed
  qed
  then show ?thesis by (auto simp: process_event_def)
qed

definition daemon_of :: "'w runtime \<Rightarrow> 'w daemon" where
  "daemon_of r =
     \<lparr>dm_config = \<lparr>dc_project_root = ''/p'', dc_socket_path = ''/s/d.sock'',
        dc_lock_path = ''/s/daemon.pid'', dc_version_path = ''/s/daemon.version'',
        dc_log_path = ''/s/daemon.log'', dc_wal_path = ''/s/wal/events.wal'',
        dc_workspaces_path = ''/w''\<rparr>,
      dm_runtime = r, dm_scheduler = scheduler_new, dm_start_time = 0,
      dm_shutdown_requested = False\<rparr>"

lemma demo_runbook_forward: "forward_runbook demo_runbook"
  by (auto simp: forward_runbook_def forward_def get_pipeline_def_def demo_runbook_def hm_get_def
      less_Suc_eq split: if_splits)

theorem process_event_returns_witness:
  "\<exists>res d'. process_event demo_config (CommandInvoked ''build'' []) (daemon_of fresh_runtime) =
     Some (res, d')"
proof -
  have 1: "forward_runbook (rc_runbook demo_config)" by (simp add: demo_config_def demo_runbook_forward)
  have 2: "state_wf (rt_state (dm_runtime (daemon_of fresh_runtime)))"
    by (simp add: daemon_of_def fresh_runtime_def runtime_new_def)
  show ?thesis using process_event_returns [OF 1 2] by blast
qed

lemmas plain_host_defs = plain_host_def quiet_host_def noop_session_def noop_repo_def noop_notify_def

end
