(* ===== verification/Workflow.thy ===== *)
theory Workflow
  imports Loop_Properties
begin

text \<open>
  The workflow of a pipeline as an abstract machine, and the proof that the runtime implements it. A
  configuration of the machine is a phase and a status; its steps are the edges of the runbook. The
  relation \<open>follows\<close> says that every pipeline of a later state got there by steps of the machine.
\<close>

section \<open>The machine\<close>

text \<open>The two phases a phase leads to: when it succeeds and when it fails.\<close>

definition success_target :: "runbook \<Rightarrow> string \<Rightarrow> string \<Rightarrow> string" where
  "success_target rb k a =
     (case Option.bind (get_pipeline_def rb k) (\<lambda>d. get_phase d a) of
        None \<Rightarrow> ''done''
      | Some phd \<Rightarrow>
          (case ph_next phd of
             Some n \<Rightarrow> n
           | None \<Rightarrow>
               (case Option.bind (get_pipeline_def rb k) (\<lambda>d. next_phase d a) of
                  Some b \<Rightarrow> ph_name b | None \<Rightarrow> ''done'')))"

definition failure_target :: "runbook \<Rightarrow> string \<Rightarrow> string \<Rightarrow> string" where
  "failure_target rb k a =
     (case Option.bind (Option.bind (get_pipeline_def rb k) (\<lambda>d. get_phase d a)) ph_on_fail of
        None \<Rightarrow> ''failed'' | Some n \<Rightarrow> n)"

definition initial_phase :: "pipeline_def \<Rightarrow> string" where
  "initial_phase d = (case first_phase d of Some ph \<Rightarrow> ph_name ph | None \<Rightarrow> ''init'')"

definition agent_phase :: "runbook \<Rightarrow> string \<Rightarrow> string \<Rightarrow> bool" where
  "agent_phase rb k a \<longleftrightarrow>
     (case Option.bind (get_pipeline_def rb k) (\<lambda>d. get_phase d a) of
        None \<Rightarrow> False | Some phd \<Rightarrow> is_agent (ph_run phd))"

definition terminal :: "string \<Rightarrow> bool" where
  "terminal a \<longleftrightarrow> a = ''done'' \<or> a = ''failed''"

text \<open>A phase is entered, runs, waits for the user if it is that of an agent, and a terminal phase is
  completed. There is no status of failure.\<close>

inductive workflow_step ::
  "runbook \<Rightarrow> string \<Rightarrow> string \<times> phase_status \<Rightarrow> string \<times> phase_status \<Rightarrow> bool" for rb k where
  succeed: "workflow_step rb k (a, st) (success_target rb k a, Pending)"
| fail: "workflow_step rb k (a, st) (failure_target rb k a, Pending)"
| run: "workflow_step rb k (a, st) (a, Running)"
| wait: "agent_phase rb k a \<Longrightarrow> \<not> terminal a \<Longrightarrow> workflow_step rb k (a, st) (a, Waiting)"
| complete: "terminal a \<Longrightarrow> workflow_step rb k (a, st) (a, Completed)"

inductive_cases workflow_stepE: "workflow_step rb k (a, st) (b, st')"

abbreviation workflow_run ::
  "runbook \<Rightarrow> string \<Rightarrow> string \<times> phase_status \<Rightarrow> string \<times> phase_status \<Rightarrow> bool" where
  "workflow_run rb k \<equiv> (workflow_step rb k)\<^sup>*\<^sup>*"

section \<open>States that follow the machine\<close>

text \<open>Every pipeline of the second state continues one of the first, or has started since.\<close>

definition continues :: "runbook \<Rightarrow> pipeline \<Rightarrow> pipeline \<Rightarrow> bool" where
  "continues rb p q \<longleftrightarrow> name q = name p \<and> kind q = kind p \<and> inputs q = inputs p \<and>
     workflow_run rb (kind p) (phase p, status p) (phase q, status q)"

definition started :: "runbook \<Rightarrow> pipeline \<Rightarrow> bool" where
  "started rb q \<longleftrightarrow> (\<exists>d. get_pipeline_def rb (kind q) = Some d \<and>
     workflow_run rb (kind q) (initial_phase d, Pending) (phase q, status q))"

definition follows :: "runbook \<Rightarrow> materialized_state \<Rightarrow> materialized_state \<Rightarrow> bool" where
  "follows rb st st' \<longleftrightarrow> (\<forall>i q. hm_get (pipelines st') i = Some q \<longrightarrow>
     (\<exists>p. hm_get (pipelines st) i = Some p \<and> continues rb p q) \<or> started rb q)"

lemma continues_refl [simp]: "continues rb p p"
  by (simp add: continues_def)

lemma continues_trans: "continues rb p q \<Longrightarrow> continues rb q r \<Longrightarrow> continues rb p r"
  by (auto simp: continues_def)

lemma started_continues: "started rb p \<Longrightarrow> continues rb p q \<Longrightarrow> started rb q"
  by (auto simp: started_def continues_def)

lemma follows_refl: "pipelines st' = pipelines st \<Longrightarrow> follows rb st st'"
  by (auto simp: follows_def)

lemma follows_trans [trans]: "follows rb a b \<Longrightarrow> follows rb b c \<Longrightarrow> follows rb a c"
  unfolding follows_def by (meson continues_trans started_continues)

text \<open>What an operation may do in a state.\<close>

fun permitted :: "runbook \<Rightarrow> materialized_state \<Rightarrow> operation \<Rightarrow> bool" where
  "permitted rb st (PipelineCreate i k n ins ph) \<longleftrightarrow>
     (\<exists>d. get_pipeline_def rb k = Some d \<and> ph = initial_phase d)"
| "permitted rb st (PipelineTransition i n) \<longleftrightarrow>
     (\<forall>p. hm_get (pipelines st) i = Some p \<longrightarrow>
        n = success_target rb (kind p) (phase p) \<or> n = failure_target rb (kind p) (phase p) \<or>
        (n = phase p \<and> status p = Pending))"
| "permitted rb st (PhaseStatusUpdate i s) \<longleftrightarrow>
     s = Running \<or> (\<forall>p. hm_get (pipelines st) i = Some p \<longrightarrow>
        (s = Waiting \<and> agent_phase rb (kind p) (phase p) \<and> \<not> terminal (phase p)) \<or>
        (s = Completed \<and> terminal (phase p)))"
| "permitted rb st (PipelineDelete i) \<longleftrightarrow> False"
| "permitted rb st _ \<longleftrightarrow> True"

fun permitted_all :: "runbook \<Rightarrow> materialized_state \<Rightarrow> operation list \<Rightarrow> bool" where
  "permitted_all rb st [] \<longleftrightarrow> True"
| "permitted_all rb st (op # ops) \<longleftrightarrow>
     permitted rb st op \<and> (\<forall>now. permitted_all rb (apply_op now op st) ops)"

lemma continues_step:
  "workflow_step rb (kind p) (phase p, status p) (ph, s) \<Longrightarrow> continues rb p (p\<lparr>phase := ph, status := s\<rparr>)"
  by (simp add: continues_def r_into_rtranclp)

lemma continues_status:
  "workflow_step rb (kind p) (phase p, status p) (phase p, s) \<Longrightarrow> continues rb p (p\<lparr>status := s\<rparr>)"
  by (simp add: continues_def r_into_rtranclp)

text \<open>A pipeline that is there goes on, unless it is created again.\<close>

lemma permitted_continues:
  assumes "permitted rb st op" and p: "hm_get (pipelines st) i = Some p"
    and "\<And>k n ins ph. op \<noteq> PipelineCreate i k n ins ph"
  shows "\<exists>q. hm_get (pipelines (apply_op now op st)) i = Some q \<and> continues rb p q"
proof (cases op)
  case (PipelineTransition j n)
  have "continues rb p (p\<lparr>phase := n, status := Pending\<rparr>)" if "j = i"
  proof -
    from assms(1) p PipelineTransition that consider "n = success_target rb (kind p) (phase p)"
      | "n = failure_target rb (kind p) (phase p)" | "n = phase p" "status p = Pending" by auto
    then show ?thesis
    proof cases
      case 3
      then have "p\<lparr>phase := n, status := Pending\<rparr> = p" by simp
      then show ?thesis by simp
    qed (auto intro: continues_step workflow_step.intros)
  qed
  with p PipelineTransition show ?thesis by (cases "j = i") auto
next
  case (PhaseStatusUpdate j s)
  have "continues rb p (p\<lparr>status := s\<rparr>)" if "j = i"
    using assms(1) p PhaseStatusUpdate that
    by (auto intro!: continues_status intro: workflow_step.intros)
  with p PhaseStatusUpdate show ?thesis by (cases "j = i") auto
next
  case (WorkspaceCreate j d b)
  with p show ?thesis by (cases "j = i") (auto simp: continues_def)
qed (use assms in auto)

lemma permitted_follows:
  assumes "permitted rb st op"
  shows "follows rb st (apply_op now op st)"
  unfolding follows_def
proof (intro allI impI)
  fix i q
  assume q: "hm_get (pipelines (apply_op now op st)) i = Some q"
  show "(\<exists>p. hm_get (pipelines st) i = Some p \<and> continues rb p q) \<or> started rb q"
  proof (cases "\<exists>k n ins ph. op = PipelineCreate i k n ins ph")
    case True
    with assms q show ?thesis by (auto simp: started_def pipeline_new_def)
  next
    case False
    then have "hm_get (pipelines st) i \<noteq> None" using q by (cases op) (auto split: if_splits)
    with permitted_continues [OF assms, of i _ now] False q show ?thesis by fastforce
  qed
qed

lemma permitted_all_follows:
  "permitted_all rb st ops \<Longrightarrow> prefix (map snd tops) ops \<Longrightarrow> follows rb st (apply_all tops st)"
proof (induction tops arbitrary: st ops)
  case Nil
  show ?case by (simp add: follows_refl)
next
  case (Cons a tops)
  obtain now op where a: "a = (now, op)" by (cases a)
  with Cons.prems(2) obtain ops' where ops: "ops = op # ops'" "prefix (map snd tops) ops'"
    by (cases ops) auto
  with Cons.prems(1) have "follows rb st (apply_op now op st)"
    and "permitted_all rb (apply_op now op st) ops'" by (auto intro: permitted_follows)
  from follows_trans [OF this(1) Cons.IH [OF this(2) ops(2)]] show ?case by (simp add: a)
qed

section \<open>The runtime follows the machine\<close>

definition follows_from ::
  "('w executor \<Rightarrow> 'w executor \<Rightarrow> bool) \<Rightarrow> 'w runtime \<Rightarrow> ('w, 'a) handler \<Rightarrow> bool" where
  "follows_from R r m \<longleftrightarrow> R (rt_executor r) (rt_executor (snd (m r)))"

named_theorems follow_intros

lemma next_phase_target:
  "\<not> is_terminal p \<Longrightarrow> (case next_phase_name rb p of Some n \<Rightarrow> n | None \<Rightarrow> ''done'') =
     success_target rb (kind p) (phase p)"
  by (auto simp: next_phase_name_def success_target_def split: option.split)

lemma on_fail_target:
  "(case on_fail_phase rb p of Some n \<Rightarrow> n | None \<Rightarrow> ''failed'') = failure_target rb (kind p) (phase p)"
  by (auto simp: on_fail_phase_def failure_target_def split: option.split)

lemma is_terminal_iff: "is_terminal p \<longleftrightarrow> terminal (phase p)"
  by (simp add: is_terminal_def terminal_def)

lemma get_agent_def_phase: "get_agent_def rb p = Inr ag \<Longrightarrow> agent_phase rb (kind p) (phase p)"
  by (auto simp: get_agent_def_def agent_phase_def is_agent_def
      split: option.splits run_directive.splits)

lemma lookup_key:
  assumes "state_wf (rt_state r)" and "lookup_pipeline i r = (Inr p, u)"
  shows "u = r" and "hm_get (pipelines (rt_state r)) (id p) = Some p"
  using assms get_pipeline_key [OF assms(1)]
  by (auto simp: lookup_pipeline_def rt_get_pipeline_def bind_Inr)

lemma exact_key:
  assumes "state_wf (rt_state r)" and "exact_pipeline i r = (Inr p, u)"
  shows "u = r" and "hm_get (pipelines (rt_state r)) (id p) = Some p"
  using assms state_wf_pipelineD [OF assms(1)] by (auto simp: exact_pipeline_def bind_Inr)

lemma session_exit_unlinked:
  assumes "state_wf (rt_state r)" and "unlinked (rt_state r)"
  shows "handle_session_exit cfg sid code r = (Inr [], r)"
  using hm_find_session_unlinked [OF assms(2,1), of sid]
  by (simp add: handle_session_exit_def comp_defs)

text \<open>The id of a pipeline that is created is one that the id generator gives.\<close>

fun given_id :: "'w host \<Rightarrow> operation \<Rightarrow> bool" where
  "given_id h (PipelineCreate i k n ins ph) \<longleftrightarrow> (\<exists>w. i = fst (h_next_id h w))"
| "given_id h _ \<longleftrightarrow> True"

text \<open>A relation between executors that holds between one before and one after a permitted operation holds
  over every handler, as the handlers persist permitted operations only.\<close>

locale workflow_relation =
  fixes cfg :: "'w runtime_config" and R :: "'w executor \<Rightarrow> 'w executor \<Rightarrow> bool"
  assumes R_trans: "R x y \<Longrightarrow> R y z \<Longrightarrow> R x z"
    and R_same: "ex_state y = ex_state x \<Longrightarrow> ex_wal y = ex_wal x \<Longrightarrow> R x y"
    and R_persist: "permitted (rc_runbook cfg) (ex_state x) op \<Longrightarrow> given_id (rc_host cfg) op \<Longrightarrow>
      execute (rc_host cfg) (Persist op) x = (res, y) \<Longrightarrow> R x y"
begin

lemma R_refl: "R x x"
  by (rule R_same) simp_all

lemma R_execute:
  assumes "\<And>op. eff = Persist op \<Longrightarrow> permitted (rc_runbook cfg) (ex_state x) op \<and> given_id (rc_host cfg) op"
    and "execute (rc_host cfg) eff x = (res, y)"
  shows "R x y"
proof (cases "\<exists>op. eff = Persist op")
  case True
  with assms R_persist show ?thesis by blast
next
  case False
  with execute_frame(1) [OF assms(2)] show ?thesis by (intro R_same) auto
qed

lemma R_execute_all:
  "permitted_all (rc_runbook cfg) (ex_state x) (persisted effs) \<Longrightarrow>
   list_all (given_id (rc_host cfg)) (persisted effs) \<Longrightarrow>
   R x (snd (execute_all (rc_host cfg) effs x))"
proof (induction effs arbitrary: x)
  case (Cons eff effs)
  obtain res y where e: "execute (rc_host cfg) eff x = (res, y)" by fastforce
  have xy: "R x y" by (rule R_execute [OF _ e]) (use Cons.prems in auto)
  show ?case
  proof (cases res)
    case (Inl err)
    with e xy show ?thesis by (simp add: comp_defs)
  next
    case (Inr v)
    have "permitted_all (rc_runbook cfg) (ex_state y) (persisted effs) \<and>
        list_all (given_id (rc_host cfg)) (persisted effs)"
    proof (cases "\<exists>op. eff = Persist op")
      case True
      then obtain op where op: "eff = Persist op" by blast
      from execute_persist [OF e [unfolded op]] Inr obtain now where "ex_state y = apply_op now op (ex_state x)"
        by blast
      with Cons.prems op show ?thesis by simp
    next
      case False
      then have "persisted (eff # effs) = persisted effs" by (cases eff) auto
      with Cons.prems execute_frame(1) [OF e] False show ?thesis by auto
    qed
    from R_trans [OF xy Cons.IH [OF conjunct1 [OF this] conjunct2 [OF this]]] e Inr show ?thesis
      by (cases "execute_all (rc_host cfg) effs y"; cases "fst (execute_all (rc_host cfg) effs y)")
        (auto simp: comp_defs)
  qed
qed (simp add: ok_def R_refl)

lemma follows_from_same:
  "rt_state (snd (m r)) = rt_state r \<Longrightarrow> ex_wal (rt_executor (snd (m r))) = ex_wal (rt_executor r) \<Longrightarrow>
   follows_from R r m"
  by (simp add: follows_from_def R_same)

lemma follows_from_basic [follow_intros]:
  "follows_from R r (ok a)" "follows_from R r (fail e)" "follows_from R r (gets f)"
  "follows_from R r (from_result x)" "follows_from R r (ok_or e y)"
  "follows_from R r (lookup_pipeline i)" "follows_from R r (exact_pipeline i)"
  "follows_from R r (next_id cfg)"
  by (rule follows_from_same;
      simp add: lookup_pipeline_def exact_pipeline_def next_id_def comp_defs split: option.split prod.split)+

lemma follows_from_bind [follow_intros]:
  assumes "follows_from R r m" and "\<And>a u. m r = (Inr a, u) \<Longrightarrow> follows_from R u (f a)"
  shows "follows_from R r (bind m f)"
proof -
  obtain res u where m: "m r = (res, u)" by fastforce
  show ?thesis
  proof (cases res)
    case (Inr a)
    with assms m have "R (rt_executor r) (rt_executor u)"
      and "R (rt_executor u) (rt_executor (snd (f a u)))" by (auto simp: follows_from_def)
    with m Inr show ?thesis by (auto simp: follows_from_def bind_def intro: R_trans)
  qed (use assms(1) m in \<open>simp add: follows_from_def bind_def\<close>)
qed

lemma run_effects_follows:
  assumes "permitted_all (rc_runbook cfg) (rt_state r) (persisted effs)"
    and "list_all (given_id (rc_host cfg)) (persisted effs)"
  shows "follows_from R r (run_effects cfg effs)"
proof -
  obtain res y where e: "execute_all (rc_host cfg) effs (rt_executor r) = (res, y)" by fastforce
  have "rt_executor (snd (run_effects cfg effs r)) = y"
    using e by (cases res) (simp_all add: run_effects_def on_executor_def map_err_def on_part_def)
  with R_execute_all [OF assms] e show ?thesis by (simp add: follows_from_def)
qed

text \<open>Whatever starts a phase, the relation holds.\<close>

lemma start_relation: "start_invariant cfg start_effect (\<lambda>y. R x y)"
proof (intro start_invariant.intro executor_invariant.intro start_invariant_axioms.intro)
  show "preserves (\<lambda>y. R x y) (execute (rc_host cfg) eff)" if s: "start_effect eff" for eff
  proof (rule preservesI)
    fix y
    assume xy: "R x y"
    obtain res z where e: "execute (rc_host cfg) eff y = (res, z)" by fastforce
    have "permitted (rc_runbook cfg) (ex_state y) op \<and> given_id (rc_host cfg) op" if "eff = Persist op" for op
      using s that by (cases op) auto
    from R_trans [OF xy R_execute [OF this e]] e show "R x (snd (execute (rc_host cfg) eff y))" by simp
  qed
  show "R x (y\<lparr>ex_world := w\<rparr>)" if "R x y" for y w
    using R_trans [OF that R_same] by simp
qed

lemma preserves_follows:
  assumes "\<And>x. preserves (\<lambda>r. R x (rt_executor r)) m"
  shows "follows_from R r m"
  using assms [of "rt_executor r"] R_refl by (simp add: preserves_def follows_from_def)

lemmas start_follows [follow_intros] =
  preserves_follows [OF start_invariant.start_phase_I [OF start_relation]]
  preserves_follows [OF start_invariant.kill_and_respawn_I [OF start_relation]]
  preserves_follows [OF start_invariant.run_start_effect_I [OF start_relation]]
  preserves_follows [OF start_invariant.watch_I [OF start_relation]]

lemma transition_follows:
  assumes "persisted effs = [PipelineTransition (id p) n]"
    and "hm_get (pipelines (rt_state r)) (id p) = Some p"
    and "n = success_target (rc_runbook cfg) (kind p) (phase p) \<or> n = failure_target (rc_runbook cfg) (kind p) (phase p)"
  shows "follows_from R r (run_effects cfg effs)"
  by (rule run_effects_follows) (use assms in auto)

lemma fail_follows:
  assumes "hm_get (pipelines (rt_state r)) (id p) = Some p"
  shows "follows_from R r (fail_pipeline cfg p err)"
proof (cases "on_fail_phase (rc_runbook cfg) p")
  case None
  with on_fail_target [of "rc_runbook cfg" p] show ?thesis
    unfolding fail_pipeline_def by (auto intro: transition_follows [OF _ assms])
next
  case (Some n)
  with on_fail_target [of "rc_runbook cfg" p]
  have "follows_from R r (run_effects cfg (failure_transition_effects p n err))"
    by (intro transition_follows [OF _ assms]) auto
  with Some show ?thesis unfolding fail_pipeline_def by (auto intro!: follow_intros)
qed

lemma complete_follows:
  assumes "hm_get (pipelines (rt_state r)) (id p) = Some q"
    and "if is_terminal p then terminal (phase q)
      else success_target (rc_runbook cfg) (kind q) (phase q) = ''done'' \<or> (phase q = ''done'' \<and> status q = Pending)"
  shows "follows_from R r (complete_pipeline cfg p)"
  unfolding complete_pipeline_def
  by (rule run_effects_follows) (use assms in \<open>auto simp: terminal_def split: option.split if_splits\<close>)

lemma advance_follows:
  assumes p: "hm_get (pipelines (rt_state r)) (id p) = Some p"
  shows "follows_from R r (advance_pipeline cfg p)"
proof (cases "is_terminal p")
  case True
  then show ?thesis unfolding advance_pipeline_def
    using complete_follows [OF p] by (simp add: is_terminal_iff)
next
  case False
  let ?n = "success_target (rc_runbook cfg) (kind p) (phase p)"
  have t: "follows_from R r (run_effects cfg (phase_transition_effects p ?n))"
    by (rule transition_follows [OF persisted_lists(2) p disjI1 [OF refl]])
  have c: "follows_from R u (complete_pipeline cfg p)"
    if "run_effects cfg (phase_transition_effects p ?n) r = (Inr evs, u)"
      "?n = ''done'' \<or> success_target (rc_runbook cfg) (kind p) ?n = ''done''" for evs u
  proof -
    have "applies [PipelineTransition (id p) ?n] r u" using run_effects_applies [OF that(1)] by simp
    with p have "hm_get (pipelines (rt_state u)) (id p) = Some (p\<lparr>phase := ?n, status := Pending\<rparr>)"
      by (auto simp: applies_def)
    from complete_follows [OF this] that(2) False show ?thesis by auto
  qed
  show ?thesis
  proof (cases "next_phase_name (rc_runbook cfg) p")
    case None
    with next_phase_target [OF False, of "rc_runbook cfg"] have "?n = ''done''" by simp
    with None False t c show ?thesis unfolding advance_pipeline_def
      by (auto intro!: follow_intros)
  next
    case (Some n)
    with next_phase_target [OF False, of "rc_runbook cfg"] have n: "n = ?n" by simp
    have "success_target (rc_runbook cfg) (kind p) n = ''done''" if "\<not> has_phase_def (rc_runbook cfg) p n"
      using that by (auto simp: has_phase_def_def success_target_def split: option.splits)
    with Some False t c n show ?thesis unfolding advance_pipeline_def
      by (auto intro!: follow_intros)
  qed
qed

text \<open>The start of a respawned agent, and the actions on the state of an agent.\<close>

lemma act_follows:
  assumes "hm_get (pipelines (rt_state r)) (id p) = Some p" and "\<not> is_terminal p"
    and "get_agent_def (rc_runbook cfg) p = Inr ag"
  shows "follows_from R r (act cfg p ag c t)"
  unfolding act_def
proof (rule follows_from_bind [OF follows_from_basic(4)])
  fix a u
  assume "from_result (build_action_effects p ag c t (inputs p)) r = (Inr a, u)"
  then have a: "build_action_effects p ag c t (inputs p) = Inr a" and u: "u = r"
    by (auto simp: from_result_def)
  have "agent_phase (rc_runbook cfg) (kind p) (phase p)" by (rule get_agent_def_phase [OF assms(3)])
  then have e: "follows_from R r (run_effects cfg (escalate_effects p t))"
    by (intro run_effects_follows) (use assms in \<open>simp_all add: escalate_effects_def is_terminal_iff\<close>)
  have n: "follows_from R r (run_effects cfg [Send sid m, start_session_monitor (id p)])"
    for sid m by (rule run_effects_follows) (simp_all add: start_session_monitor_def)
  show "follows_from R u (execute_action_effects cfg p a)"
    using a u e n fail_follows [OF assms(1)] advance_follows [OF assms(1)] start_follows(2)
    by (auto simp: build_action_effects_def execute_action_effects_def
        split: agent_action.splits option.splits)
qed

lemma session_monitor_follows:
  assumes wf: "state_wf (rt_state r)"
  shows "follows_from R r (handle_session_monitor cfg pid)"
proof -
  have a: "follows_from R v (act cfg p ag c t)"
    if "rt_get_pipeline r pid = Some p" "\<not> is_terminal p" "get_agent_def (rc_runbook cfg) p = Inr ag"
      "watch cfg pid l r = (res, v)" for p ag l res v c t
    by (rule act_follows)
      (use that get_pipeline_key [OF wf] watch_state [OF that(4)] in \<open>auto simp: rt_get_pipeline_def\<close>)
  show ?thesis
    unfolding handle_session_monitor_def
    by (auto intro!: follow_intros a phase_effects_admissible start_effects_admissible
        simp: lookup_pipeline_def from_result_def bind_Inr
        split: option.split session_state.split)
qed

text \<open>The remaining handlers. Without recorded sessions the end of a session finds no pipeline.\<close>

lemma agent_event_follows:
  assumes "state_wf (rt_state r)"
  shows "follows_from R r (handle_agent_event cfg pid e)"
  unfolding handle_agent_event_def
proof (rule follows_from_bind [OF follows_from_basic(6)])
  fix p u
  assume "lookup_pipeline pid r = (Inr p, u)"
  from lookup_key [OF assms this] show "follows_from R u (case e of
      AgentDone _ \<Rightarrow> advance_pipeline cfg p | AgentError _ err \<Rightarrow> fail_pipeline cfg p err | _ \<Rightarrow> ok [])"
    by (auto intro: advance_follows fail_follows follow_intros split: event.split)
qed

lemma shell_completed_follows:
  assumes "state_wf (rt_state r)"
  shows "follows_from R r (handle_shell_completed cfg pid ph code)"
  unfolding handle_shell_completed_def
proof (rule follows_from_bind [OF follows_from_basic(7)])
  fix p u
  assume "exact_pipeline pid r = (Inr p, u)"
  from exact_key [OF assms this] show "follows_from R u (if phase p \<noteq> ph then ok []
      else if code = 0 then advance_pipeline cfg p
      else fail_pipeline cfg p (''shell exited with code '' @ show_int code))"
    by (auto intro: advance_follows fail_follows follow_intros)
qed

lemma custom_event_follows: "follows_from R r (handle_custom_event cfg nm data)"
proof -
  have s: "follows_from R u (run_effect cfg e)" if "start_effect e" for u e
    by (rule start_follows(3) [OF that])
  show ?thesis unfolding handle_custom_event_def by (auto intro!: follow_intros s)
qed

lemma command_follows: "follows_from R r (handle_command cfg command args)"
proof -
  have c: "follows_from R u
      (run_effects cfg (create_effects pid knd nm args d (initial_phase df)))"
    if "get_pipeline_def (rc_runbook cfg) knd = Some df" "next_id cfg v = (Inr pid, w)" for u pid knd nm d df v w
    by (rule run_effects_follows)
      (use that in \<open>auto simp: next_id_def split: prod.splits intro: exI [of _ "rt_world v"]\<close>)
  have p: "follows_from R u (create_pipeline cfg knd args)" for u knd
    unfolding create_pipeline_def Let_def initial_phase_def [symmetric]
    by (rule follows_from_bind [OF follows_from_basic(5)])
      (auto intro!: follow_intros c split: option.split)
  show ?thesis
    unfolding handle_command_def
    by (rule follows_from_bind [OF follows_from_basic(5)])
      (auto intro!: follow_intros p split: run_directive.split)
qed

lemma claude_exited_follows:
  assumes "state_wf (rt_state r)"
  shows "follows_from R r (handle_claude_exited cfg pid)"
  unfolding handle_claude_exited_def
proof (rule follows_from_bind [OF follows_from_basic(6)])
  fix p u
  assume "lookup_pipeline pid r = (Inr p, u)"
  from lookup_key [OF assms this] show "follows_from R u (if is_terminal p then ok []
      else bind (from_result (get_agent_def (rc_runbook cfg) p)) (\<lambda>ag. act cfg p ag (on_exit ag) ''exit''))"
    by (auto intro!: follow_intros act_follows simp: from_result_def)
qed

lemma tmux_exited_follows:
  assumes "state_wf (rt_state r)"
  shows "follows_from R r (handle_tmux_exited cfg pid)"
  unfolding handle_tmux_exited_def
  by (rule follows_from_bind [OF follows_from_basic(6)]) (auto dest: lookup_key [OF assms] intro: fail_follows)

lemma handle_event_follows:
  assumes "state_wf (rt_state r)" and "unlinked (rt_state r)"
  shows "follows_from R r (handle_event cfg e)"
proof (cases e)
  case (SessionExited sid code)
  then show ?thesis using session_exit_unlinked [OF assms]
    by (intro follows_from_same) (simp_all add: handle_event_def)
qed (auto simp: handle_event_def handle_timer_def intro: follow_intros command_follows
    agent_event_follows [OF assms(1)] shell_completed_follows [OF assms(1)] custom_event_follows
    session_monitor_follows [OF assms(1)])

lemma reaches_related:
  "reaches cfg r s \<Longrightarrow> state_wf (rt_state r) \<Longrightarrow> unlinked (rt_state r) \<Longrightarrow>
   R (rt_executor r) (rt_executor s)"
proof (induction rule: reaches.induct)
  case (start r)
  show ?case by (rule R_refl)
next
  case (event r s e)
  have "state_wf (rt_state s)" "unlinked (rt_state s)"
    using wf_rt.reaches_I [OF event.hyps] unlinked_rt.reaches_I [OF event.hyps] event.prems by blast+
  from handle_event_follows [OF this] R_trans [OF event.IH [OF event.prems]] show ?case
    by (simp add: follows_from_def)
next
  case (claude_exited r s pid)
  have "state_wf (rt_state s)" using wf_rt.reaches_I [OF claude_exited.hyps] claude_exited.prems by blast
  from claude_exited_follows [OF this] R_trans [OF claude_exited.IH [OF claude_exited.prems]] show ?case
    by (simp add: follows_from_def)
next
  case (tmux_exited r s pid)
  have "state_wf (rt_state s)" using wf_rt.reaches_I [OF tmux_exited.hyps] tmux_exited.prems by blast
  from tmux_exited_follows [OF this] R_trans [OF tmux_exited.IH [OF tmux_exited.prems]] show ?case
    by (simp add: follows_from_def)
next
  case (outside r s w)
  show ?case by (rule R_trans [OF outside.IH [OF outside.prems]]) (rule R_same, simp_all)
qed

end

text \<open>The first relation: the states follow the machine.\<close>

interpretation workflow: workflow_relation cfg "\<lambda>x y. follows (rc_runbook cfg) (ex_state x) (ex_state y)"
  for cfg :: "'w runtime_config"
proof
  fix x y :: "'w executor" and op res
  assume p: "permitted (rc_runbook cfg) (ex_state x) op" and e: "execute (rc_host cfg) (Persist op) x = (res, y)"
  from execute_persist [OF e] permitted_follows [OF p]
  show "follows (rc_runbook cfg) (ex_state x) (ex_state y)" by (auto intro: follows_refl)
qed (auto intro: follows_trans follows_refl)

lemmas reaches_follows = workflow.reaches_related

section \<open>The log of a process that is killed\<close>

text \<open>A process may be killed between any two of its writes to the log. What it leaves is the log from before
  and some whole lines of what it would have written.\<close>

definition text_tells :: "(string \<Rightarrow> string + wal_entry) \<Rightarrow> string \<Rightarrow> materialized_state \<Rightarrow> bool" where
  "text_tells de t st \<longleftrightarrow> (\<exists>ops. ends_line t \<and> wal_replay de (Inr t) = Inr ops \<and>
     untimed st = apply_all (map (\<lambda>op. (0, op)) ops) state_default)"

lemma log_tells_text: "log_tells_state de x \<longleftrightarrow> text_tells de (wal_file (ex_wal x)) (ex_state x)"
  by (simp add: log_tells_state_def text_tells_def log_holds_def)

definition log_cut :: "string \<Rightarrow> string \<Rightarrow> string \<Rightarrow> bool" where
  "log_cut a t b \<longleftrightarrow> prefix a t \<and> prefix t b \<and> ends_line t"

text \<open>Every such log tells a state that the runbook allows, in which no pipeline is lost.\<close>

definition grows :: "runbook \<Rightarrow> materialized_state \<Rightarrow> materialized_state \<Rightarrow> bool" where
  "grows rb a b \<longleftrightarrow> follows rb a b \<and>
     (\<forall>i. hm_get (pipelines a) i \<noteq> None \<longrightarrow> hm_get (pipelines b) i \<noteq> None)"

lemma grows_refl: "grows rb a a"
  by (simp add: grows_def follows_refl)

lemma grows_trans: "grows rb a b \<Longrightarrow> grows rb b c \<Longrightarrow> grows rb a c"
  unfolding grows_def by (blast intro: follows_trans)

definition cuts_grow ::
  "(string \<Rightarrow> string + wal_entry) \<Rightarrow> runbook \<Rightarrow> 'w executor \<Rightarrow> 'w executor \<Rightarrow> bool" where
  "cuts_grow de rb x y \<longleftrightarrow> log_tells_state de y \<and> grows rb (ex_state x) (ex_state y) \<and>
     prefix (wal_file (ex_wal x)) (wal_file (ex_wal y)) \<and>
     (\<forall>t. log_cut (wal_file (ex_wal x)) t (wal_file (ex_wal y)) \<longrightarrow>
        (\<exists>st. text_tells de t st \<and> grows rb (ex_state x) st))"

lemma log_cut_line:
  assumes "log_cut a t (a @ line @ nl)" and "CHR 0x0A \<notin> set line"
  shows "t = a \<or> t = a @ line @ nl"
proof -
  from assms(1) obtain u where t: "t = a @ u" and u: "prefix u (line @ nl)" and e: "ends_line t"
    by (auto simp: log_cut_def elim: prefixE)
  have "u = line @ nl" if "u \<noteq> []"
  proof (rule ccontr)
    assume "u \<noteq> line @ nl"
    with u have "prefix u line" by (simp add: nl_def)
    with assms(2) that have "last u \<noteq> CHR 0x0A" by (metis last_in_set set_mono_prefix subsetD)
    with e that show False by (simp add: t ends_line_def)
  qed
  with t show ?thesis by auto
qed

lemma permitted_grows: "permitted rb st op \<Longrightarrow> grows rb st (apply_op now op st)"
  using permitted_follows [of rb st op now] unfolding grows_def by (cases op) auto

lemma append_line:
  assumes "reliable_log de h" and "wal_append (h_ser h) (fst (h_write h w)) op l = (r, l1)"
  shows "wal_file l1 = wal_file l \<or> (\<exists>line. wal_file l1 = wal_file l @ line @ nl \<and> CHR 0x0A \<notin> set line)"
proof -
  have "codec_ok (h_ser h) de op" and c: "clean (fst (h_write h w))"
    using assms(1) by (simp_all add: reliable_log_def)
  then obtain line where "h_ser h \<lparr>we_seq = wal_sequence l + 1, we_op = op\<rparr> = Inr line" "CHR 0x0A \<notin> set line"
    unfolding codec_ok_def by blast
  with assms(2) c show ?thesis by (cases "fst (h_write h w)") (auto simp: wal_append_def)
qed

lemma cuts_same:
  assumes "log_tells_state de x" and "ex_state y = ex_state x" and "wal_file (ex_wal y) = wal_file (ex_wal x)"
  shows "cuts_grow de rb x y"
proof -
  have "t = wal_file (ex_wal x)" if "log_cut (wal_file (ex_wal x)) t (wal_file (ex_wal y))" for t
    using that assms(3) by (simp add: log_cut_def prefix_order.eq_iff)
  with assms grows_refl [of rb "ex_state x"] show ?thesis unfolding cuts_grow_def log_tells_text by auto
qed

lemma cuts_trans:
  assumes xy: "cuts_grow de rb x y" and yz: "cuts_grow de rb y z"
  shows "cuts_grow de rb x z"
proof -
  have "\<exists>st. text_tells de t st \<and> grows rb (ex_state x) st"
    if t: "log_cut (wal_file (ex_wal x)) t (wal_file (ex_wal z))" for t
  proof (cases "prefix t (wal_file (ex_wal y))")
    case True
    with t xy show ?thesis by (simp add: cuts_grow_def log_cut_def)
  next
    case False
    with t yz have "log_cut (wal_file (ex_wal y)) t (wal_file (ex_wal z))"
      using prefix_same_cases [of "wal_file (ex_wal y)" "wal_file (ex_wal z)" t]
      by (auto simp: log_cut_def cuts_grow_def)
    with yz obtain st where "text_tells de t st" "grows rb (ex_state y) st" by (auto simp: cuts_grow_def)
    with xy show ?thesis by (auto simp: cuts_grow_def intro: grows_trans)
  qed
  with xy yz show ?thesis by (auto simp: cuts_grow_def intro: grows_trans)
qed

lemma cuts_persist:
  assumes rel: "reliable_log de h" and x: "log_tells_state de x" and p: "permitted rb (ex_state x) op"
    and e: "execute h (Persist op) x = (r, y)"
  shows "cuts_grow de rb x y"
proof -
  have y: "log_tells_state de y" by (rule log_tells_state_append [OF rel x e])
  have g: "grows rb (ex_state x) (ex_state y)"
    using execute_persist [OF e] permitted_grows [OF p] grows_refl by auto
  from execute_persist [OF e] append_line [OF rel] consider
    "wal_file (ex_wal y) = wal_file (ex_wal x)"
    | line where "wal_file (ex_wal y) = wal_file (ex_wal x) @ line @ nl" "CHR 0x0A \<notin> set line" by blast
  then have "prefix (wal_file (ex_wal x)) (wal_file (ex_wal y)) \<and>
      (\<forall>t. log_cut (wal_file (ex_wal x)) t (wal_file (ex_wal y)) \<longrightarrow>
        t = wal_file (ex_wal x) \<or> t = wal_file (ex_wal y))"
  proof cases
    case 1
    then show ?thesis by (auto simp: log_cut_def)
  next
    case 2
    then show ?thesis using log_cut_line by (auto simp: 2(1))
  qed
  with x y g grows_refl show ?thesis unfolding cuts_grow_def log_tells_text by blast
qed

interpretation cuts: workflow_relation cfg
    "\<lambda>x y. reliable_log de (rc_host cfg) \<longrightarrow> log_tells_state de x \<longrightarrow> cuts_grow de (rc_runbook cfg) x y"
  for cfg :: "'w runtime_config" and de
proof (unfold_locales, goal_cases)
  case (1 x y z)
  then show ?case using cuts_trans [of de "rc_runbook cfg" x y z] by (auto simp: cuts_grow_def [of _ _ x y])
next
  case (2 y x)
  then show ?case by (intro impI cuts_same) simp_all
next
  case (3 x op res y)
  then show ?case using cuts_persist by blast
qed

lemma reaches_cuts:
  assumes "reaches cfg r s" and "reliable_log de (rc_host cfg)" and "log_tells_state de (rt_executor r)"
    and "state_wf (rt_state r)" and "unlinked (rt_state r)"
  shows "cuts_grow de (rc_runbook cfg) (rt_executor r) (rt_executor s)"
  using cuts.reaches_related [OF assms(1,4,5), of de] assms(2,3) by blast

section \<open>Where the machine can get\<close>

text \<open>The phases that a runbook names for pipelines of a definition.\<close>

definition option_list :: "'a option \<Rightarrow> 'a list" where
  "option_list x = (case x of None \<Rightarrow> [] | Some a \<Rightarrow> [a])"

lemma set_option_list [simp]: "set (option_list x) = set_option x"
  by (cases x) (simp_all add: option_list_def)

definition phase_names :: "pipeline_def \<Rightarrow> string list" where
  "phase_names d = [initial_phase d, ''done'', ''failed''] @
     concat (map (\<lambda>ph. ph_name ph # option_list (ph_next ph) @ option_list (ph_on_fail ph)) (pl_phases d))"


lemma phase_names_iff:
  "n \<in> set (phase_names d) \<longleftrightarrow> n = initial_phase d \<or> n = ''done'' \<or> n = ''failed'' \<or>
     (\<exists>ph \<in> set (pl_phases d). n = ph_name ph \<or> ph_next ph = Some n \<or> ph_on_fail ph = Some n)"
  by (auto simp: phase_names_def)

lemma get_phase_mem: "get_phase d n = Some ph \<Longrightarrow> ph \<in> set (pl_phases d)"
  by (auto simp: get_phase_def find_Some_iff)

lemma next_phase_mem: "next_phase d n = Some ph \<Longrightarrow> ph \<in> set (pl_phases d)"
  by (auto simp: next_phase_def dest: get_phase_mem split: option.splits if_splits)

lemma targets_named:
  assumes "get_pipeline_def rb k = Some d"
  shows "success_target rb k a \<in> set (phase_names d)" and "failure_target rb k a \<in> set (phase_names d)"
  using assms
  by (auto simp: success_target_def failure_target_def phase_names_iff
      bind_eq_Some_conv dest: get_phase_mem next_phase_mem split: option.split)

definition sound :: "runbook \<Rightarrow> string \<Rightarrow> pipeline_def \<Rightarrow> string \<times> phase_status \<Rightarrow> bool" where
  "sound rb k d c \<longleftrightarrow> fst c \<in> set (phase_names d) \<and> snd c \<noteq> Failed \<and>
     (snd c = Completed \<longrightarrow> terminal (fst c)) \<and>
     (snd c = Waiting \<longrightarrow> agent_phase rb k (fst c) \<and> \<not> terminal (fst c))"

lemma workflow_run_sound:
  assumes "workflow_run rb k a b" and "get_pipeline_def rb k = Some d" and "sound rb k d a"
  shows "sound rb k d b"
  using assms(1,3)
proof (induction rule: rtranclp_induct)
  case (step b c)
  from step.hyps(2) step.IH [OF step.prems] show ?case
    by cases (auto simp: sound_def targets_named [OF assms(2)])
qed

lemma started_sound:
  assumes "started rb q"
  obtains d where "get_pipeline_def rb (kind q) = Some d" "sound rb (kind q) d (phase q, status q)"
proof -
  from assms obtain d where "get_pipeline_def rb (kind q) = Some d"
    "workflow_run rb (kind q) (initial_phase d, Pending) (phase q, status q)"
    by (auto simp: started_def)
  from that [OF this(1) workflow_run_sound [OF this(2,1)]] show ?thesis
    by (simp add: sound_def phase_names_iff)
qed

section \<open>Properties\<close>

text \<open>C1: the runtime implements the workflow machine. Whatever events, errors and changes of the
  outside world happen, a pipeline of a reached state either was there before, with the same name, kind
  and inputs, and got from its phase and status to the present ones by edges of the runbook, or it has
  been created since and got there from the first phase of its definition; and no pipeline is lost.\<close>

theorem runtime_follows_runbook:
  assumes "reaches cfg r s" and "state_wf (rt_state r)" and "unlinked (rt_state r)"
  shows "(\<forall>i q. hm_get (pipelines (rt_state s)) i = Some q \<longrightarrow>
      (\<exists>p. hm_get (pipelines (rt_state r)) i = Some p \<and> name q = name p \<and> kind q = kind p \<and>
         inputs q = inputs p \<and>
         workflow_run (rc_runbook cfg) (kind p) (phase p, status p) (phase q, status q)) \<or>
      (\<exists>d. get_pipeline_def (rc_runbook cfg) (kind q) = Some d \<and>
         workflow_run (rc_runbook cfg) (kind q) (initial_phase d, Pending) (phase q, status q))) \<and>
    (\<forall>i. hm_get (pipelines (rt_state r)) i \<noteq> None \<longrightarrow> hm_get (pipelines (rt_state s)) i \<noteq> None)"
  using reaches_follows [OF assms] records_kept [OF assms(1)]
  by (auto simp: follows_def continues_def started_def)

lemma demo_state_facts:
  "hm_get (pipelines (rt_state (demo_runtime ph))) i = (if i = ''p0'' then Some (demo_at ph) else None)"
  "state_wf (rt_state (demo_runtime ph))" "unlinked (rt_state (demo_runtime ph))"
  by (auto simp: demo_runtime_def runtime_new_def state_wf_def unlinked_def state_default_def hm_wf_def
      hm_get_def demo_at_def pipeline_new_def split: if_splits)

theorem runtime_follows_runbook_witness:
  "(\<exists>a \<in> {''test'', ''init''}. workflow_run demo_runbook ''build'' (a, Pending) (''failed'', Pending)) \<and>
   map_option (\<lambda>q. (kind q, phase q, status q)) (hm_get (pipelines (rt_state (snd (handle_event
     demo_config (AgentError ''p0'' ''boom'') (demo_runtime ''test''))))) ''p0'') =
     Some (''build'', ''failed'', Pending)"
proof -
  let ?s = "snd (handle_event demo_config (AgentError ''p0'' ''boom'') (demo_runtime ''test''))"
  have v: "map_option (\<lambda>q. (kind q, phase q, status q)) (hm_get (pipelines (rt_state ?s)) ''p0'') =
      Some (''build'', ''failed'', Pending)" by code_simp
  then obtain q where q: "hm_get (pipelines (rt_state ?s)) ''p0'' = Some q" "kind q = ''build''"
    "phase q = ''failed''" "status q = Pending" by auto
  have d: "kind (demo_at ''test'') = ''build''" "phase (demo_at ''test'') = ''test''"
    "status (demo_at ''test'') = Pending" "rc_runbook demo_config = demo_runbook"
    by (simp_all add: demo_at_def pipeline_new_def demo_config_def)
  have i: "get_pipeline_def demo_runbook ''build'' = Some df \<Longrightarrow> initial_phase df = ''init''" for df
    by (auto simp: get_pipeline_def_def demo_runbook_def hm_get_def initial_phase_def first_phase_def)
  have "reaches demo_config (demo_runtime ''test'') ?s" by (rule reaches.event) (rule reaches.start)
  from conjunct1 [OF runtime_follows_runbook [OF this demo_state_facts(2,3)], rule_format, OF q(1)]
  show ?thesis using v i q by (auto simp: demo_state_facts d)
qed

text \<open>C10: what a user can rely on in a listing. If the runtime starts without pipelines, then at every
  reachable moment a pipeline is of a kind the runbook defines, in a phase that its definition names or
  in \<open>done\<close> or \<open>failed\<close>; \<open>Completed\<close> is shown only in \<open>done\<close> or \<open>failed\<close>, \<open>Waiting\<close> only in the
  phase of an agent, and \<open>Failed\<close> never.\<close>

theorem reachable_pipeline_sound:
  assumes "reaches cfg r s" and "pipelines (rt_state r) = []" and "state_wf (rt_state r)"
    and "hm_get (pipelines (rt_state s)) i = Some q"
  shows "\<exists>d. get_pipeline_def (rc_runbook cfg) (kind q) = Some d \<and>
    phase q \<in> set (phase_names d) \<and> status q \<noteq> Failed \<and>
    (status q = Completed \<longrightarrow> phase q = ''done'' \<or> phase q = ''failed'') \<and>
    (status q = Waiting \<longrightarrow> phase q \<noteq> ''done'' \<and> phase q \<noteq> ''failed'' \<and>
       (\<exists>ph a. get_phase d (phase q) = Some ph \<and> ph_run ph = RunAgent a))"
proof -
  have "unlinked (rt_state r)" using assms(2) by (simp add: unlinked_def hm_get_def)
  from reaches_follows [OF assms(1,3) this] assms(2,4) have "started (rc_runbook cfg) q"
    by (auto simp: follows_def hm_get_def)
  then obtain d where "get_pipeline_def (rc_runbook cfg) (kind q) = Some d"
    "sound (rc_runbook cfg) (kind q) d (phase q, status q)" by (rule started_sound)
  then show ?thesis
    by (auto simp: sound_def terminal_def agent_phase_def is_agent_def
        split: option.splits run_directive.splits)
qed

theorem reachable_pipeline_sound_witness:
  "\<exists>q d. hm_get (pipelines (rt_state (snd (handle_event demo_config (CommandInvoked ''build'' [])
      fresh_runtime)))) ''p0'' = Some q \<and> get_pipeline_def demo_runbook (kind q) = Some d \<and>
    phase q \<in> set (phase_names d) \<and> status q = Running"
proof -
  let ?s = "snd (handle_event demo_config (CommandInvoked ''build'' []) fresh_runtime)"
  have "map_option status (hm_get (pipelines (rt_state ?s)) ''p0'') = Some Running" by code_simp
  then obtain q where q: "hm_get (pipelines (rt_state ?s)) ''p0'' = Some q" "status q = Running" by auto
  have "reaches demo_config fresh_runtime ?s" by (rule reaches.event) (rule reaches.start)
  from reachable_pipeline_sound [OF this _ _ q(1)] q show ?thesis
    by (auto simp: fresh_runtime_def runtime_new_def state_default_def state_wf_def demo_config_def)
qed

text \<open>C15: no phase is final for the runtime. A pipeline that ended, in \<open>done\<close> or \<open>failed\<close>, is made
  \<open>Completed\<close> by a late \<open>AgentDone\<close> even if it failed, moved to \<open>failed\<close> by \<open>oj pipeline fail\<close> even if
  it is done, and set \<open>Running\<close> again by \<open>oj pipeline resume\<close>, where nothing will finish it.\<close>

theorem terminal_phase_not_final:
  assumes "state_wf (rt_state r)" and "rt_get_pipeline r pid = Some p" and "is_terminal p"
    and "on_fail_phase (rc_runbook cfg) p = None"
  shows "(handle_event cfg (AgentDone pid) r = (Inr evs, s) \<longrightarrow>
       hm_get (pipelines (rt_state s)) (id p) = Some (p\<lparr>status := Completed\<rparr>)) \<and>
    (handle_event cfg (AgentError pid err) r = (Inr evs, s) \<longrightarrow>
       hm_get (pipelines (rt_state s)) (id p) = Some (p\<lparr>phase := ''failed'', status := Pending\<rparr>)) \<and>
    (handle_event cfg (Custom ''pipeline:resume'' (json_strings [(''pipeline_id'', pid)])) r = (Inr evs, s) \<longrightarrow>
       hm_get (pipelines (rt_state s)) (id p) = Some (p\<lparr>status := Running\<rparr>))"
proof (intro conjI impI)
  have key: "hm_get (pipelines (rt_state r)) (id p) = Some p"
    using get_pipeline_key [OF assms(1)] assms(2) by (simp add: rt_get_pipeline_def)
  have look: "lookup_pipeline pid r = (Inr p, r)"
    using assms(2) by (simp add: lookup_pipeline_def comp_defs)
  assume "handle_event cfg (AgentDone pid) r = (Inr evs, s)"
  then have "complete_pipeline cfg p r = (Inr evs, s)"
    using look assms(3) by (simp add: handle_event_def handle_agent_event_def bind_def advance_pipeline_def)
  from complete_applies(1) [OF this] assms(3) key
  show "hm_get (pipelines (rt_state s)) (id p) = Some (p\<lparr>status := Completed\<rparr>)"
    by (auto simp: applies_def split: option.splits)
next
  have key: "hm_get (pipelines (rt_state r)) (id p) = Some p"
    using get_pipeline_key [OF assms(1)] assms(2) by (simp add: rt_get_pipeline_def)
  have look: "lookup_pipeline pid r = (Inr p, r)"
    using assms(2) by (simp add: lookup_pipeline_def comp_defs)
  assume "handle_event cfg (AgentError pid err) r = (Inr evs, s)"
  then have "run_effects cfg (failure_effects p err) r = (Inr evs, s)"
    using look assms(4) by (simp add: handle_event_def handle_agent_event_def bind_def fail_pipeline_def)
  from run_effects_applies [OF this] key
  show "hm_get (pipelines (rt_state s)) (id p) = Some (p\<lparr>phase := ''failed'', status := Pending\<rparr>)"
    by (auto simp: applies_def)
next
  have key: "hm_get (pipelines (rt_state r)) (id p) = Some p"
    using get_pipeline_key [OF assms(1)] assms(2) by (simp add: rt_get_pipeline_def)
  assume "handle_event cfg (Custom ''pipeline:resume'' (json_strings [(''pipeline_id'', pid)])) r = (Inr evs, s)"
  then show "hm_get (pipelines (rt_state s)) (id p) = Some (p\<lparr>status := Running\<rparr>)"
    using resume_runs [OF key assms(2)] by blast
qed

theorem terminal_phase_not_final_witness:
  "map_option (\<lambda>p. (phase p, status p)) (hm_get (pipelines (rt_state (snd (handle_event demo_config
     (AgentDone ''p0'') (demo_runtime ''failed''))))) ''p0'') = Some (''failed'', Completed) \<and>
   map_option phase (hm_get (pipelines (rt_state (snd (handle_event demo_config
     (AgentError ''p0'' ''late'') (demo_runtime ''done''))))) ''p0'') = Some ''failed''"
proof -
  have a: "fst (handle_event demo_config (AgentDone ''p0'') (demo_runtime ''failed'')) = Inr []"
    "fst (handle_event demo_config (AgentError ''p0'' ''late'') (demo_runtime ''done'')) = Inr []"
    by code_simp+
  then obtain s t where s: "handle_event demo_config (AgentDone ''p0'') (demo_runtime ''failed'') = (Inr [], s)"
    and t: "handle_event demo_config (AgentError ''p0'' ''late'') (demo_runtime ''done'') = (Inr [], t)"
    by (metis prod.collapse)
  have g: "rt_get_pipeline (demo_runtime ph) ''p0'' = Some (demo_at ph)" for ph
    by (simp add: rt_get_pipeline_def get_pipeline_def demo_state_facts)
  have d: "id (demo_at ph) = ''p0''" "phase (demo_at ph) = ph" for ph
    by (simp_all add: demo_at_def pipeline_new_def)
  have "is_terminal (demo_at ''failed'')" "on_fail_phase (rc_runbook demo_config) (demo_at ''failed'') = None"
    by code_simp+
  from conjunct1 [OF terminal_phase_not_final [OF demo_state_facts(2) g this, of "[]" s]] s
  have 1: "hm_get (pipelines (rt_state s)) ''p0'' = Some (demo_at ''failed''\<lparr>status := Completed\<rparr>)"
    by (simp add: d)
  have "is_terminal (demo_at ''done'')" "on_fail_phase (rc_runbook demo_config) (demo_at ''done'') = None"
    by code_simp+
  from conjunct1 [OF conjunct2 [OF terminal_phase_not_final [OF demo_state_facts(2) g this, of "[]" t "''late''"]]] t
  have 2: "hm_get (pipelines (rt_state t)) ''p0'' = Some (demo_at ''done''\<lparr>phase := ''failed'', status := Pending\<rparr>)"
    by (simp add: d)
  show ?thesis by (simp add: s t 1 2 d)
qed

end
