(* ===== verification/Pipeline_Walk.thy ===== *)
theory Pipeline_Walk
  imports Workflow
begin

text \<open>
  A reference for the run of a pipeline: one walk down the phases of its definition, given the exit
  codes of the commands. \<open>Pipeline_Runs\<close> shows that the runtime agrees with it.
\<close>

section \<open>Pipelines of tasks\<close>

text \<open>Every phase is a shell command or an agent, and leads further down the definition or ends the
  pipeline.\<close>

definition is_task :: "run_directive \<Rightarrow> bool" where
  "is_task run \<longleftrightarrow> (\<exists>c. run = RunShell c) \<or> (\<exists>a. run = RunAgent a)"

definition task_pipeline :: "pipeline_def \<Rightarrow> bool" where
  "task_pipeline d \<longleftrightarrow> pl_phases d \<noteq> [] \<and> forward d \<and>
     (\<forall>ph \<in> set (pl_phases d). is_task (ph_run ph) \<and> \<not> terminal (ph_name ph) \<and>
        (\<forall>n. ph_next ph = Some n \<longrightarrow> get_phase d n \<noteq> None \<or> terminal n) \<and>
        (\<forall>n. ph_on_fail ph = Some n \<longrightarrow> get_phase d n \<noteq> None))"

lemma task_phase:
  assumes "task_pipeline d" and "get_phase d n = Some ph"
  obtains "is_task (ph_run ph)" "\<not> terminal n" "ph_name ph = n"
    "\<And>m. ph_next ph = Some m \<Longrightarrow> get_phase d m \<noteq> None \<or> terminal m"
    "\<And>m. ph_on_fail ph = Some m \<Longrightarrow> get_phase d m \<noteq> None"
  using assms get_phase_mem [OF assms(2)]
  by (auto simp: task_pipeline_def get_phase_def find_Some_iff)

text \<open>Where the phase \<open>n\<close> leads when it succeeds and when it fails. A successor that is not
  defined ends the pipeline in \<open>done\<close>, also when its name is \<open>failed\<close>.\<close>

definition leads_to :: "pipeline_def \<Rightarrow> string \<Rightarrow> bool \<Rightarrow> string" where
  "leads_to d n good =
     (case get_phase d n of
        None \<Rightarrow> n
      | Some ph \<Rightarrow>
          (if good then
             (case (case ph_next ph of Some m \<Rightarrow> Some m | None \<Rightarrow> map_option ph_name (next_phase d n)) of
                None \<Rightarrow> ''done''
              | Some m \<Rightarrow> if get_phase d m = None then ''done'' else m)
           else (case ph_on_fail ph of Some m \<Rightarrow> m | None \<Rightarrow> ''failed'')))"

text \<open>The reference: one walk down the definition, given the exit codes of the commands. Starting in
  phase \<open>n\<close> it skips the phases that are not its goal and runs the command of the one that is; at an
  agent it stops.\<close>

fun walk :: "(string \<Rightarrow> int) \<Rightarrow> string \<Rightarrow> phase_def list \<Rightarrow> string" where
  "walk ex n [] = n"
| "walk ex n (ph # phs) =
     (if ph_name ph \<noteq> n then walk ex n phs
      else (case ph_run ph of
              RunShell c \<Rightarrow>
                (if ex c = 0 then
                   walk ex (case ph_next ph of
                              None \<Rightarrow> (case phs of [] \<Rightarrow> ''done'' | b # _ \<Rightarrow> ph_name b)
                            | Some m \<Rightarrow> if m \<in> ph_name ` set phs then m else ''done'') phs
                 else walk ex (case ph_on_fail ph of Some m \<Rightarrow> m | None \<Rightarrow> ''failed'') phs)
            | _ \<Rightarrow> n))"

lemma walk_skip: "n \<notin> ph_name ` set xs \<Longrightarrow> walk ex n (xs @ ys) = walk ex n ys"
  by (induction xs) auto

lemma get_phase_split:
  assumes "get_phase d n = Some ph"
  obtains xs ys where "pl_phases d = xs @ ph # ys" "ph_name ph = n" "n \<notin> ph_name ` set xs"
  using assms unfolding get_phase_def find_Some_iff
  by (metis (no_types, lifting) image_iff in_set_conv_nth id_take_nth_drop length_take min_less_iff_conj nth_take)

lemma get_phase_None: "get_phase d n = None \<longleftrightarrow> n \<notin> ph_name ` set (pl_phases d)"
  by (auto simp: get_phase_def find_None_iff)

lemma forward_after:
  assumes "forward d" and "pl_phases d = xs @ ph # ys" and "m \<in> ph_name ` set (pl_phases d)"
    and "ph_next ph = Some m \<or> ph_on_fail ph = Some m"
  shows "m \<in> ph_name ` set ys" and "m \<notin> ph_name ` set (xs @ [ph])"
proof -
  from assms(3) obtain j where j: "j < length (pl_phases d)" "ph_name (pl_phases d ! j) = m"
    by (auto simp: in_set_conv_nth)
  have "length xs < j"
    using assms(1,2,4) j unfolding forward_def
    by (metis add_Suc_right less_add_Suc1 list.size(4) length_append nth_append_length)
  then have "m \<in> ph_name ` set ys" using j assms(2)
    by (auto simp: nth_append nth_Cons' image_iff intro!: bexI [of _ "ys ! (j - Suc (length xs))"])
  then show "m \<in> ph_name ` set ys" .
  moreover have "ph_name ` set (xs @ [ph]) \<inter> ph_name ` set ys = {}"
    using assms(1,2) by (auto simp: forward_def)
  ultimately show "m \<notin> ph_name ` set (xs @ [ph])" by blast
qed

text \<open>The reference takes the steps of the pipeline.\<close>

lemma walk_next:
  assumes "task_pipeline d" and "get_phase d n = Some ph" and "ph_run ph = RunShell c"
  shows "walk ex n (pl_phases d) = walk ex (leads_to d n (ex c = 0)) (pl_phases d)"
proof -
  from get_phase_split [OF assms(2)] obtain xs ys where
    split: "pl_phases d = xs @ ph # ys" "ph_name ph = n" "n \<notin> ph_name ` set xs" .
  have fw: "forward d" using assms(1) by (simp add: task_pipeline_def)
  then have dist: "distinct (map ph_name xs @ ph_name ph # map ph_name ys)"
    by (simp add: forward_def split(1))
  define t where "t = leads_to d n (ex c = 0)"
  have ends: "''done'' \<notin> ph_name ` set (pl_phases d)" "''failed'' \<notin> ph_name ` set (pl_phases d)"
    using assms(1) unfolding task_pipeline_def terminal_def by fastforce+
  have pos: "position (\<lambda>p. ph_name p = n) (pl_phases d) = Some (length xs)"
    using position_nth [of ph_name "pl_phases d" "length xs"] dist by (simp add: split(1,2))
  have nx: "ph_next ph = None \<Longrightarrow> next_phase d n = (case ys of [] \<Rightarrow> None | b # _ \<Rightarrow> Some b)"
    using pos assms(2) by (simp add: next_phase_def split(1) nth_append split: list.split)
  have target: "walk ex n (ph # ys) = walk ex t ys \<and> (t \<in> ph_name ` set ys \<or> t \<notin> ph_name ` set (pl_phases d))"
  proof (cases "ex c = 0")
    case True
    show ?thesis
    proof (cases "ph_next ph")
      case None
      then show ?thesis using True assms(2,3) nx ends split(2)
        by (auto simp: t_def leads_to_def get_phase_None split(1) split: list.split)
    next
      case (Some m)
      have "m \<in> ph_name ` set (pl_phases d) \<longleftrightarrow> m \<in> ph_name ` set ys"
        using forward_after(1) [OF fw split(1), of m] Some split(1) by auto
      then show ?thesis using True Some assms(2,3) ends split(2)
        by (auto simp: t_def leads_to_def get_phase_None)
    qed
  next
    case False
    show ?thesis
    proof (cases "ph_on_fail ph")
      case None
      then show ?thesis using False assms(2,3) ends split(2) by (auto simp: t_def leads_to_def)
    next
      case (Some m)
      from task_phase [OF assms(1,2)] Some have "get_phase d m \<noteq> None" by blast
      with forward_after(1) [OF fw split(1), of m] Some have "m \<in> ph_name ` set ys"
        by (auto simp: get_phase_None)
      then show ?thesis using False Some assms(2,3) split(2) by (auto simp: t_def leads_to_def)
    qed
  qed
  have "walk ex t (pl_phases d) = walk ex t ys"
  proof -
    have "t \<notin> ph_name ` set (xs @ [ph])" using target dist split(1) by force
    from walk_skip [OF this] show ?thesis by (simp add: split(1))
  qed
  with target walk_skip [OF split(3), of ex "ph # ys"] show ?thesis by (simp add: split(1) t_def)
qed

lemma terminal_not_named: "task_pipeline d \<Longrightarrow> terminal n \<Longrightarrow> n \<notin> ph_name ` set (pl_phases d)"
  by (auto simp: task_pipeline_def)

lemma walk_terminal: "task_pipeline d \<Longrightarrow> terminal n \<Longrightarrow> walk ex n (pl_phases d) = n"
  using walk_skip [OF terminal_not_named, of d n ex "[]"] by simp

lemma walk_agent:
  assumes "get_phase d n = Some ph" and "ph_run ph = RunAgent a"
  shows "walk ex n (pl_phases d) = n"
proof -
  from get_phase_split [OF assms(1)] obtain xs ys where
    split: "pl_phases d = xs @ ph # ys" "ph_name ph = n" "n \<notin> ph_name ` set xs" .
  with assms(2) walk_skip [OF split(3), of ex "ph # ys"] show ?thesis by simp
qed

text \<open>If every command succeeds the walk ends in \<open>done\<close>.\<close>

lemma walk_succeeds:
  "\<forall>ph \<in> set phs. \<exists>c. ph_run ph = RunShell c \<Longrightarrow> ''done'' \<notin> ph_name ` set phs \<Longrightarrow>
   n = ''done'' \<or> n \<in> ph_name ` set phs \<Longrightarrow> walk (\<lambda>_. 0) n phs = ''done''"
proof (induction phs arbitrary: n)
  case (Cons ph phs)
  then obtain c where c: "ph_run ph = RunShell c" by auto
  show ?case
  proof (cases "ph_name ph = n")
    case True
    let ?m = "case ph_next ph of None \<Rightarrow> (case phs of [] \<Rightarrow> ''done'' | b # _ \<Rightarrow> ph_name b)
      | Some m \<Rightarrow> if m \<in> ph_name ` set phs then m else ''done''"
    have "?m = ''done'' \<or> ?m \<in> ph_name ` set phs" by (auto split: option.split list.split)
    from Cons.IH [OF _ _ this] Cons.prems True c show ?thesis by simp
  next
    case False
    with Cons.IH [of n] Cons.prems show ?thesis by auto
  qed
qed simp

end
