(* ===== verification/Protocol.thy ===== *)
theory Protocol
  imports Storage "HOL-Library.Word"
begin

text \<open>
  \<open>crates/daemon/src/protocol.rs\<close>: the messages between client and daemon and their framing, a
  length of four bytes in big-endian order followed by the JSON text. Bytes and the length are
  machine words. A reader is the bytes still to come and what happens after them, the end of the
  stream or a read error; a writer is the bytes written. The JSON library is a parameter.
\<close>

section \<open>Messages\<close>

datatype query = ListPipelines | GetPipeline (gp_id: string) | ListSessions

datatype request =
    Ping
  | Hello (rq_version: string)
  | EventRequest (rq_event: event)
  | QueryRequest (rq_query: query)
  | Shutdown
  | StatusRequest
  | SessionSend (rq_id: string) (rq_input: string)
  | PipelineResume (rq_id: string)
  | PipelineFail (rq_id: string) (rq_error: string)

record pipeline_summary =
  sm_id :: string
  sm_name :: string
  sm_kind :: string
  sm_phase :: string
  sm_phase_status :: string

record pipeline_detail =
  dt_id :: string
  dt_name :: string
  dt_kind :: string
  dt_phase :: string
  dt_phase_status :: string
  dt_inputs :: "(string, string) hmap"
  dt_workspace_path :: "path option"
  dt_session_id :: "string option"
  dt_error :: "string option"

record session_summary =
  su_id :: string
  su_pipeline_id :: "string option"

datatype response =
    OkResponse
  | Pong
  | HelloResponse string
  | ShuttingDown
  | EventResponse bool
  | PipelinesResponse "pipeline_summary list"
  | PipelineResponse "pipeline_detail option"
  | SessionsResponse "session_summary list"
  | StatusResponse nat nat nat
  | ErrorResponse string

datatype protocol_error =
    ProtoIo io_error
  | ProtoJson string
  | MessageTooLarge nat nat
  | ConnectionClosed
  | ProtoTimeout

section \<open>Framing\<close>

type_synonym byte = "8 word"

definition max_message_size :: nat where
  "max_message_size = 200 * 1024 * 1024"

definition to_be_bytes :: "32 word \<Rightarrow> byte list" where
  "to_be_bytes w =
     [ucast (drop_bit 24 w), ucast (drop_bit 16 w), ucast (drop_bit 8 w), ucast w]"

definition from_be_bytes :: "byte list \<Rightarrow> 32 word" where
  "from_be_bytes bs = foldl (\<lambda>a b. or (push_bit 8 a) (ucast b)) 0 bs"

record reader =
  rd_bytes :: "byte list"
  rd_error :: "io_error option"

definition read_exact :: "nat \<Rightarrow> (reader, io_error, byte list) comp" where
  "read_exact n r =
     (if n \<le> length (rd_bytes r) then (Inr (take n (rd_bytes r)), r\<lparr>rd_bytes := drop n (rd_bytes r)\<rparr>)
      else (Inl (case rd_error r of
                   Some e \<Rightarrow> e
                 | None \<Rightarrow> IoError UnexpectedEof ''early eof''),
            r\<lparr>rd_bytes := []\<rparr>))"

definition encode :: "('m \<Rightarrow> string + byte list) \<Rightarrow> 'm \<Rightarrow> protocol_error + byte list" where
  "encode ser m =
     (case ser m of
        Inl e \<Rightarrow> Inl (ProtoJson e)
      | Inr js \<Rightarrow>
          (if length js > max_message_size then Inl (MessageTooLarge (length js) max_message_size)
           else Inr js))"

definition decode :: "(byte list \<Rightarrow> string + 'm) \<Rightarrow> byte list \<Rightarrow> protocol_error + 'm" where
  "decode de bs = (case de bs of Inl e \<Rightarrow> Inl (ProtoJson e) | Inr m \<Rightarrow> Inr m)"

definition read_message :: "(reader, protocol_error, byte list) comp" where
  "read_message =
     bind (map_err (\<lambda>e. if io_kind e = UnexpectedEof then ConnectionClosed else ProtoIo e)
             (read_exact 4)) (\<lambda>len_buf.
     (let len = unat (from_be_bytes len_buf)
      in if len > max_message_size then fail (MessageTooLarge len max_message_size)
         else map_err ProtoIo (read_exact len)))"

definition write_message :: "byte list \<Rightarrow> (byte list, protocol_error, unit) comp" where
  "write_message data w =
     (let len = length data
      in if len > max_message_size then (Inl (MessageTooLarge len max_message_size), w)
         else (Inr (), w @ to_be_bytes (of_nat len) @ data))"

text \<open>\<open>timeout(..)\<close>: whether the time ran out first is an input.\<close>

definition read_request ::
  "(byte list \<Rightarrow> string + request) \<Rightarrow> bool \<Rightarrow> (reader, protocol_error, request) comp" where
  "read_request de timed_out =
     (if timed_out then fail ProtoTimeout
      else bind read_message (\<lambda>bs. from_result (decode de bs)))"

definition write_response ::
  "(response \<Rightarrow> string + byte list) \<Rightarrow> bool \<Rightarrow> response \<Rightarrow> (byte list, protocol_error, unit) comp" where
  "write_response ser timed_out m =
     bind (from_result (encode ser m)) (\<lambda>data.
       if timed_out then fail ProtoTimeout else write_message data)"

section \<open>Lemmas\<close>

lemma length_to_be_bytes [simp]: "length (to_be_bytes w) = 4"
  by (simp add: to_be_bytes_def)

lemma from_to_be_bytes [simp]: "from_be_bytes (to_be_bytes w) = w"
proof (rule bit_word_eqI)
  fix n
  assume n: "n < LENGTH(32)"
  then consider "n < 8" | "8 \<le> n" "n < 16" | "16 \<le> n" "n < 24" | "24 \<le> n" "n < 32" by fastforce
  then show "bit (from_be_bytes (to_be_bytes w)) n = bit w n"
    by cases (auto simp: from_be_bytes_def to_be_bytes_def bit_simps)
qed

lemma max_message_size_bound: "n \<le> max_message_size \<Longrightarrow> n < 2 ^ 32"
  by (simp add: max_message_size_def)

lemma read_exact_append:
  "length bs = n \<Longrightarrow> read_exact n \<lparr>rd_bytes = bs @ rest, rd_error = e\<rparr> =
     (Inr bs, \<lparr>rd_bytes = rest, rd_error = e\<rparr>)"
  by (simp add: read_exact_def)

lemma read_written_message:
  assumes "length data \<le> max_message_size"
  shows "read_message \<lparr>rd_bytes = to_be_bytes (of_nat (length data)) @ data @ rest, rd_error = e\<rparr> =
    (Inr data, \<lparr>rd_bytes = rest, rd_error = e\<rparr>)"
proof -
  have "unat (of_nat (length data) :: 32 word) = length data"
    using max_message_size_bound [OF assms] by (simp add: unat_of_nat take_bit_nat_eq_self_iff)
  then show ?thesis
    using assms
    by (simp add: read_message_def bind_def map_err_def read_exact_append Let_def)
qed

fun write_all_messages :: "byte list list \<Rightarrow> (byte list, protocol_error, unit) comp" where
  "write_all_messages [] = ok ()"
| "write_all_messages (m # ms) = bind (write_message m) (\<lambda>_. write_all_messages ms)"

fun read_messages :: "nat \<Rightarrow> (reader, protocol_error, byte list list) comp" where
  "read_messages 0 = ok []"
| "read_messages (Suc n) =
     bind read_message (\<lambda>m. bind (read_messages n) (\<lambda>ms. ok (m # ms)))"

lemma write_all_messages_bytes:
  "write_all_messages ms w = (Inr (), w') \<Longrightarrow>
   (\<forall>m \<in> set ms. length m \<le> max_message_size) \<and>
   w' = w @ concat (map (\<lambda>m. to_be_bytes (of_nat (length m)) @ m) ms)"
proof (induction ms arbitrary: w)
  case (Cons m ms)
  then have "length m \<le> max_message_size"
    and "write_all_messages ms (w @ to_be_bytes (of_nat (length m)) @ m) = (Inr (), w')"
    by (auto simp: bind_def write_message_def Let_def split: prod.splits sum.splits if_splits)
  with Cons.IH [OF this(2)] show ?case by simp
qed (simp add: ok_def)

lemma read_messages_bytes:
  "\<forall>m \<in> set ms. length m \<le> max_message_size \<Longrightarrow>
   read_messages (length ms)
     \<lparr>rd_bytes = concat (map (\<lambda>m. to_be_bytes (of_nat (length m)) @ m) ms) @ rest, rd_error = e\<rparr> =
     (Inr ms, \<lparr>rd_bytes = rest, rd_error = e\<rparr>)"
  by (induction ms) (simp_all add: ok_def bind_def read_written_message)

section \<open>Properties\<close>

text \<open>C21: framing round trip: messages that were all written are read back, the same ones in the same
  order, and the reader is left with what was written after them.\<close>

theorem framing_roundtrip:
  assumes "write_all_messages ms [] = (Inr (), w)"
  shows "read_messages (length ms) \<lparr>rd_bytes = w @ rest, rd_error = e\<rparr> =
    (Inr ms, \<lparr>rd_bytes = rest, rd_error = e\<rparr>)"
  using write_all_messages_bytes [OF assms] read_messages_bytes [of ms rest e] by simp

theorem framing_roundtrip_witness:
  "read_messages 2 \<lparr>rd_bytes = [0, 0, 0, 2, 7, 8, 0, 0, 0, 0, 9], rd_error = None\<rparr> =
     (Inr [[7, 8], []], \<lparr>rd_bytes = [9], rd_error = None\<rparr>)"
proof -
  have "write_all_messages [[7, 8], []] [] = (Inr (), [0, 0, 0, 2, 7, 8, 0, 0, 0, 0])"
    by (simp add: bind_def write_message_def ok_def to_be_bytes_def max_message_size_def)
  from framing_roundtrip [OF this, of "[9]" None] show ?thesis by (simp add: numeral_2_eq_2)
qed

text \<open>C22: a message over the limit is neither written nor read: the writer is unchanged, and the reader
  rejects it on its length alone, before its payload; a stream that ends within the length is a closed
  connection, one that ends within the payload is an I/O error.\<close>

theorem framing_limits:
  "(max_message_size < length data \<longrightarrow>
     write_message data w = (Inl (MessageTooLarge (length data) max_message_size), w)) \<and>
   (max_message_size < unat len \<longrightarrow>
     fst (read_message \<lparr>rd_bytes = to_be_bytes len @ bs, rd_error = e\<rparr>) =
       Inl (MessageTooLarge (unat len) max_message_size)) \<and>
   (length bs < 4 \<longrightarrow>
     fst (read_message \<lparr>rd_bytes = bs, rd_error = None\<rparr>) = Inl ConnectionClosed) \<and>
   (unat len \<le> max_message_size \<longrightarrow> length bs < unat len \<longrightarrow>
     fst (read_message \<lparr>rd_bytes = to_be_bytes len @ bs, rd_error = None\<rparr>) =
       Inl (ProtoIo (IoError UnexpectedEof ''early eof'')))"
  by (auto simp: write_message_def read_message_def bind_def map_err_def read_exact_append Let_def
      fail_def) (auto simp: read_exact_def)

theorem framing_limits_witness:
  "fst (read_message \<lparr>rd_bytes = [12, 128, 0, 1, 5], rd_error = None\<rparr>) =
     Inl (MessageTooLarge 209715201 209715200)"
proof -
  have "to_be_bytes 209715201 @ [5] = [12, 128, 0, 1, 5]" by (simp add: to_be_bytes_def)
  moreover have "max_message_size = 209715200" by (simp add: max_message_size_def)
  ultimately show ?thesis
    using framing_limits [of "[]" "[]" 209715201 "[5]" None] by simp
qed

end
