(* ===== verification/Server.thy ===== *)
theory Server
  imports Loop_Properties Protocol
begin

text \<open>
  \<open>crates/daemon/src/server.rs\<close>: answering the requests of clients. As the processing of an event may
  not return, neither may the handling of a request (\<open>None\<close>).
\<close>

fun show_phase_status :: "phase_status \<Rightarrow> string" where
  "show_phase_status Pending = ''Pending''"
| "show_phase_status Running = ''Running''"
| "show_phase_status Waiting = ''Waiting''"
| "show_phase_status Completed = ''Completed''"
| "show_phase_status Failed = ''Failed''"

definition summary_of :: "pipeline \<Rightarrow> pipeline_summary" where
  "summary_of p =
     \<lparr>sm_id = id p, sm_name = name p, sm_kind = kind p, sm_phase = phase p,
      sm_phase_status = show_phase_status (status p)\<rparr>"

definition detail_of :: "pipeline \<Rightarrow> pipeline_detail" where
  "detail_of p =
     \<lparr>dt_id = id p, dt_name = name p, dt_kind = kind p, dt_phase = phase p,
      dt_phase_status = show_phase_status (status p), dt_inputs = inputs p,
      dt_workspace_path = workspace_path p, dt_session_id = session_id p, dt_error = error p\<rparr>"

fun handle_query :: "materialized_state \<Rightarrow> query \<Rightarrow> response" where
  "handle_query st ListPipelines = PipelinesResponse (map (summary_of \<circ> snd) (pipelines st))"
| "handle_query st (GetPipeline i) = PipelineResponse (map_option detail_of (get_pipeline st i))"
| "handle_query st ListSessions =
     SessionsResponse (map (\<lambda>(_, s). \<lparr>su_id = s_id s, su_pipeline_id = Some (s_pipeline_id s)\<rparr>)
       (sessions st))"

text \<open>The response to the outcome of \<open>process_event\<close>.\<close>

definition respond ::
  "response \<Rightarrow> ((lifecycle_error + unit) \<times> 'w daemon) option \<Rightarrow> (response \<times> 'w daemon) option" where
  "respond okay out =
     (case out of
        None \<Rightarrow> None
      | Some (Inr _, d) \<Rightarrow> Some (okay, d)
      | Some (Inl e, d) \<Rightarrow> Some (ErrorResponse (show_lifecycle_error e), d))"

definition status_response :: "instant \<Rightarrow> 'w daemon \<Rightarrow> response" where
  "status_response now d =
     StatusResponse ((now - dm_start_time d) div 1000000000)
       (length (filter (\<lambda>(_, p). \<not> is_terminal p) (pipelines (rt_state (dm_runtime d)))))
       (length (sessions (rt_state (dm_runtime d))))"

text \<open>The session a \<open>SessionSend\<close> is for: a session of that id, or that of the pipeline of that id.\<close>

definition find_session :: "materialized_state \<Rightarrow> string \<Rightarrow> string option" where
  "find_session st i =
     (if hm_contains (sessions st) i then Some i
      else (case hm_get (pipelines st) i of None \<Rightarrow> None | Some p \<Rightarrow> session_id p))"

fun handle_request ::
  "'w runtime_config \<Rightarrow> string \<Rightarrow> 'w daemon \<Rightarrow> request \<Rightarrow> (response \<times> 'w daemon) option" where
  "handle_request cfg version d Ping = Some (Pong, d)"
| "handle_request cfg version d (Hello _) = Some (HelloResponse version, d)"
| "handle_request cfg version d (EventRequest e) =
     respond (EventResponse True) (process_event cfg e d)"
| "handle_request cfg version d (QueryRequest q) =
     Some (handle_query (rt_state (dm_runtime d)) q, d)"
| "handle_request cfg version d Shutdown = Some (ShuttingDown, d\<lparr>dm_shutdown_requested := True\<rparr>)"
| "handle_request cfg version d StatusRequest =
     (case h_now (rc_host cfg) (rt_world (dm_runtime d)) of
        (now, w) \<Rightarrow> Some (status_response now d, set_world w d))"
| "handle_request cfg version d (SessionSend i input) =
     (case find_session (rt_state (dm_runtime d)) i of
        Some sid \<Rightarrow>
          respond OkResponse (process_event cfg
            (Custom ''session:send'' (json_strings [(''session_id'', sid), (''input'', input)])) d)
      | None \<Rightarrow> Some (ErrorResponse (''Session not found: '' @ i), d))"
| "handle_request cfg version d (PipelineResume i) =
     respond OkResponse (process_event cfg
       (Custom ''pipeline:resume'' (json_strings [(''pipeline_id'', i)])) d)"
| "handle_request cfg version d (PipelineFail i err) =
     respond OkResponse (process_event cfg (AgentError i err) d)"

section \<open>A connection\<close>

datatype server_error = ServerProtocol protocol_error | ServerTimeout

record codec =
  cd_request :: "byte list \<Rightarrow> string + request"
  cd_response :: "response \<Rightarrow> string + byte list"
  cd_version :: string

text \<open>The result, the bytes sent back and the daemon. Whether reading and writing time out are
  inputs.\<close>

definition handle_connection ::
  "'w runtime_config \<Rightarrow> codec \<Rightarrow> bool \<Rightarrow> bool \<Rightarrow> reader \<Rightarrow> 'w daemon \<Rightarrow>
   ((server_error + unit) \<times> byte list \<times> 'w daemon) option" where
  "handle_connection cfg c read_timeout write_timeout rd d =
     (case fst (read_request (cd_request c) read_timeout rd) of
        Inl ProtoTimeout \<Rightarrow> Some (Inl ServerTimeout, [], d)
      | Inl ConnectionClosed \<Rightarrow> Some (Inr (), [], d)
      | Inl e \<Rightarrow> Some (Inl (ServerProtocol e), [], d)
      | Inr req \<Rightarrow>
          (case handle_request cfg (cd_version c) d req of
             None \<Rightarrow> None
           | Some (resp, d1) \<Rightarrow>
               (case write_response (cd_response c) write_timeout resp [] of
                  (Inl e, out) \<Rightarrow> Some (Inl (ServerProtocol e), out, d1)
                | (Inr _, out) \<Rightarrow> Some (Inr (), out, d1))))"

section \<open>Properties\<close>

text \<open>A request sent with the protocol's framing is answered in the same framing: if the daemon
  handles the request and the response fits the limit, then what is written back reads as exactly the
  response, and a request that cannot be read leaves the daemon as it is.\<close>

lemma connection_answers:
  assumes "cd_request c payload = Inr req" and "length payload \<le> max_message_size"
    and "handle_request cfg (cd_version c) d req = Some (resp, d1)"
    and "cd_response c resp = Inr out" and "length out \<le> max_message_size"
  shows "\<exists>bytes. handle_connection cfg c False False
      \<lparr>rd_bytes = to_be_bytes (of_nat (length payload)) @ payload @ rest, rd_error = e\<rparr> d =
      Some (Inr (), bytes, d1) \<and>
    read_message \<lparr>rd_bytes = bytes, rd_error = None\<rparr> = (Inr out, \<lparr>rd_bytes = [], rd_error = None\<rparr>) \<and>
    (\<forall>wt rd x. fst (read_request (cd_request c) False rd) = Inl x \<longrightarrow>
      (\<exists>r. handle_connection cfg c False wt rd d = Some (r, [], d)))"
proof -
  have req: "fst (read_request (cd_request c) False
      \<lparr>rd_bytes = to_be_bytes (of_nat (length payload)) @ payload @ rest, rd_error = e\<rparr>) = Inr req"
    using assms(1) read_written_message [OF assms(2), of rest e]
    by (simp add: read_request_def bind_def from_result_def decode_def)
  have wr: "write_response (cd_response c) False resp [] =
      (Inr (), to_be_bytes (of_nat (length out)) @ out)"
    using assms(4,5) by (simp add: write_response_def encode_def bind_def from_result_def
        write_message_def Let_def)
  from read_written_message [OF assms(5), of "[]" None]
  have "read_message \<lparr>rd_bytes = to_be_bytes (of_nat (length out)) @ out, rd_error = None\<rparr> =
      (Inr out, \<lparr>rd_bytes = [], rd_error = None\<rparr>)" by simp
  moreover have "\<exists>r. handle_connection cfg c False wt rd d = Some (r, [], d)"
    if "fst (read_request (cd_request c) False rd) = Inl x" for wt rd x
    using that by (cases x) (simp_all add: handle_connection_def)
  ultimately show ?thesis using req wr assms(3) by (simp add: handle_connection_def)
qed

definition ping_codec :: codec where
  "ping_codec =
     \<lparr>cd_request = (\<lambda>bs. if bs = [1] then Inr Ping else Inl ''unknown''),
      cd_response = (\<lambda>r. Inr (if r = Pong then [2, 3] else [])), cd_version = ''0.1''\<rparr>"

lemma connection_answers_witness:
  "\<exists>bytes. handle_connection demo_config ping_codec False False
     \<lparr>rd_bytes = [0, 0, 0, 1, 1], rd_error = None\<rparr> (daemon_of fresh_runtime) =
     Some (Inr (), bytes, daemon_of fresh_runtime) \<and>
   read_message \<lparr>rd_bytes = bytes, rd_error = None\<rparr> = (Inr [2, 3], \<lparr>rd_bytes = [], rd_error = None\<rparr>)"
proof -
  have 1: "cd_request ping_codec [1] = Inr Ping" and 2: "length [1 :: byte] \<le> max_message_size"
    and 3: "handle_request demo_config (cd_version ping_codec) (daemon_of fresh_runtime) Ping =
      Some (Pong, daemon_of fresh_runtime)"
    and 4: "cd_response ping_codec Pong = Inr [2, 3]" and 5: "length [2 :: byte, 3] \<le> max_message_size"
    by (simp_all add: ping_codec_def max_message_size_def)
  have "to_be_bytes (of_nat (length [1 :: byte])) @ [1] @ [] = [0, 0, 0, 1, 1]"
    by (simp add: to_be_bytes_def)
  with connection_answers [OF 1 2 3 4 5, of "[]" None] show ?thesis by auto
qed

text \<open>What a listing shows is what a lookup finds: every pipeline in the answer to
  \<open>ListPipelines\<close> is found by \<open>GetPipeline\<close> under the id shown, with the same phase and status, and
  every pipeline of the state is listed once.\<close>

lemma list_and_get_agree:
  assumes "state_wf st" and "handle_query st ListPipelines = PipelinesResponse sums"
  shows "distinct (map sm_id sums) \<and>
    (\<forall>s \<in> set sums. \<exists>dt. handle_query st (GetPipeline (sm_id s)) = PipelineResponse (Some dt) \<and>
       dt_id dt = sm_id s \<and> dt_phase dt = sm_phase s \<and> dt_phase_status dt = sm_phase_status s) \<and>
    (\<forall>i p. hm_get (pipelines st) i = Some p \<longrightarrow> summary_of p \<in> set sums)"
proof -
  have sums: "sums = map (summary_of \<circ> snd) (pipelines st)" using assms(2) by simp
  have wf: "hm_wf (pipelines st)" and key: "\<And>k p. (k, p) \<in> set (pipelines st) \<Longrightarrow> id p = k"
    using assms(1) by (auto simp: state_wf_def hm.entries_lookup)
  have "map sm_id sums = map fst (pipelines st)"
    using key by (auto simp: sums summary_of_def)
  then have "distinct (map sm_id sums)" using wf by (simp add: hm_wf_def)
  moreover have "\<exists>dt. handle_query st (GetPipeline (sm_id s)) = PipelineResponse (Some dt) \<and>
       dt_id dt = sm_id s \<and> dt_phase dt = sm_phase s \<and> dt_phase_status dt = sm_phase_status s"
    if "s \<in> set sums" for s
  proof -
    from that obtain k p where p: "(k, p) \<in> set (pipelines st)" "s = summary_of p"
      by (auto simp: sums)
    with key wf have "hm_get (pipelines st) (id p) = Some p" by (auto simp: hm.entries_lookup)
    with p(2) show ?thesis by (simp add: summary_of_def detail_of_def get_pipeline_def)
  qed
  moreover have "summary_of p \<in> set sums" if "hm_get (pipelines st) i = Some p" for i p
    using that wf by (force simp: sums hm.entries_lookup [symmetric])
  ultimately show ?thesis by blast
qed

lemma list_and_get_agree_witness:
  "\<exists>dt. handle_query (rt_state (demo_runtime ''init'')) (GetPipeline ''p0'') =
     PipelineResponse (Some dt) \<and> dt_phase dt = ''init''"
proof -
  have wf: "state_wf (rt_state (demo_runtime ''init''))"
    by (auto simp: demo_runtime_def runtime_new_def state_wf_def state_default_def hm_wf_def
        hm_get_def demo_at_def pipeline_new_def split: if_splits)
  have "handle_query (rt_state (demo_runtime ''init'')) ListPipelines =
      PipelinesResponse [summary_of (demo_at ''init'')]"
    by (simp add: demo_runtime_def runtime_new_def)
  from list_and_get_agree [OF wf this] show ?thesis
    by (auto simp: summary_of_def demo_at_def pipeline_new_def)
qed

end
