(* ===== verification/Runbook_Parser.thy ===== *)
theory Runbook_Parser
  imports Runbook "HOL-Library.Word"
begin

text \<open>
  \<open>crates/runbook/src/parser.rs\<close>: from a TOML value to a runbook. The TOML library and the derived
  deserialisers are the operations of the record \<open>toml_lib\<close>; everything the parser does with the values
  is defined here. What the properties need of the derived deserialisers is what \<open>command.rs\<close> documents
  at \<open>RunDirective\<close>.
\<close>

section \<open>TOML values\<close>

text \<open>\<open>toml::Value\<close>; floats and dates, which the parser never looks into, are kept as their text.\<close>

datatype toml =
    TomlString string
  | TomlInteger int
  | TomlFloat string
  | TomlBoolean bool
  | TomlDatetime string
  | TomlArray "toml list"
  | TomlTable "(string \<times> toml) list"

definition toml_str :: "toml \<Rightarrow> string option" where
  "toml_str v = (case v of TomlString s \<Rightarrow> Some s | _ \<Rightarrow> None)"

definition toml_integer :: "toml \<Rightarrow> int option" where
  "toml_integer v = (case v of TomlInteger i \<Rightarrow> Some i | _ \<Rightarrow> None)"

definition toml_array :: "toml \<Rightarrow> toml list option" where
  "toml_array v = (case v of TomlArray vs \<Rightarrow> Some vs | _ \<Rightarrow> None)"

definition toml_table :: "toml \<Rightarrow> (string, toml) hmap option" where
  "toml_table v = (case v of TomlTable t \<Rightarrow> Some t | _ \<Rightarrow> None)"

text \<open>\<open>table.get(k).and_then(f)\<close>\<close>

definition field :: "(toml \<Rightarrow> 'a option) \<Rightarrow> string \<Rightarrow> (string, toml) hmap \<Rightarrow> 'a option" where
  "field f k t = (case hm_get t k of None \<Rightarrow> None | Some v \<Rightarrow> f v)"

section \<open>Errors and the library\<close>

fun show_arg_spec_error :: "arg_spec_error \<Rightarrow> string" where
  "show_arg_spec_error (InvalidSyntax s) = ''invalid argument syntax: '' @ s"
| "show_arg_spec_error (VariadicNotLast s) = ''variadic must be last: '' @ s"
| "show_arg_spec_error (OptionalBeforeRequired s) =
     ''optional positional cannot precede required: '' @ s"
| "show_arg_spec_error (DuplicateName s) = ''duplicate argument name: '' @ s"

datatype parse_error =
    TomlParse string
  | MissingField string
  | InvalidFormat string
  | ArgSpecInvalid arg_spec_error

fun show_parse_error :: "parse_error \<Rightarrow> string" where
  "show_parse_error (TomlParse e) = ''TOML parse error: '' @ e"
| "show_parse_error (MissingField s) = ''missing required field: '' @ s"
| "show_parse_error (InvalidFormat s) = ''invalid format: '' @ s"
| "show_parse_error (ArgSpecInvalid e) = ''invalid argument spec: '' @ show_arg_spec_error e"

text \<open>The two forms in which a command gives its arguments, \<open>ArgSpecRaw\<close>.\<close>

datatype arg_spec_raw = RawString string | RawStruct "string list" "(string, string option) hmap"

record toml_lib =
  tl_parse :: "string \<Rightarrow> string + toml"
  tl_run :: "toml \<Rightarrow> string + run_directive"
  tl_args :: "toml \<Rightarrow> string + arg_spec_raw"
  tl_agent :: "toml \<Rightarrow> string + agent_def"
  tl_custom :: "string \<Rightarrow> string"

text \<open>\<open>ArgSpec::deserialize\<close>\<close>

definition deserialize_args :: "toml_lib \<Rightarrow> toml \<Rightarrow> string + arg_spec" where
  "deserialize_args lib v =
     (case tl_args lib v of
        Inl e \<Rightarrow> Inl e
      | Inr (RawString s) \<Rightarrow>
          (case parse_arg_spec s of
             Inl e \<Rightarrow> Inl (tl_custom lib (show_arg_spec_error e))
           | Inr sp \<Rightarrow> Inr sp)
      | Inr (RawStruct pos named) \<Rightarrow> Inr (arg_spec_of_table pos named))"

section \<open>The parser\<close>

text \<open>The entries of a table that are strings, and the elements of an array that are.\<close>

definition string_entries :: "(string, toml) hmap \<Rightarrow> (string, string) hmap" where
  "string_entries t =
     List.map_filter (\<lambda>(k, v). map_option (Pair k) (toml_str v)) t"

definition string_elements :: "toml list \<Rightarrow> string list" where
  "string_elements vs = List.map_filter toml_str vs"

definition field_defaults :: "(string, toml) hmap \<Rightarrow> (string, string) hmap" where
  "field_defaults t =
     (case field toml_table ''defaults'' t of None \<Rightarrow> [] | Some d \<Rightarrow> string_entries d)"

definition field_strings :: "string \<Rightarrow> (string, toml) hmap \<Rightarrow> string list" where
  "field_strings k t = (case field toml_array k t of None \<Rightarrow> [] | Some vs \<Rightarrow> string_elements vs)"

definition parse_command :: "toml_lib \<Rightarrow> string \<Rightarrow> toml \<Rightarrow> parse_error + command_def" where
  "parse_command lib n value =
     (case toml_table value of
        None \<Rightarrow> Inl (InvalidFormat (''command.'' @ n @ '' must be a table''))
      | Some t \<Rightarrow>
          (case hm_get t ''run'' of
             None \<Rightarrow> Inl (MissingField (''command.'' @ n @ ''.run''))
           | Some run_value \<Rightarrow>
               (case tl_run lib run_value of
                  Inl e \<Rightarrow> Inl (InvalidFormat (''command.'' @ n @ ''.run: '' @ e))
                | Inr run \<Rightarrow>
                    (case (case hm_get t ''args'' of
                             Some v \<Rightarrow> deserialize_args lib v | None \<Rightarrow> Inr arg_spec_default) of
                       Inl e \<Rightarrow> Inl (InvalidFormat (''command.'' @ n @ ''.args: '' @ e))
                     | Inr args \<Rightarrow>
                         Inr \<lparr>cd_name = n, cd_args = args, cd_defaults = field_defaults t,
                              cd_run = run\<rparr>))))"

text \<open>\<open>v as u32\<close> on the signed integer of 64 bits.\<close>

definition parse_worker :: "string \<Rightarrow> toml \<Rightarrow> parse_error + worker_def" where
  "parse_worker n value =
     (case toml_table value of
        None \<Rightarrow> Inl (InvalidFormat (''worker.'' @ n @ '' must be a table''))
      | Some t \<Rightarrow>
          Inr \<lparr>wd_name = n,
               wd_concurrency = (case field toml_integer ''concurrency'' t of
                  None \<Rightarrow> 1 | Some i \<Rightarrow> unat (word_of_int i :: 32 word)),
               wd_pipelines = field_strings ''pipelines'' t\<rparr>)"

definition parse_phase :: "toml_lib \<Rightarrow> toml \<Rightarrow> parse_error + phase_def" where
  "parse_phase lib value =
     (case toml_table value of
        None \<Rightarrow> Inl (InvalidFormat ''phase must be a table'')
      | Some t \<Rightarrow>
          (case field toml_str ''name'' t of
             None \<Rightarrow> Inl (MissingField ''phase.name'')
           | Some n \<Rightarrow>
               (case (case hm_get t ''run'' of
                        Some v \<Rightarrow>
                          (case tl_run lib v of
                             Inl e \<Rightarrow> Inl (InvalidFormat (''phase.'' @ n @ ''.run: '' @ e))
                           | Inr run \<Rightarrow> Inr run)
                      | None \<Rightarrow>
                          (case field toml_str ''agent'' t of
                             Some a \<Rightarrow> Inr (RunAgent a)
                           | None \<Rightarrow> Inl (MissingField (''phase.'' @ n @ ''.run'')))) of
                  Inl e \<Rightarrow> Inl e
                | Inr run \<Rightarrow>
                    Inr \<lparr>ph_name = n, ph_run = run, ph_next = field toml_str ''next'' t,
                         ph_on_fail = field toml_str ''on_fail'' t\<rparr>)))"

text \<open>The array of phases, under either of its names; \<open>parse_phase(v).ok()\<close> keeps what parses.\<close>

definition phase_values :: "(string, toml) hmap \<Rightarrow> toml list" where
  "phase_values t =
     (case field toml_array ''phase'' t of
        Some vs \<Rightarrow> vs
      | None \<Rightarrow> (case field toml_array ''phases'' t of Some vs \<Rightarrow> vs | None \<Rightarrow> []))"

definition phase_ok :: "toml_lib \<Rightarrow> toml \<Rightarrow> phase_def option" where
  "phase_ok lib v = (case parse_phase lib v of Inl _ \<Rightarrow> None | Inr ph \<Rightarrow> Some ph)"

definition parse_pipeline :: "toml_lib \<Rightarrow> string \<Rightarrow> toml \<Rightarrow> parse_error + pipeline_def" where
  "parse_pipeline lib n value =
     (case toml_table value of
        None \<Rightarrow> Inl (InvalidFormat (''pipeline.'' @ n @ '' must be a table''))
      | Some t \<Rightarrow>
          Inr \<lparr>pl_name = n, pl_inputs = field_strings ''inputs'' t, pl_defaults = field_defaults t,
               pl_phases = List.map_filter (phase_ok lib) (phase_values t)\<rparr>)"

definition parse_agent :: "toml_lib \<Rightarrow> string \<Rightarrow> toml \<Rightarrow> parse_error + agent_def" where
  "parse_agent lib n value =
     (case tl_agent lib value of
        Inl e \<Rightarrow> Inl (InvalidFormat (''agent.'' @ n @ '': '' @ e))
      | Inr ag \<Rightarrow> Inr (ag\<lparr>ag_name := n\<rparr>))"

text \<open>The loop over the entries of a section, in the order of the table.\<close>

fun parse_entries ::
  "(string \<Rightarrow> toml \<Rightarrow> parse_error + 'a) \<Rightarrow> (string, toml) hmap \<Rightarrow> (string, 'a) hmap \<Rightarrow>
   parse_error + (string, 'a) hmap" where
  "parse_entries f [] m = Inr m"
| "parse_entries f ((n, v) # rest) m =
     (case f n v of Inl e \<Rightarrow> Inl e | Inr d \<Rightarrow> parse_entries f rest (hm_insert n d m))"

definition section_entries :: "string \<Rightarrow> (string, toml) hmap \<Rightarrow> (string, toml) hmap" where
  "section_entries k t = (case field toml_table k t of None \<Rightarrow> [] | Some s \<Rightarrow> s)"

definition parse_runbook :: "toml_lib \<Rightarrow> string \<Rightarrow> parse_error + runbook" where
  "parse_runbook lib content =
     (case tl_parse lib content of
        Inl e \<Rightarrow> Inl (TomlParse e)
      | Inr raw \<Rightarrow>
          (case toml_table raw of
             None \<Rightarrow> Inl (InvalidFormat ''root must be a table'')
           | Some t \<Rightarrow>
               (case parse_entries (parse_command lib) (section_entries ''command'' t) [] of
                  Inl e \<Rightarrow> Inl e
                | Inr cs \<Rightarrow>
               (case parse_entries parse_worker (section_entries ''worker'' t) [] of
                  Inl e \<Rightarrow> Inl e
                | Inr ws \<Rightarrow>
               (case parse_entries (parse_pipeline lib) (section_entries ''pipeline'' t) [] of
                  Inl e \<Rightarrow> Inl e
                | Inr ps \<Rightarrow>
               (case parse_entries (parse_agent lib) (section_entries ''agent'' t) [] of
                  Inl e \<Rightarrow> Inl e
                | Inr as \<Rightarrow>
                    Inr \<lparr>rb_commands = cs, rb_workers = ws, rb_pipelines = ps, rb_agents = as\<rparr>))))))"

section \<open>Properties\<close>

text \<open>The tables of the TOML library have distinct keys.\<close>

definition sections_wf :: "(string, toml) hmap \<Rightarrow> bool" where
  "sections_wf t \<longleftrightarrow>
     (\<forall>k \<in> {''command'', ''worker'', ''pipeline'', ''agent''}. hm_wf (section_entries k t))"

lemma hm_get_Cons: "hm_get ((k, v) # m) j = (if j = k then Some v else hm_get m j)"
  by (simp add: hm_get_def)

lemma parse_entries_Inr:
  assumes "parse_entries f t m = Inr m'" and "hm_wf t"
  shows "hm_get m' k = (case hm_get t k of None \<Rightarrow> hm_get m k | Some v \<Rightarrow> Some (projr (f k v))) \<and>
    (\<forall>v. hm_get t k = Some v \<longrightarrow> f k v = Inr (projr (f k v)))"
  using assms
proof (induction f t m rule: parse_entries.induct)
  case (2 f n v rest m)
  then obtain d where d: "f n v = Inr d" by (auto split: sum.splits)
  with 2 have IH: "hm_get m' k =
      (case hm_get rest k of None \<Rightarrow> hm_get (hm_insert n d m) k | Some v \<Rightarrow> Some (projr (f k v))) \<and>
      (\<forall>v. hm_get rest k = Some v \<longrightarrow> f k v = Inr (projr (f k v)))"
    by (simp add: hm_wf_def)
  have "hm_get rest n = None"
    using 2(3) by (auto simp: hm_wf_def hm_get_def map_of_eq_None_iff)
  with IH d show ?case by (auto simp: hm_get_Cons split: option.splits)
qed (simp add: split: option.split)

lemma parse_entries_total:
  "(\<exists>m'. parse_entries f t m = Inr m') \<longleftrightarrow> (\<forall>(k, v) \<in> set t. \<exists>d. f k v = Inr d)"
  by (induction f t m rule: parse_entries.induct) (auto split: sum.split)

lemma entries_all: "hm_wf t \<Longrightarrow> (\<forall>(k, v) \<in> set t. P k v) \<longleftrightarrow> (\<forall>k v. hm_get t k = Some v \<longrightarrow> P k v)"
  by (auto simp: hm.entries_lookup)

lemma parse_entries_lookup:
  assumes "parse_entries f t [] = Inr m" and "hm_wf t"
  shows "hm_get m k = Some d \<longleftrightarrow> (\<exists>v. hm_get t k = Some v \<and> f k v = Inr d)"
proof (cases "hm_get t k")
  case None
  with parse_entries_Inr [OF assms, of k] show ?thesis by simp
next
  case (Some v)
  with parse_entries_Inr [OF assms, of k] have "hm_get m k = Some (projr (f k v))"
    and "f k v = Inr (projr (f k v))" by simp_all
  with Some show ?thesis by (metis option.inject sum.sel(2))
qed

lemma parsed_names:
  "parse_command lib n v = Inr c \<Longrightarrow> cd_name c = n" "parse_worker n v = Inr w \<Longrightarrow> wd_name w = n"
  "parse_pipeline lib n v = Inr p \<Longrightarrow> pl_name p = n" "parse_agent lib n v = Inr a \<Longrightarrow> ag_name a = n"
  by (auto simp: parse_command_def parse_worker_def parse_pipeline_def parse_agent_def
      split: option.splits sum.splits)

lemma parse_runbook_Inr:
  assumes "tl_parse lib content = Inr (TomlTable t)"
  shows "parse_runbook lib content = Inr rb \<longleftrightarrow>
    parse_entries (parse_command lib) (section_entries ''command'' t) [] = Inr (rb_commands rb) \<and>
    parse_entries parse_worker (section_entries ''worker'' t) [] = Inr (rb_workers rb) \<and>
    parse_entries (parse_pipeline lib) (section_entries ''pipeline'' t) [] = Inr (rb_pipelines rb) \<and>
    parse_entries (parse_agent lib) (section_entries ''agent'' t) [] = Inr (rb_agents rb)"
  using assms by (cases rb) (auto simp: parse_runbook_def toml_table_def split: sum.split)

lemma parse_runbook_total:
  assumes "tl_parse lib content = Inr (TomlTable t)"
  shows "(\<exists>rb. parse_runbook lib content = Inr rb) \<longleftrightarrow>
    (\<exists>m. parse_entries (parse_command lib) (section_entries ''command'' t) [] = Inr m) \<and>
    (\<exists>m. parse_entries parse_worker (section_entries ''worker'' t) [] = Inr m) \<and>
    (\<exists>m. parse_entries (parse_pipeline lib) (section_entries ''pipeline'' t) [] = Inr m) \<and>
    (\<exists>m. parse_entries (parse_agent lib) (section_entries ''agent'' t) [] = Inr m)"
  using assms by (auto simp: parse_runbook_def toml_table_def split: sum.split)

lemma tables_parse:
  "(\<exists>w. parse_worker n v = Inr w) \<longleftrightarrow> toml_table v \<noteq> None"
  "(\<exists>p. parse_pipeline lib n v = Inr p) \<longleftrightarrow> toml_table v \<noteq> None"
  by (auto simp: parse_worker_def parse_pipeline_def split: option.splits)

text \<open>C38: a runbook parses exactly if every entry of its command and agent sections does and the
  entries of its worker and pipeline sections are tables, and then it holds exactly the definitions of
  these entries, each under the key of its entry and named by it.\<close>

theorem parse_runbook_entries:
  assumes "tl_parse lib content = Inr (TomlTable t)" and "sections_wf t"
  shows "((\<exists>rb. parse_runbook lib content = Inr rb) \<longleftrightarrow>
      (\<forall>n v. (hm_get (section_entries ''command'' t) n = Some v \<longrightarrow>
                (\<exists>c. parse_command lib n v = Inr c)) \<and>
             (hm_get (section_entries ''worker'' t) n = Some v \<longrightarrow> toml_table v \<noteq> None) \<and>
             (hm_get (section_entries ''pipeline'' t) n = Some v \<longrightarrow> toml_table v \<noteq> None) \<and>
             (hm_get (section_entries ''agent'' t) n = Some v \<longrightarrow>
                (\<exists>a. parse_agent lib n v = Inr a)))) \<and>
    (\<forall>rb n. parse_runbook lib content = Inr rb \<longrightarrow>
      (\<forall>c. get_command rb n = Some c \<longleftrightarrow>
        (\<exists>v. hm_get (section_entries ''command'' t) n = Some v \<and> parse_command lib n v = Inr c)) \<and>
      (\<forall>w. get_worker rb n = Some w \<longleftrightarrow>
        (\<exists>v. hm_get (section_entries ''worker'' t) n = Some v \<and> parse_worker n v = Inr w)) \<and>
      (\<forall>p. get_pipeline_def rb n = Some p \<longleftrightarrow>
        (\<exists>v. hm_get (section_entries ''pipeline'' t) n = Some v \<and> parse_pipeline lib n v = Inr p)) \<and>
      (\<forall>a. get_agent rb n = Some a \<longleftrightarrow>
        (\<exists>v. hm_get (section_entries ''agent'' t) n = Some v \<and> parse_agent lib n v = Inr a)) \<and>
      (\<forall>c. get_command rb n = Some c \<longrightarrow> cd_name c = n) \<and>
      (\<forall>p. get_pipeline_def rb n = Some p \<longrightarrow> pl_name p = n) \<and>
      (\<forall>a. get_agent rb n = Some a \<longrightarrow> ag_name a = n))"
proof -
  have wf: "hm_wf (section_entries ''command'' t)" "hm_wf (section_entries ''worker'' t)"
    "hm_wf (section_entries ''pipeline'' t)" "hm_wf (section_entries ''agent'' t)"
    using assms(2) by (simp_all add: sections_wf_def)
  note lookups = parse_runbook_Inr [OF assms(1)] parse_entries_lookup [OF _ wf(1)]
    parse_entries_lookup [OF _ wf(2)] parse_entries_lookup [OF _ wf(3)] parse_entries_lookup [OF _ wf(4)]
  show ?thesis
    unfolding parse_runbook_total [OF assms(1)] parse_entries_total tables_parse
      entries_all [OF wf(1)] entries_all [OF wf(2)] entries_all [OF wf(3)] entries_all [OF wf(4)]
    by (intro conjI allI impI)
      (auto simp: get_command_def get_worker_def get_pipeline_def_def get_agent_def lookups
        dest: parsed_names)
qed

section \<open>Phases that do not parse\<close>

lemma field_insert [simp]: "field f k (hm_insert k v t) = f v"
  "k \<noteq> j \<Longrightarrow> field f k (hm_insert j v t) = field f k t"
  by (simp_all add: field_def)

lemma phase_values_insert [simp]: "phase_values (hm_insert ''phase'' (TomlArray vs) t) = vs"
  by (simp add: phase_values_def toml_array_def)

lemma parse_pipeline_phase_array:
  "parse_pipeline lib n (TomlTable (hm_insert ''phase'' (TomlArray vs) t)) =
     Inr \<lparr>pl_name = n, pl_inputs = field_strings ''inputs'' t, pl_defaults = field_defaults t,
       pl_phases = List.map_filter (phase_ok lib) vs\<rparr>"
  by (simp add: parse_pipeline_def toml_table_def field_strings_def field_defaults_def)

lemma next_phase_between:
  assumes "pl_phases d = as @ x # y # bs" and "distinct (map ph_name (pl_phases d))"
    and "ph_next x = None"
  shows "next_phase d (ph_name x) = Some y"
  using next_phase_nth [OF assms(2), of "length as"] assms(1,3) by (simp add: nth_append)

text \<open>C39: a phase that does not parse, because of a misspelt directive, say, is left out without an
  error: the pipeline is the one without it. So a pipeline starts with the phase after a first phase
  that does not parse, and runs the phase after it directly after the one before it.\<close>

theorem misspelt_phase_dropped:
  assumes "parse_phase lib v = Inl e"
  shows "parse_pipeline lib n (TomlTable (hm_insert ''phase'' (TomlArray (as @ v # bs)) t)) =
      parse_pipeline lib n (TomlTable (hm_insert ''phase'' (TomlArray (as @ bs)) t)) \<and>
    (\<forall>d b rest y. as = [] \<longrightarrow> bs = b # rest \<longrightarrow> parse_phase lib b = Inr y \<longrightarrow>
      parse_pipeline lib n (TomlTable (hm_insert ''phase'' (TomlArray (as @ v # bs)) t)) = Inr d \<longrightarrow>
      first_phase d = Some y) \<and>
    (\<forall>d a before x b rest y. as = before @ [a] \<longrightarrow> bs = b # rest \<longrightarrow>
      parse_phase lib a = Inr x \<longrightarrow> parse_phase lib b = Inr y \<longrightarrow> ph_next x = None \<longrightarrow>
      parse_pipeline lib n (TomlTable (hm_insert ''phase'' (TomlArray (as @ v # bs)) t)) = Inr d \<longrightarrow>
      distinct (map ph_name (pl_phases d)) \<longrightarrow> next_phase d (ph_name x) = Some y)"
proof -
  have drop: "List.map_filter (phase_ok lib) (as @ v # bs) = List.map_filter (phase_ok lib) (as @ bs)"
    using assms by (simp add: List.map_filter_def phase_ok_def)
  have "first_phase d = Some y" if "as = []" "bs = b # rest" "parse_phase lib b = Inr y"
    "pl_phases d = List.map_filter (phase_ok lib) (as @ bs)" for d b rest y
    using that by (simp add: first_phase_def List.map_filter_def phase_ok_def)
  moreover have "next_phase d (ph_name x) = Some y" if "as = before @ [a]" "bs = b # rest"
    "parse_phase lib a = Inr x" "parse_phase lib b = Inr y" "ph_next x = None"
    "pl_phases d = List.map_filter (phase_ok lib) (as @ bs)"
    "distinct (map ph_name (pl_phases d))" for d a before x b rest y
    by (rule next_phase_between [OF _ that(7,5)])
      (use that(1-4,6) in \<open>simp add: List.map_filter_def phase_ok_def\<close>)
  ultimately show ?thesis unfolding parse_pipeline_phase_array drop by auto
qed

text \<open>Deserialisers as the comments of \<open>RunDirective\<close> and \<open>ArgSpec\<close> describe them, for the witnesses.\<close>

definition demo_run :: "toml \<Rightarrow> string + run_directive" where
  "demo_run v =
     (case v of
        TomlString s \<Rightarrow> Inr (RunShell s)
      | TomlTable t \<Rightarrow>
          (case (field toml_str ''pipeline'' t, field toml_str ''agent'' t, field toml_str ''strategy'' t) of
             (Some p, _, _) \<Rightarrow> Inr (RunPipeline p)
           | (None, Some a, _) \<Rightarrow> Inr (RunAgent a)
           | (None, None, Some s) \<Rightarrow> Inr (RunStrategy s)
           | _ \<Rightarrow> Inl ''no variant matches'')
      | _ \<Rightarrow> Inl ''no variant matches'')"

definition demo_toml_lib :: "toml \<Rightarrow> toml_lib" where
  "demo_toml_lib root =
     \<lparr>tl_parse = (\<lambda>_. Inr root), tl_run = demo_run,
      tl_args = (\<lambda>v. case v of TomlString s \<Rightarrow> Inr (RawString s) | _ \<Rightarrow> Inr (RawStruct [] [])),
      tl_agent = (\<lambda>v. case v of
         TomlTable t \<Rightarrow> (case field toml_str ''run'' t of
            Some r \<Rightarrow> Inr (agent_def_default\<lparr>ag_run := r\<rparr>) | None \<Rightarrow> Inl ''missing field run'')
       | _ \<Rightarrow> Inl ''not a table''),
      tl_custom = (\<lambda>s. s)\<rparr>"

definition demo_phase :: "string \<Rightarrow> string \<Rightarrow> toml" where
  "demo_phase n key = TomlTable [(''name'', TomlString n), (key, TomlString ''make'')]"

definition demo_pipeline_table :: "(string, toml) hmap" where
  "demo_pipeline_table = [(''inputs'', TomlArray [TomlString ''name''])]"

definition demo_toml :: toml where
  "demo_toml = TomlTable
     [(''command'', TomlTable [(''build'', TomlTable [(''args'', TomlString ''<name>''),
         (''run'', TomlTable [(''pipeline'', TomlString ''build'')])])]),
      (''pipeline'', TomlTable [(''build'', TomlTable
         [(''phase'', TomlArray [demo_phase ''init'' ''run''])])])]"

theorem parse_runbook_entries_witness:
  "\<exists>rb. parse_runbook (demo_toml_lib demo_toml) ''...'' = Inr rb \<and>
     map_option cd_run (get_command rb ''build'') = Some (RunPipeline ''build'')"
proof -
  let ?lib = "demo_toml_lib demo_toml"
  let ?c = "TomlTable [(''args'', TomlString ''<name>''),
         (''run'', TomlTable [(''pipeline'', TomlString ''build'')])]"
  obtain t where t: "demo_toml = TomlTable t" by (simp add: demo_toml_def)
  have 1: "tl_parse ?lib ''...'' = Inr (TomlTable t)" by (simp add: demo_toml_lib_def t)
  have sec: "section_entries ''command'' t = [(''build'', ?c)]" "section_entries ''worker'' t = []"
    "section_entries ''agent'' t = []" "section_entries ''pipeline'' t =
      [(''build'', TomlTable [(''phase'', TomlArray [demo_phase ''init'' ''run''])])]"
    using t by (auto simp: demo_toml_def section_entries_def field_def toml_table_def hm_get_def)
  have 2: "sections_wf t" by (simp add: sections_wf_def sec hm_wf_def)
  have c: "parse_command ?lib ''build'' ?c = Inr
      \<lparr>cd_name = ''build'', cd_args = \<lparr>positional = [\<lparr>ad_name = ''name'', ad_required = True\<rparr>],
         flags = [], options = [], variadic = None\<rparr>, cd_defaults = [], cd_run = RunPipeline ''build''\<rparr>"
    by code_simp
  from parse_runbook_entries [OF 1 2] obtain rb where rb: "parse_runbook ?lib ''...'' = Inr rb"
    using c by (auto simp: sec hm_get_Cons toml_table_def split: if_splits)
  with parse_runbook_entries [OF 1 2] c have "get_command rb ''build'' \<noteq> None"
    and "\<forall>d. get_command rb ''build'' = Some d \<longrightarrow> cd_run d = RunPipeline ''build''"
    by (auto simp: sec hm_get_Cons)
  with rb show ?thesis by auto
qed

theorem misspelt_phase_dropped_witness:
  "\<exists>d. parse_pipeline (demo_toml_lib demo_toml) ''build'' (TomlTable (hm_insert ''phase''
       (TomlArray [demo_phase ''init'' ''rnu'', demo_phase ''test'' ''run'']) demo_pipeline_table)) = Inr d \<and>
     map_option ph_name (first_phase d) = Some ''test''"
proof -
  let ?lib = "demo_toml_lib demo_toml"
  have 1: "parse_phase ?lib (demo_phase ''init'' ''rnu'') = Inl (MissingField ''phase.init.run'')"
    and 2: "parse_phase ?lib (demo_phase ''test'' ''run'') =
      Inr \<lparr>ph_name = ''test'', ph_run = RunShell ''make'', ph_next = None, ph_on_fail = None\<rparr>"
    by code_simp+
  obtain d where d: "parse_pipeline ?lib ''build'' (TomlTable (hm_insert ''phase''
       (TomlArray ([] @ demo_phase ''init'' ''rnu'' # [demo_phase ''test'' ''run''])) demo_pipeline_table)) = Inr d"
    by (simp add: parse_pipeline_phase_array)
  with misspelt_phase_dropped [OF 1] 2 have "first_phase d =
      Some \<lparr>ph_name = ''test'', ph_run = RunShell ''make'', ph_next = None, ph_on_fail = None\<rparr>"
    by blast
  with d show ?thesis by auto
qed

section \<open>Legacy formats and bounds\<close>

text \<open>The legacy forms mean the same as the current ones: a phase with an \<open>agent\<close> field and no
  \<open>run\<close> is the phase that runs that agent, and a pipeline whose phases stand under \<open>phases\<close>
  is the one with the same array under \<open>phase\<close>. The derived deserialiser of run directives reads
  \<open>{ agent = a }\<close> as the agent \<open>a\<close>.\<close>

lemma legacy_formats_agree:
  assumes "\<And>a. tl_run lib (TomlTable [(''agent'', TomlString a)]) = Inr (RunAgent a)"
  shows "(hm_get t ''run'' = None \<longrightarrow> field toml_str ''agent'' t = Some a \<longrightarrow>
      parse_phase lib (TomlTable t) =
      parse_phase lib (TomlTable (hm_insert ''run'' (TomlTable [(''agent'', TomlString a)]) t))) \<and>
    (field toml_array ''phase'' t = None \<longrightarrow> field toml_array ''phases'' t = Some vs \<longrightarrow>
      parse_pipeline lib n (TomlTable t) =
      parse_pipeline lib n (TomlTable (hm_insert ''phase'' (TomlArray vs) t)))"
proof (intro conjI impI)
  assume "hm_get t ''run'' = None" and "field toml_str ''agent'' t = Some a"
  then show "parse_phase lib (TomlTable t) =
      parse_phase lib (TomlTable (hm_insert ''run'' (TomlTable [(''agent'', TomlString a)]) t))"
    by (simp add: parse_phase_def toml_table_def assms split: option.split)
next
  assume "field toml_array ''phase'' t = None" and "field toml_array ''phases'' t = Some vs"
  then show "parse_pipeline lib n (TomlTable t) =
      parse_pipeline lib n (TomlTable (hm_insert ''phase'' (TomlArray vs) t))"
    unfolding parse_pipeline_phase_array
    by (simp add: parse_pipeline_def toml_table_def phase_values_def)
qed

lemma legacy_formats_agree_witness:
  "map_option ph_run (phase_ok (demo_toml_lib demo_toml)
     (TomlTable [(''name'', TomlString ''plan''), (''agent'', TomlString ''planner'')])) =
   Some (RunAgent ''planner'')"
proof -
  let ?lib = "demo_toml_lib demo_toml"
  let ?t = "[(''name'', TomlString ''plan''), (''agent'', TomlString ''planner'')]"
  have run: "tl_run ?lib (TomlTable [(''agent'', TomlString a)]) = Inr (RunAgent a)" for a
    by (simp add: demo_toml_lib_def demo_run_def field_def hm_get_def toml_str_def)
  have "hm_get ?t ''run'' = None" and "field toml_str ''agent'' ?t = Some ''planner''"
    by (simp_all add: hm_get_def field_def toml_str_def)
  with legacy_formats_agree [OF run, of ?t "''planner''"]
  have "parse_phase ?lib (TomlTable ?t) = parse_phase ?lib
      (TomlTable (hm_insert ''run'' (TomlTable [(''agent'', TomlString ''planner'')]) ?t))" by blast
  moreover have "map_option ph_run (phase_ok ?lib (TomlTable
      (hm_insert ''run'' (TomlTable [(''agent'', TomlString ''planner'')]) ?t))) =
      Some (RunAgent ''planner'')" by code_simp
  ultimately show ?thesis by (simp add: phase_ok_def)
qed

text \<open>The concurrency of a worker is the configured integer modulo \<open>2 ^ 32\<close>, and so is the configured
  one exactly if that fits an unsigned integer of 32 bits: no value is rejected, \<open>-1\<close> becomes the
  largest and \<open>2 ^ 32\<close> becomes zero.\<close>

lemma worker_concurrency_wraps:
  assumes "field toml_integer ''concurrency'' t = Some i"
  shows "\<exists>w. parse_worker n (TomlTable t) = Inr w \<and> int (wd_concurrency w) = i mod 2 ^ 32 \<and>
    (int (wd_concurrency w) = i \<longleftrightarrow> 0 \<le> i \<and> i < 2 ^ 32)"
proof -
  have "int (unat (word_of_int i :: 32 word)) = i mod 2 ^ 32"
    by (simp add: unsigned_of_int take_bit_eq_mod)
  moreover have "i mod 2 ^ 32 = i \<longleftrightarrow> 0 \<le> i \<and> i < 2 ^ 32"
    by (metis mod_pos_pos_trivial pos_mod_bound pos_mod_sign zero_less_numeral zero_less_power)
  ultimately show ?thesis using assms by (simp add: parse_worker_def toml_table_def)
qed

lemma worker_concurrency_wraps_witness:
  "map_option wd_concurrency (case parse_worker ''w'' (TomlTable [(''concurrency'', TomlInteger (-1))]) of
     Inr w \<Rightarrow> Some w | Inl _ \<Rightarrow> None) = Some 4294967295"
proof -
  have "field toml_integer ''concurrency'' [(''concurrency'', TomlInteger (-1))] = Some (-1)"
    by (simp add: field_def hm_get_def toml_integer_def)
  from worker_concurrency_wraps [OF this, of "''w''"] show ?thesis by auto
qed

end
