(* ===== verification/Lifecycle.thy ===== *)
theory Lifecycle
  imports Server Runbook_Parser
begin

text \<open>
  \<open>crates/daemon/src/lifecycle.rs\<close> and \<open>main.rs\<close>: the paths of a project's daemon, its start-up from
  the log, the cleaning up after a failed start, shutdown, and the main loop. \<open>os\<close> gathers the calls of
  the file system and of the libraries that these parts make (SHA-256, TOML, the deserialisation of
  log entries); it acts on the world \<open>'w\<close> like \<open>host\<close>.
\<close>

section \<open>Configuration\<close>

record 'w os =
  os_canonicalize :: "path \<Rightarrow> 'w \<Rightarrow> io_error + path"
  os_env :: "string \<Rightarrow> 'w \<Rightarrow> string option"
  os_sha256 :: "string \<Rightarrow> byte list"
  os_parent :: "path \<Rightarrow> path option"
  os_exists :: "path \<Rightarrow> 'w \<Rightarrow> bool"
  os_create_dir_all :: "path \<Rightarrow> ('w, io_error, unit) comp"
  os_create_file :: "path \<Rightarrow> ('w, io_error, unit) comp"
  os_try_lock :: "path \<Rightarrow> ('w, io_error, unit) comp"
  os_write_line :: "path \<Rightarrow> string \<Rightarrow> ('w, io_error, unit) comp"
  os_write_file :: "path \<Rightarrow> string \<Rightarrow> ('w, io_error, unit) comp"
  os_append :: "path \<Rightarrow> string \<Rightarrow> ('w, io_error, unit) comp"
  os_remove_file :: "path \<Rightarrow> ('w, io_error, unit) comp"
  os_bind :: "path \<Rightarrow> ('w, io_error, unit) comp"
  os_open_log :: "path \<Rightarrow> ('w, io_error, string) comp"
  os_read_file :: "path \<Rightarrow> 'w \<Rightarrow> io_error + string"
  os_read_dir :: "path \<Rightarrow> 'w \<Rightarrow> io_error + string list"
  os_toml :: toml_lib
  os_de :: "string \<Rightarrow> string + wal_entry"
  os_format :: "string \<Rightarrow> string \<Rightarrow> 'w \<Rightarrow> string option"
  os_pid :: nat
  os_version :: string

definition hex_digit :: "nat \<Rightarrow> char" where
  "hex_digit n = (if n < 10 then char_of (48 + n) else char_of (87 + n))"

definition hex_encode :: "byte list \<Rightarrow> string" where
  "hex_encode bs = concat (map (\<lambda>b. [hex_digit (unat b div 16), hex_digit (unat b mod 16)]) bs)"

definition project_hash :: "'w os \<Rightarrow> path \<Rightarrow> string" where
  "project_hash os p = hex_encode (take 8 (os_sha256 os p))"

definition state_dir :: "'w os \<Rightarrow> 'w \<Rightarrow> lifecycle_error + path" where
  "state_dir os w =
     (case os_env os ''XDG_STATE_HOME'' w of
        Some x \<Rightarrow> Inr (path_join x ''oj'')
      | None \<Rightarrow>
          (case os_env os ''HOME'' w of
             Some x \<Rightarrow> Inr (path_join x ''.local/state/oj'')
           | None \<Rightarrow> Inl NoStateDir))"

definition socket_dir :: "'w os \<Rightarrow> 'w \<Rightarrow> path" where
  "socket_dir os w = (case os_env os ''OJ_SOCKET_DIR'' w of Some d \<Rightarrow> d | None \<Rightarrow> ''/tmp/oj'')"

definition for_project :: "'w os \<Rightarrow> path \<Rightarrow> 'w \<Rightarrow> lifecycle_error + daemon_config" where
  "for_project os project_root w =
     (case os_canonicalize os project_root w of
        Inl e \<Rightarrow> Inl (ProjectNotFound project_root e)
      | Inr canonical \<Rightarrow>
          (let hash = project_hash os canonical
           in case state_dir os w of
                Inl e \<Rightarrow> Inl e
              | Inr base \<Rightarrow>
                  (let dir = path_join (path_join base ''projects'') hash
                   in Inr \<lparr>dc_project_root = canonical,
                        dc_socket_path = path_join (socket_dir os w) (hash @ ''.sock''),
                        dc_lock_path = path_join dir ''daemon.pid'',
                        dc_version_path = path_join dir ''daemon.version'',
                        dc_log_path = path_join dir ''daemon.log'',
                        dc_wal_path = path_join (path_join dir ''wal'') ''events.wal'',
                        dc_workspaces_path = path_join dir ''workspaces''\<rparr>)))"

section \<open>Start-up\<close>

definition io :: "('w, io_error, 'a) comp \<Rightarrow> ('w, lifecycle_error, 'a) comp" where
  "io m = map_err LifecycleIo m"

definition create_parent :: "'w os \<Rightarrow> path \<Rightarrow> ('w, lifecycle_error, unit) comp" where
  "create_parent os p =
     (case os_parent os p of Some d \<Rightarrow> io (os_create_dir_all os d) | None \<Rightarrow> ok ())"

text \<open>The loop that reads the runbook files of a directory, appending a line feed to each.\<close>

fun read_runbooks :: "'w os \<Rightarrow> path \<Rightarrow> string list \<Rightarrow> 'w \<Rightarrow> io_error + string" where
  "read_runbooks os dir [] w = Inr []"
| "read_runbooks os dir (n # ns) w =
     (if extension n = Some ''toml'' then
        (case os_read_file os (path_join dir n) w of
           Inl e \<Rightarrow> Inl e
         | Inr t \<Rightarrow>
             (case read_runbooks os dir ns w of Inl e \<Rightarrow> Inl e | Inr rest \<Rightarrow> Inr (t @ nl @ rest)))
      else read_runbooks os dir ns w)"

definition load_runbook :: "'w os \<Rightarrow> path \<Rightarrow> 'w \<Rightarrow> lifecycle_error + runbook" where
  "load_runbook os project_root w =
     (let dir = path_join project_root ''.oj/runbooks''
      in if \<not> os_exists os dir w then Inr runbook_default
         else (case os_read_dir os dir w of
                 Inl e \<Rightarrow> Inl (LifecycleIo e)
               | Inr ns \<Rightarrow>
                   (case read_runbooks os dir ns w of
                      Inl e \<Rightarrow> Inl (LifecycleIo e)
                    | Inr content \<Rightarrow>
                        (if content = [] then Inr runbook_default
                         else (case parse_runbook (os_toml os) content of
                                 Inl e \<Rightarrow> Inl (RunbookParse (show_parse_error e))
                               | Inr rb \<Rightarrow> Inr rb)))))"

text \<open>The replayed operations are applied one after the other, each at the time it is applied.\<close>

fun apply_replayed ::
  "('w \<Rightarrow> instant \<times> 'w) \<Rightarrow> operation list \<Rightarrow> materialized_state \<Rightarrow> 'w \<Rightarrow> materialized_state \<times> 'w"
where
  "apply_replayed now [] st w = (st, w)"
| "apply_replayed now (op # ops) st w =
     (case now w of (t, w1) \<Rightarrow> apply_replayed now ops (apply_op t op st) w1)"

definition replay_state ::
  "'w os \<Rightarrow> ('w \<Rightarrow> instant \<times> 'w) \<Rightarrow> path \<Rightarrow> ('w, lifecycle_error, wal \<times> materialized_state) comp"
where
  "replay_state os now p w =
     (case os_open_log os p w of
        (Inl e, w1) \<Rightarrow> (Inl (LifecycleWal (WalIo e)), w1)
      | (Inr txt, w1) \<Rightarrow>
          (case wal_open (Inr txt) of
             Inl e \<Rightarrow> (Inl (LifecycleWal e), w1)
           | Inr l \<Rightarrow>
               (case wal_replay (os_de os) (os_read_file os p w1) of
                  Inl e \<Rightarrow> (Inl (LifecycleWal e), w1)
                | Inr ops \<Rightarrow>
                    (case apply_replayed now ops state_default w1 of
                       (st, w2) \<Rightarrow> (Inr (l, st), w2)))))"

text \<open>What a start warns of. Nothing is done about it: \<open>startup_inner\<close> only writes these lines to the log.\<close>

definition reconcile_state :: "materialized_state \<Rightarrow> string list" where
  "reconcile_state st =
     (let in_progress = filter (\<lambda>p. \<not> is_terminal p) (map snd (pipelines st))
      in (if in_progress = [] then []
          else (''Found '' @ show_nat (length in_progress) @
                 '' in-progress pipelines from previous session (manual intervention may be needed)'') #
               map (\<lambda>p. ''  - '' @ id p @ '' ('' @ name p @ ''): '' @ phase p) in_progress) @
         (if sessions st = [] then []
          else [''Found '' @ show_nat (length (sessions st)) @
                 '' sessions from previous session (may be stale)'']))"

text \<open>The adapters of the daemon: tmux and git behind the tracing wrappers, no notifications.\<close>

definition daemon_host :: "'w os \<Rightarrow> 'w host \<Rightarrow> 'w runner \<Rightarrow> path \<Rightarrow> 'w host" where
  "daemon_host os base run project_root =
     base\<lparr>h_sessions := traced_session (os_exists os) (tmux_session run),
          h_repos := traced_repo (os_exists os) (os_parent os) (git_repo run project_root),
          h_notify := noop_notify\<rparr>"

definition startup_inner ::
  "'w os \<Rightarrow> 'w host \<Rightarrow> 'w runner \<Rightarrow> daemon_config \<Rightarrow>
   ('w, lifecycle_error, 'w runtime_config \<times> wal \<times> materialized_state) comp" where
  "startup_inner os base run c =
     bind (create_parent os (dc_socket_path c)) (\<lambda>_.
     bind (io (os_create_file os (dc_lock_path c))) (\<lambda>_.
     bind (map_err LockFailed (os_try_lock os (dc_lock_path c))) (\<lambda>_.
     bind (io (os_write_line os (dc_lock_path c) (show_nat (os_pid os)))) (\<lambda>_.
     bind (create_parent os (dc_socket_path c)) (\<lambda>_.
     bind (create_parent os (dc_wal_path c)) (\<lambda>_.
     bind (io (os_create_dir_all os (dc_workspaces_path c))) (\<lambda>_.
     bind (io (os_write_file os (dc_version_path c) (os_version os))) (\<lambda>_.
     bind (gets (load_runbook os (dc_project_root c))) (\<lambda>loaded.
     bind (from_result loaded) (\<lambda>rb.
     bind (replay_state os (h_now base) (dc_wal_path c)) (\<lambda>(l, st).
     bind (gets (os_exists os (dc_socket_path c))) (\<lambda>stale.
     bind (if stale then io (os_remove_file os (dc_socket_path c)) else ok ()) (\<lambda>_.
     bind (map_err (BindFailed (dc_socket_path c)) (os_bind os (dc_socket_path c))) (\<lambda>_.
     ok (\<lparr>rc_host = daemon_host os base run (dc_project_root c), rc_runbook = rb,
          rc_project_root = dc_project_root c, rc_worktree_root = dc_workspaces_path c\<rparr>,
         l, st)))))))))))))))"

text \<open>\<open>if path.exists() { let _ = remove_file(path); }\<close>\<close>

definition remove_if_exists :: "'w os \<Rightarrow> path \<Rightarrow> 'w \<Rightarrow> 'w" where
  "remove_if_exists os p w = (if os_exists os p w then snd (os_remove_file os p w) else w)"

definition cleanup_on_failure :: "'w os \<Rightarrow> daemon_config \<Rightarrow> 'w \<Rightarrow> 'w" where
  "cleanup_on_failure os c w =
     remove_if_exists os (dc_lock_path c)
       (remove_if_exists os (dc_version_path c) (remove_if_exists os (dc_socket_path c) w))"

text \<open>The new daemon has a runtime with a scheduler of its own and, beside it, another new scheduler.\<close>

definition startup ::
  "'w os \<Rightarrow> 'w host \<Rightarrow> 'w runner \<Rightarrow> daemon_config \<Rightarrow>
   ('w, lifecycle_error, 'w runtime_config \<times> 'w daemon) comp" where
  "startup os base run c w =
     (case startup_inner os base run c w of
        (Inl e, w1) \<Rightarrow> (Inl e, cleanup_on_failure os c w1)
      | (Inr (cfg, l, st), w1) \<Rightarrow>
          (case h_now base w1 of
             (now, w2) \<Rightarrow>
               (Inr (cfg, \<lparr>dm_config = c, dm_runtime = runtime_new l st w2,
                  dm_scheduler = scheduler_new, dm_start_time = now,
                  dm_shutdown_requested = False\<rparr>), w2)))"

definition shutdown :: "'w os \<Rightarrow> 'w daemon \<Rightarrow> 'w daemon" where
  "shutdown os d =
     (let c = dm_config d
      in set_world (remove_if_exists os (dc_version_path c)
           (remove_if_exists os (dc_lock_path c)
             (remove_if_exists os (dc_socket_path c) (rt_world (dm_runtime d))))) d)"

section \<open>The main loop\<close>

record 'w loop_state =
  lp_daemon :: "'w daemon"
  lp_last_check :: instant

datatype loop_input =
    Connection reader bool bool
  | AcceptError
  | InternalEvent event
  | Tick
  | Signal

definition session_check_interval :: duration where
  "session_check_interval = from_secs 10"

text \<open>The branch of the sleep: heartbeats, whose errors are logged, and every ten seconds the sessions.\<close>

definition loop_tick ::
  "'w runtime_config \<Rightarrow> 'w session_adapter \<Rightarrow> 'w loop_state \<Rightarrow> 'w loop_state option" where
  "loop_tick cfg tmux l =
     (case check_heartbeats cfg (lp_daemon l) of
        None \<Rightarrow> None
      | Some (_, d) \<Rightarrow>
          (case h_now (rc_host cfg) (rt_world (dm_runtime d)) of
             (now, w) \<Rightarrow>
               (if session_check_interval \<le> now - lp_last_check l then
                  (case h_now (rc_host cfg) w of
                     (checked, w1) \<Rightarrow>
                       Some \<lparr>lp_daemon = run_session_check cfg tmux (set_world w1 d),
                         lp_last_check = checked\<rparr>)
                else Some (l\<lparr>lp_daemon := set_world w d\<rparr>))))"

text \<open>One turn of the loop: whether it was the last one, and the state after it.\<close>

definition loop_step ::
  "'w os \<Rightarrow> 'w runtime_config \<Rightarrow> codec \<Rightarrow> 'w session_adapter \<Rightarrow> loop_input \<Rightarrow> 'w loop_state \<Rightarrow>
   (bool \<times> 'w loop_state) option" where
  "loop_step os cfg c tmux inp l =
     (case (case inp of
              Connection rd rt wt \<Rightarrow>
                map_option (\<lambda>(_, _, d). (False, l\<lparr>lp_daemon := d\<rparr>))
                  (handle_connection cfg c rt wt rd (lp_daemon l))
            | AcceptError \<Rightarrow> Some (False, l)
            | InternalEvent e \<Rightarrow>
                map_option (\<lambda>(_, d). (False, l\<lparr>lp_daemon := d\<rparr>)) (process_event cfg e (lp_daemon l))
            | Tick \<Rightarrow> map_option (\<lambda>l1. (False, l1)) (loop_tick cfg tmux l)
            | Signal \<Rightarrow> Some (True, l\<lparr>lp_daemon := shutdown os (lp_daemon l)\<rparr>)) of
        None \<Rightarrow> None
      | Some (True, l1) \<Rightarrow> Some (True, l1)
      | Some (False, l1) \<Rightarrow>
          (if dm_shutdown_requested (lp_daemon l1)
           then Some (True, l1\<lparr>lp_daemon := shutdown os (lp_daemon l1)\<rparr>)
           else Some (False, l1)))"

text \<open>The states of the daemon between the turns of its loop.\<close>

inductive daemon_runs ::
  "'w os \<Rightarrow> 'w runtime_config \<Rightarrow> codec \<Rightarrow> 'w session_adapter \<Rightarrow> 'w loop_state \<Rightarrow> 'w loop_state \<Rightarrow> bool"
  for os cfg c tmux where
  loop_start: "daemon_runs os cfg c tmux l l"
| loop_turn: "daemon_runs os cfg c tmux l l1 \<Longrightarrow> loop_step os cfg c tmux inp l1 = Some (False, l2) \<Longrightarrow>
    daemon_runs os cfg c tmux l l2"
| loop_outside: "daemon_runs os cfg c tmux l l1 \<Longrightarrow>
    daemon_runs os cfg c tmux l (l1\<lparr>lp_daemon := set_world w (lp_daemon l1)\<rparr>)"

inductive_cases daemon_runsE: "daemon_runs os cfg c tmux l l2"

section \<open>The program\<close>

text \<open>\<open>main\<close> up to the loop: the line written before anything else, by which the client finds where the
  current start begins in the log, the line with the reason when the start fails, and what the tracing
  library writes to the same file: a text for a message of a level, with a time and colours as the
  library formats it, or nothing if its filter leaves the message out (\<open>os_format\<close>). It writes from a
  thread of its own, which has written everything when \<open>log_guard\<close> is dropped.\<close>

definition startup_marker_prefix :: string where
  "startup_marker_prefix = ''--- ojd: starting (pid: ''"

definition startup_marker_line :: "nat \<Rightarrow> string" where
  "startup_marker_line pid = startup_marker_prefix @ show_nat pid @ '')'' @ nl"

definition write_startup_marker :: "'w os \<Rightarrow> daemon_config \<Rightarrow> ('w, lifecycle_error, unit) comp" where
  "write_startup_marker os c =
     bind (create_parent os (dc_log_path c)) (\<lambda>_.
     io (os_append os (dc_log_path c) (startup_marker_line (os_pid os))))"

definition startup_error_line :: "lifecycle_error \<Rightarrow> string" where
  "startup_error_line e = ''ERROR Failed to start daemon: '' @ show_lifecycle_error e @ nl"

definition write_startup_error :: "'w os \<Rightarrow> daemon_config \<Rightarrow> lifecycle_error \<Rightarrow> 'w \<Rightarrow> 'w" where
  "write_startup_error os c e w = snd (os_append os (dc_log_path c) (startup_error_line e) w)"

text \<open>\<open>Path::file_name\<close> on Unix: the last component, unless it is the root or goes up.\<close>

definition file_name :: "path \<Rightarrow> string option" where
  "file_name p =
     (case rev (filter (\<lambda>c. c \<noteq> [] \<and> c \<noteq> ''.'') (split_on (CHR ''/'') p)) of
        [] \<Rightarrow> None
      | c # _ \<Rightarrow> (if c = ''..'' then None else Some c))"

definition setup_logging :: "'w os \<Rightarrow> daemon_config \<Rightarrow> ('w, lifecycle_error, unit) comp" where
  "setup_logging os c =
     bind (create_parent os (dc_log_path c)) (\<lambda>_.
     bind (ok_or NoStateDir (os_parent os (dc_log_path c))) (\<lambda>_.
     bind (ok_or NoStateDir (file_name (dc_log_path c))) (\<lambda>_. ok ())))"

definition trace :: "'w os \<Rightarrow> daemon_config \<Rightarrow> string \<Rightarrow> string \<Rightarrow> 'w \<Rightarrow> 'w" where
  "trace os c level msg w =
     (case os_format os level msg w of
        None \<Rightarrow> w
      | Some t \<Rightarrow> snd (os_append os (dc_log_path c) t w))"

definition daemon_main ::
  "'w os \<Rightarrow> 'w host \<Rightarrow> 'w runner \<Rightarrow> path \<Rightarrow>
   ('w, lifecycle_error, 'w runtime_config \<times> 'w daemon) comp" where
  "daemon_main os base run root =
     bind (gets (for_project os root)) (\<lambda>found.
     bind (from_result found) (\<lambda>c.
     bind (write_startup_marker os c) (\<lambda>_.
     bind (setup_logging os c) (\<lambda>_.
     (\<lambda>w. case startup os base run c (trace os c ''INFO'' (''Starting ojd for project: '' @ root) w) of
        (Inl e, w1) \<Rightarrow>
          (Inl e, trace os c ''ERROR'' (''Failed to start daemon: '' @ show_lifecycle_error e)
             (write_startup_error os c e w1))
      | (Inr d, w1) \<Rightarrow> (Inr d, w1))))))"

end
