(* ===== verification/Lifecycle_Properties.thy ===== *)
theory Lifecycle_Properties
  imports Lifecycle
begin

text \<open>
  Properties of the daemon's life: the state it recovers from the log, what a failed start does to the
  files of a daemon that is running, the heartbeat, and the shutdown that a client asks for. A small
  file system gives the witnesses.
\<close>

section \<open>Recovery\<close>

lemma apply_replayed_all:
  "apply_replayed now ops st w = (st', w') \<Longrightarrow>
   \<exists>tops. map snd tops = ops \<and> st' = apply_all tops st"
proof (induction ops arbitrary: st w)
  case (Cons op ops)
  obtain t w1 where t: "now w = (t, w1)" by fastforce
  with Cons obtain tops where "map snd tops = ops" "st' = apply_all tops (apply_op t op st)"
    by fastforce
  then show ?case by (intro exI [of _ "(t, op) # tops"]) (simp add: apply_all_def)
qed (auto intro!: exI [of _ "[]"] simp: apply_all_def)

lemma replay_state_recovers:
  assumes "log_tells_state (os_de os) x"
    and "\<And>w t w1. os_open_log os p w = (Inr t, w1) \<Longrightarrow>
      t = wal_file (ex_wal x) \<and> os_read_file os p w1 = Inr t"
    and "replay_state os now p w = (Inr (l, st), w')"
  shows "wal_file l = wal_file (ex_wal x) \<and> untimed st = untimed (ex_state x)"
proof -
  from assms(1) obtain ops where ops: "wal_replay (os_de os) (Inr (wal_file (ex_wal x))) = Inr ops"
    "untimed (ex_state x) = apply_all (map (\<lambda>op. (0, op)) ops) state_default"
    by (auto simp: log_tells_state_def log_holds_def)
  from assms(3) obtain t w1 ops' where "os_open_log os p w = (Inr t, w1)" "wal_open (Inr t) = Inr l"
    "wal_replay (os_de os) (os_read_file os p w1) = Inr ops'"
    "apply_replayed now ops' state_default w1 = (st, w')"
    by (auto simp: replay_state_def split: prod.splits sum.splits)
  with assms(2) ops(1) have l: "wal_open (Inr (wal_file (ex_wal x))) = Inr l"
    and r: "apply_replayed now ops state_default w1 = (st, w')" by fastforce+
  from apply_replayed_all [OF r] obtain tops where "map snd tops = ops" "st = apply_all tops state_default"
    by blast
  then have "untimed st = untimed (ex_state x)"
    by (auto simp: ops(2) untimed_apply_all case_prod_unfold comp_def)
  with l show ?thesis by (auto simp: wal_open_def)
qed

lemma startup_inner_replays:
  assumes "startup_inner os base run c w = (Inr (cfg, l, st), w')"
  shows "\<exists>u u'. replay_state os (h_now base) (dc_wal_path c) u = (Inr (l, st), u')"
  using assms unfolding startup_inner_def
  by (auto elim!: bind_InrE) blast

lemma startup_tells:
  assumes "log_tells_state (os_de os) (rt_executor r)"
    and "\<And>w t w1. os_open_log os (dc_wal_path c) w = (Inr t, w1) \<Longrightarrow>
      t = wal_file (ex_wal (rt_executor r)) \<and> os_read_file os (dc_wal_path c) w1 = Inr t"
    and "startup os base run c w = (Inr (cfg, d), w')"
  shows "untimed (rt_state (dm_runtime d)) = untimed (rt_state r)"
    and "log_tells_state (os_de os) (rt_executor (dm_runtime d))"
    and "wal_file (ex_wal (rt_executor (dm_runtime d))) = wal_file (ex_wal (rt_executor r))"
proof -
  from assms(3) obtain l st w1 w2 where i: "startup_inner os base run c w = (Inr (cfg, l, st), w1)"
    and d: "dm_runtime d = runtime_new l st w2"
    by (auto simp: startup_def split: prod.splits sum.splits)
  from startup_inner_replays [OF i] obtain u u' where
    "replay_state os (h_now base) (dc_wal_path c) u = (Inr (l, st), u')" by blast
  from replay_state_recovers [OF assms(1,2) this]
  have r: "wal_file l = wal_file (ex_wal (rt_executor r))" "untimed st = untimed (rt_state r)" by auto
  then show "untimed (rt_state (dm_runtime d)) = untimed (rt_state r)"
    and "wal_file (ex_wal (rt_executor (dm_runtime d))) = wal_file (ex_wal (rt_executor r))"
    by (simp_all add: d runtime_new_def)
  from assms(1) r show "log_tells_state (os_de os) (rt_executor (dm_runtime d))"
    by (simp add: d runtime_new_def log_tells_state_def log_holds_def)
qed

text \<open>C11: a daemon that starts on the log a previous one left recovers that daemon's state up to the
  time stamps, and its own log tells its state again, so the recovery can be repeated. This holds
  when the log of the previous daemon told its state, which \<open>crash_consistency\<close> gives for every
  moment at which it may have stopped.\<close>

theorem startup_recovers:
  assumes "log_tells_state (os_de os) x"
    and "\<And>w t w1. os_open_log os (dc_wal_path c) w = (Inr t, w1) \<Longrightarrow>
      t = wal_file (ex_wal x) \<and> os_read_file os (dc_wal_path c) w1 = Inr t"
    and "startup os base run c w = (Inr (cfg, d), w')"
  shows "untimed (rt_state (dm_runtime d)) = untimed (ex_state x) \<and>
    log_tells_state (os_de os) (rt_executor (dm_runtime d))"
  using startup_tells [of os "\<lparr>rt_executor = x, rt_watchers = []\<rparr>" c, OF _ _ assms(3)] assms(1,2) by simp

section \<open>A small file system\<close>

text \<open>The world: the files with their contents, the locked files and the time.\<close>

record files =
  fl_content :: "(path, string) hmap"
  fl_locked :: "path list"
  fl_time :: nat

definition dirname :: "path \<Rightarrow> path option" where
  "dirname p = (if CHR ''/'' \<in> set p then Some (rev (tl (dropWhile (\<lambda>c. c \<noteq> CHR ''/'') (rev p)))) else None)"

definition put_file :: "path \<Rightarrow> string \<Rightarrow> files \<Rightarrow> files" where
  "put_file p t w = w\<lparr>fl_content := hm_insert p t (fl_content w)\<rparr>"

definition file_os :: "files os" where
  "file_os =
     \<lparr>os_canonicalize = (\<lambda>p _. Inr p), os_env = (\<lambda>v _. if v = ''HOME'' then Some ''/home/u'' else None), os_sha256 = (\<lambda>_. [1, 255]),
      os_parent = dirname, os_exists = (\<lambda>p w. hm_contains (fl_content w) p),
      os_create_dir_all = (\<lambda>_. ok ()), os_create_file = (\<lambda>p w. (Inr (), put_file p [] w)),
      os_try_lock = (\<lambda>p w. if p \<in> set (fl_locked w)
        then (Inl (IoError OtherKind ''locked''), w) else (Inr (), w\<lparr>fl_locked := p # fl_locked w\<rparr>)),
      os_write_line = (\<lambda>p t w. (Inr (), put_file p (t @ nl) w)),
      os_write_file = (\<lambda>p t w. (Inr (), put_file p t w)),
      os_append = (\<lambda>p t w. (Inr (), put_file p
        ((case hm_get (fl_content w) p of Some u \<Rightarrow> u | None \<Rightarrow> []) @ t) w)),
      os_remove_file = (\<lambda>p w. (Inr (), w\<lparr>fl_content := hm_remove p (fl_content w)\<rparr>)),
      os_bind = (\<lambda>p w. (Inr (), put_file p [] w)),
      os_open_log = (\<lambda>p w. case hm_get (fl_content w) p of
          Some t \<Rightarrow> (Inr t, w) | None \<Rightarrow> (Inr [], put_file p [] w)),
      os_read_file = (\<lambda>p w. case hm_get (fl_content w) p of
          Some t \<Rightarrow> Inr t | None \<Rightarrow> Inl (IoError NotFound ''no file'')),
      os_read_dir = (\<lambda>_ _. Inr []), os_toml = demo_toml_lib demo_toml, os_de = Inl,
      os_format = (\<lambda>level msg _. Some (''2026-01-01T00:00:00Z '' @ level @ '' ojd: '' @ msg @ nl)),
      os_pid = 42, os_version = ''0.1''\<rparr>"

definition file_host :: "files host" where
  "file_host =
     \<lparr>h_sessions = noop_session, h_repos = noop_repo, h_notify = noop_notify, h_ser = (\<lambda>_. Inr ''entry''),
      h_write = (\<lambda>w. (Written, w)), h_now = (\<lambda>w. (fl_time w, w\<lparr>fl_time := fl_time w + 1\<rparr>)),
      h_shell = (\<lambda>_ _ _. ok (Some 0)), h_desktop = (\<lambda>_ _ w. w), h_dbg_event = (\<lambda>_. ''event''),
      h_next_id = (\<lambda>w. (show_nat (fl_time w), w\<lparr>fl_time := fl_time w + 1\<rparr>)), h_env = (\<lambda>_ _. None),
      h_home = (\<lambda>_. None), h_exists = (\<lambda>_ _. False), h_read_dir = (\<lambda>_ _. None),
      h_hash_path = (\<lambda>_. ''h''), h_read_log = (\<lambda>_ _. None), h_from_json = (\<lambda>_. None),
      h_read_file = (\<lambda>_ _. Inl (IoError NotFound ''no such file'')), h_create_dir_all = (\<lambda>_. ok ()),
      h_write_file = (\<lambda>_ _. ok ()), h_copy = (\<lambda>_ _. ok ())\<rparr>"

definition no_commands :: "files runner" where
  "no_commands = (\<lambda>_ _ _ w. (Inl (IoError NotFound ''no such command''), w))"

definition demo_paths :: daemon_config where
  "demo_paths = dm_config (daemon_of fresh_runtime)"

text \<open>The same file system with a log that holds a text and that nobody else writes.\<close>

definition log_os :: "string \<Rightarrow> files os" where
  "log_os t = file_os\<lparr>os_de := num_de, os_open_log := (\<lambda>p w. (Inr t, w)), os_read_file := (\<lambda>_ _. Inr t)\<rparr>"

lemma log_os_simps [simp]:
  "os_parent (log_os t) = dirname" "os_exists (log_os t) = (\<lambda>p w. hm_contains (fl_content w) p)"
  "os_create_dir_all (log_os t) = (\<lambda>_. ok ())"
  "os_create_file (log_os t) = (\<lambda>p w. (Inr (), put_file p [] w))"
  "os_try_lock (log_os t) = (\<lambda>p w. if p \<in> set (fl_locked w)
     then (Inl (IoError OtherKind ''locked''), w) else (Inr (), w\<lparr>fl_locked := p # fl_locked w\<rparr>))"
  "os_write_line (log_os t) = (\<lambda>p u w. (Inr (), put_file p (u @ nl) w))"
  "os_write_file (log_os t) = (\<lambda>p u w. (Inr (), put_file p u w))"
  "os_remove_file (log_os t) = (\<lambda>p w. (Inr (), w\<lparr>fl_content := hm_remove p (fl_content w)\<rparr>))"
  "os_bind (log_os t) = (\<lambda>p w. (Inr (), put_file p [] w))"
  "os_open_log (log_os t) = (\<lambda>p w. (Inr t, w))" "os_read_file (log_os t) = (\<lambda>_ _. Inr t)"
  "os_read_dir (log_os t) = (\<lambda>_ _. Inr [])" "os_de (log_os t) = num_de"
  by (simp_all add: log_os_def file_os_def)

lemma startup_on_log_at:
  assumes "wal_replay num_de (Inr t) = Inr ops" and "dc_lock_path c \<notin> set (fl_locked u)"
  shows "\<exists>cfg d w. startup (log_os t) base run c u = (Inr (cfg, d), w)"
proof -
  have r: "replay_state (log_os t) now p w =
      (Inr (\<lparr>wal_file = t, wal_sequence = length (lines t)\<rparr>,
         fst (apply_replayed now ops state_default w)), snd (apply_replayed now ops state_default w))"
    for now p w
    using assms
    by (simp add: replay_state_def wal_open_def split: prod.split)
  have l: "load_runbook (log_os t) p w = Inr runbook_default" for p w
    by (simp add: load_runbook_def Let_def)
  have c: "create_parent (log_os t) p = ok ()" for p
    by (simp add: create_parent_def io_def map_err_def ok_def fun_eq_iff split: option.split)
  show ?thesis
    unfolding startup_def startup_inner_def c
    using assms(2) by (simp add: l r comp_defs io_def put_file_def split: prod.split)
qed

lemma startup_on_log:
  assumes "wal_replay num_de (Inr t) = Inr ops"
  shows "\<exists>cfg d w. startup (log_os t) file_host no_commands demo_paths
    \<lparr>fl_content = [], fl_locked = [], fl_time = 0\<rparr> = (Inr (cfg, d), w)"
  using startup_on_log_at [OF assms, of demo_paths "\<lparr>fl_content = [], fl_locked = [], fl_time = 0\<rparr>"]
  by fastforce

text \<open>What a first daemon leaves in the log, and the recovery from it.\<close>

theorem startup_recovers_witness:
  "\<exists>x t cfg d w. execute quiet_host (Persist (PipelineCreate ''p'' ''k'' ''n'' [] ''init''))
      (empty_executor (7, 0)) = (Inr None, x) \<and> t = wal_file (ex_wal x) \<and>
    startup (log_os t) file_host no_commands demo_paths
      \<lparr>fl_content = [], fl_locked = [], fl_time = 0\<rparr> = (Inr (cfg, d), w) \<and>
    untimed (rt_state (dm_runtime d)) = untimed (ex_state x) \<and>
    hm_get (pipelines (ex_state x)) ''p'' \<noteq> None"
proof -
  let ?op = "PipelineCreate ''p'' ''k'' ''n'' [] ''init''"
  obtain x where x: "execute quiet_host (Persist ?op) (empty_executor (7, 0)) = (Inr None, x)"
    by (simp add: execute_def exec_defs comp_defs quiet_host_def wal_append_def num_ser_def
        empty_executor_def)
  have told: "log_tells_state num_de x"
    by (rule log_tells_state_append [OF quiet_host_reliable empty_executor_log x])
  then obtain ops where "wal_replay num_de (Inr (wal_file (ex_wal x))) = Inr ops"
    by (auto simp: log_tells_state_def log_holds_def)
  from startup_on_log [OF this] obtain cfg d w where
    s: "startup (log_os (wal_file (ex_wal x))) file_host no_commands demo_paths
      \<lparr>fl_content = [], fl_locked = [], fl_time = 0\<rparr> = (Inr (cfg, d), w)" by blast
  have "untimed (rt_state (dm_runtime d)) = untimed (ex_state x)"
    using startup_recovers [OF _ _ s, of x] told by simp
  moreover have "hm_get (pipelines (ex_state x)) ''p'' \<noteq> None"
    using execute_persist [OF x] by (auto simp: empty_executor_def)
  ultimately show ?thesis using x s by blast
qed

section \<open>Timers that never fire\<close>

text \<open>Only the runtime and its world change when an event is processed or a request is answered.\<close>

lemma process_event_frame:
  assumes "process_event cfg e d = Some (res, d1)"
  shows "dm_scheduler d1 = dm_scheduler d" and "dm_config d1 = dm_config d"
    and "dm_shutdown_requested d1 = dm_shutdown_requested d"
  using assms by (auto simp: process_event_def split: option.splits)

lemma set_world_frame [simp]:
  "dm_scheduler (set_world w d) = dm_scheduler d" "dm_config (set_world w d) = dm_config d"
  "dm_shutdown_requested (set_world w d) = dm_shutdown_requested d"
  "rt_world (dm_runtime (set_world w d)) = w"
  by (simp_all add: set_world_def)

lemma respond_frame:
  assumes "respond okay (process_event cfg e d) = Some (resp, d1)"
  shows "dm_scheduler d1 = dm_scheduler d \<and> dm_config d1 = dm_config d \<and>
    (dm_shutdown_requested d1 \<longleftrightarrow> dm_shutdown_requested d)"
proof -
  from assms obtain res where "process_event cfg e d = Some (res, d1)"
    by (auto simp: respond_def split: option.splits sum.splits)
  then show ?thesis by (simp add: process_event_frame)
qed

lemma handle_request_frame:
  assumes "handle_request cfg v d req = Some (resp, d1)"
  shows "dm_scheduler d1 = dm_scheduler d \<and> dm_config d1 = dm_config d \<and>
    (dm_shutdown_requested d1 \<longleftrightarrow> req = Shutdown \<or> dm_shutdown_requested d)"
proof (cases req)
  case (SessionSend i input)
  with assms show ?thesis
    by (cases "find_session (rt_state (dm_runtime d)) i") (auto simp: respond_frame)
next
  case StatusRequest
  with assms show ?thesis by (auto simp del: status_response_def split: prod.splits)
next
  case (QueryRequest q)
  with assms show ?thesis by (auto simp del: handle_query.simps)
next
  case Shutdown
  with assms show ?thesis by auto
qed (use assms in \<open>simp_all add: respond_frame\<close>)

lemma handle_connection_request:
  assumes "handle_connection cfg c rt wt rd d = Some (res, out, d1)"
  shows "d1 = d \<or> (\<exists>req resp. fst (read_request (cd_request c) rt rd) = Inr req \<and>
    handle_request cfg (cd_version c) d req = Some (resp, d1))"
proof (cases "fst (read_request (cd_request c) rt rd)")
  case (Inl e)
  with assms show ?thesis by (cases e) (simp_all add: handle_connection_def)
next
  case (Inr req)
  with assms show ?thesis
    by (auto simp: handle_connection_def split: option.splits sum.splits prod.splits)
qed

lemma handle_connection_frame:
  assumes "handle_connection cfg c rt wt rd d = Some (res, out, d1)"
  shows "dm_scheduler d1 = dm_scheduler d" and "dm_config d1 = dm_config d"
  using handle_connection_request [OF assms] by (auto dest: handle_request_frame)

lemma fired_none: "fired_timers now scheduler_new = ([], scheduler_new)"
  by (simp add: fired_timers_def scheduler_new_def)

lemma heartbeat_noop:
  assumes "dm_scheduler d = scheduler_new"
  shows "check_heartbeats cfg d =
    Some (Inr (), set_world (snd (h_now (rc_host cfg) (rt_world (dm_runtime d)))) d)"
  using assms by (simp add: check_heartbeats_def fired_none set_world_def split: prod.split)

lemma run_session_check_frame [simp]:
  "dm_scheduler (run_session_check cfg tmux d) = dm_scheduler d"
  "dm_config (run_session_check cfg tmux d) = dm_config d"
  by (simp_all add: run_session_check_def Let_def split: prod.split)

lemma loop_step_scheduler:
  assumes "loop_step os cfg c tmux inp l = Some (False, l1)"
    and "dm_scheduler (lp_daemon l) = scheduler_new"
  shows "dm_scheduler (lp_daemon l1) = scheduler_new"
  using assms
  by (cases inp) (auto simp: loop_step_def loop_tick_def heartbeat_noop
      dest: handle_connection_frame process_event_frame
      split: option.splits prod.splits if_splits bool.splits)

lemma daemon_runs_scheduler:
  "daemon_runs os cfg c tmux l0 l \<Longrightarrow> dm_scheduler (lp_daemon l0) = scheduler_new \<Longrightarrow>
   dm_scheduler (lp_daemon l) = scheduler_new"
  by (induction rule: daemon_runs.induct) (auto dest: loop_step_scheduler)

text \<open>In a daemon that has started no timer ever fires: whatever it has handled, and whatever timers
  its runtime has set, the heartbeat looks into a scheduler that is empty, so it processes no event and
  changes nothing but the clock.\<close>

lemma heartbeat_fires_nothing:
  assumes "startup os base run dc w0 = (Inr (cfg, d), w1)"
    and "daemon_runs os cfg c tmux \<lparr>lp_daemon = d, lp_last_check = t\<rparr> l"
  shows "check_heartbeats cfg (lp_daemon l) =
    Some (Inr (), set_world (snd (h_now (rc_host cfg) (rt_world (dm_runtime (lp_daemon l))))) (lp_daemon l))"
proof -
  from assms(1) have "dm_scheduler d = scheduler_new"
    by (auto simp: startup_def split: prod.splits sum.splits)
  with daemon_runs_scheduler [OF assms(2)] show ?thesis by (simp add: heartbeat_noop)
qed

lemma heartbeat_fires_nothing_witness:
  "\<exists>cfg d w l. startup (log_os []) file_host no_commands demo_paths
      \<lparr>fl_content = [], fl_locked = [], fl_time = 0\<rparr> = (Inr (cfg, d), w) \<and>
    daemon_runs (log_os []) cfg ping_codec noop_session \<lparr>lp_daemon = d, lp_last_check = 0\<rparr> l \<and>
    rt_world (dm_runtime (lp_daemon l)) = \<lparr>fl_content = [], fl_locked = [], fl_time = 5\<rparr> \<and>
    check_heartbeats cfg (lp_daemon l) =
      Some (Inr (), set_world (snd (h_now (rc_host cfg) (rt_world (dm_runtime (lp_daemon l))))) (lp_daemon l))"
proof -
  let ?w = "\<lparr>fl_content = [], fl_locked = [], fl_time = 5\<rparr>"
  have "wal_replay num_de (Inr []) = Inr []" by (simp add: wal_replay_def)
  from startup_on_log [OF this] obtain cfg d w where
    s: "startup (log_os []) file_host no_commands demo_paths
      \<lparr>fl_content = [], fl_locked = [], fl_time = 0\<rparr> = (Inr (cfg, d), w)" by blast
  let ?l = "\<lparr>lp_daemon = set_world ?w d, lp_last_check = 0\<rparr>"
  have r: "daemon_runs (log_os []) cfg ping_codec noop_session \<lparr>lp_daemon = d, lp_last_check = 0\<rparr> ?l"
    using loop_outside [OF loop_start, of "log_os []" cfg ping_codec noop_session
        "\<lparr>lp_daemon = d, lp_last_check = 0\<rparr>" ?w] by simp
  from heartbeat_fires_nothing [OF s r] s r show ?thesis by (intro exI conjI) auto
qed

section \<open>A second daemon\<close>

text \<open>Starting a daemon whose lock is held fails with \<open>LockFailed\<close>, but not without effects: the
  lock file is emptied before the lock is tried, and the cleaning up removes the socket, the version
  file and the lock file, which are those of the daemon that holds the lock.\<close>

lemma failed_start_removes_files:
  assumes "w = \<lparr>fl_content = m, fl_locked = ls, fl_time = t\<rparr>" and "dc_lock_path c \<in> set ls"
  shows "\<exists>w'. startup file_os base run c w =
      (Inl (LockFailed (IoError OtherKind ''locked'')), w') \<and>
    fl_locked w' = ls \<and>
    (\<forall>p. hm_get (fl_content w') p =
      (if p \<in> {dc_socket_path c, dc_version_path c, dc_lock_path c} then None else hm_get m p))"
proof -
  let ?w1 = "put_file (dc_lock_path c) [] w"
  have "startup_inner file_os base run c w = (Inl (LockFailed (IoError OtherKind ''locked'')), ?w1)"
    using assms by (simp add: startup_inner_def create_parent_def file_os_def io_def comp_defs
        put_file_def split: option.split)
  then have s: "startup file_os base run c w =
      (Inl (LockFailed (IoError OtherKind ''locked'')), cleanup_on_failure file_os c ?w1)"
    by (simp add: startup_def)
  have rm: "hm_get (fl_content (remove_if_exists file_os p u)) = (hm_get (fl_content u))(p := None)"
    "fl_locked (remove_if_exists file_os p u) = fl_locked u" for p u
    by (auto simp: remove_if_exists_def file_os_def hm_contains_def fun_eq_iff)
  show ?thesis using s assms(1) by (auto simp: cleanup_on_failure_def rm put_file_def)
qed

section \<open>Shutdown\<close>

text \<open>A client that sends \<open>Shutdown\<close> over a connection stops the daemon at the end of that turn of
  the loop, even when the answer cannot be written: the socket, the lock file and the version file are
  gone, every other file, the runtime's log, state and timers are what they were.\<close>

lemma shutdown_request_stops:
  fixes l :: "files loop_state"
  assumes "fst (read_request (cd_request cd) False rd) = Inr Shutdown"
  defines "c \<equiv> dm_config (lp_daemon l)" and "r \<equiv> dm_runtime (lp_daemon l)"
  shows "\<exists>l'. loop_step file_os cfg cd tmux (Connection rd False wt) l = Some (True, l') \<and>
    (\<forall>p. hm_get (fl_content (rt_world (dm_runtime (lp_daemon l')))) p =
      (if p \<in> {dc_socket_path c, dc_version_path c, dc_lock_path c} then None
       else hm_get (fl_content (rt_world r)) p)) \<and>
    rt_executor (dm_runtime (lp_daemon l')) =
      (rt_executor r)\<lparr>ex_world := rt_world (dm_runtime (lp_daemon l'))\<rparr>"
proof -
  let ?d = "(lp_daemon l)\<lparr>dm_shutdown_requested := True\<rparr>"
  obtain res out where h: "handle_connection cfg cd False wt rd (lp_daemon l) = Some (res, out, ?d)"
    using assms(1)
    by (cases "write_response (cd_response cd) wt ShuttingDown []"; cases "fst (write_response (cd_response cd) wt ShuttingDown [])")
      (auto simp: handle_connection_def)
  have rm: "hm_get (fl_content (remove_if_exists file_os p u)) = (hm_get (fl_content u))(p := None)"
    for p u
    by (auto simp: remove_if_exists_def file_os_def hm_contains_def fun_eq_iff)
  show ?thesis
    using h by (auto simp: loop_step_def shutdown_def c_def r_def rm set_world_def Let_def)
qed

lemma shutdown_request_stops_witness:
  "let d = daemon_of (runtime_new \<lparr>wal_file = [], wal_sequence = 0\<rparr> state_default
         \<lparr>fl_content = [(dc_socket_path demo_paths, [])], fl_locked = [], fl_time = 0\<rparr>);
       cd = ping_codec\<lparr>cd_request := (\<lambda>_. Inr Shutdown)\<rparr>
   in \<exists>l'. loop_step file_os \<lparr>rc_host = file_host, rc_runbook = demo_runbook, rc_project_root = ''/p'',
        rc_worktree_root = ''/w''\<rparr> cd noop_session
        (Connection \<lparr>rd_bytes = [0, 0, 0, 0], rd_error = None\<rparr> False True)
        \<lparr>lp_daemon = d, lp_last_check = 0\<rparr> = Some (True, l') \<and>
      hm_get (fl_content (rt_world (dm_runtime (lp_daemon l')))) (dc_socket_path demo_paths) = None"
proof -
  have paths: "dm_config (daemon_of r) = demo_paths" for r :: "files runtime"
    by (simp add: daemon_of_def demo_paths_def)
  have "to_be_bytes (of_nat (length ([] :: byte list))) @ [] @ [] = [0, 0, 0, 0]"
    by (simp add: to_be_bytes_def)
  with read_written_message [of "[]" "[]" None]
  have "fst (read_request (\<lambda>_. Inr Shutdown) False \<lparr>rd_bytes = [0, 0, 0, 0], rd_error = None\<rparr>) =
      Inr Shutdown"
    by (simp add: read_request_def bind_def from_result_def decode_def max_message_size_def)
  then have 1: "fst (read_request (cd_request (ping_codec\<lparr>cd_request := (\<lambda>_. Inr Shutdown)\<rparr>)) False
      \<lparr>rd_bytes = [0, 0, 0, 0], rd_error = None\<rparr>) = Inr Shutdown" by simp
  show ?thesis
    unfolding Let_def by (rule exE [OF shutdown_request_stops [OF 1]]) (rule exI, auto simp: paths)
qed

end
