(* ===== verification/Client.thy ===== *)
theory Client
  imports Lifecycle_Properties
begin

text \<open>
  \<open>crates/cli/src/client.rs\<close>: how the command line finds, starts, asks and stops the daemon. The calls of the operating
  system are \<open>os\<close> and the further operations of \<open>cli_os\<close>. A loop that waits is a partial function:
  \<open>None\<close> means that it does not return, as when the clock stands still.
\<close>

section \<open>Strings\<close>

text \<open>\<open>str::rfind\<close> with the rest of the text from the place found on, and \<open>str::split_once\<close>.\<close>

fun rfind_from :: "string \<Rightarrow> string \<Rightarrow> string option" where
  "rfind_from [] p = (if p = [] then Some [] else None)"
| "rfind_from (c # s) p =
     (case rfind_from s p of
        Some t \<Rightarrow> Some t
      | None \<Rightarrow> (if starts_with (c # s) p then Some (c # s) else None))"

fun split_once :: "string \<Rightarrow> string \<Rightarrow> (string \<times> string) option" where
  "split_once [] p = (if p = [] then Some ([], []) else None)"
| "split_once (c # s) p =
     (if starts_with (c # s) p then Some ([], drop (length p) (c # s))
      else map_option (\<lambda>(a, b). (c # a, b)) (split_once s p))"

text \<open>\<open>parse::<u64>()\<close> and \<open>parse::<u32>()\<close>: decimal digits after an optional plus sign, in range.\<close>

definition is_digit :: "char \<Rightarrow> bool" where
  "is_digit c \<longleftrightarrow> 48 \<le> (of_char c :: nat) \<and> (of_char c :: nat) \<le> 57"

definition parse_uint :: "nat \<Rightarrow> string \<Rightarrow> nat option" where
  "parse_uint bits s =
     (let d = (case s of [] \<Rightarrow> [] | c # r \<Rightarrow> if c = CHR ''+'' then r else s)
      in if d \<noteq> [] \<and> list_all is_digit d \<and> read_digits 0 d < 2 ^ bits
         then Some (read_digits 0 d) else None)"

section \<open>Errors and the operating system\<close>

fun show_protocol_error :: "protocol_error \<Rightarrow> string" where
  "show_protocol_error (ProtoIo e) = ''IO error: '' @ io_message e"
| "show_protocol_error (ProtoJson s) = ''JSON error: '' @ s"
| "show_protocol_error (MessageTooLarge n m) =
     ''Message too large: '' @ show_nat n @ '' bytes (max '' @ show_nat m @ '')''"
| "show_protocol_error ConnectionClosed = ''Connection closed''"
| "show_protocol_error ProtoTimeout = ''Timeout''"

datatype client_error =
    DaemonNotRunning
  | DaemonStartFailed string
  | DaemonStartTimeout
  | ClientProtocol protocol_error
  | Rejected string
  | UnexpectedResponse
  | ClientIo io_error
  | NoProjectRoot
  | ClientNoStateDir

fun show_client_error :: "client_error \<Rightarrow> string" where
  "show_client_error DaemonNotRunning = ''Daemon not running''"
| "show_client_error (DaemonStartFailed s) = ''Failed to start daemon: '' @ s"
| "show_client_error DaemonStartTimeout = ''Connection timeout waiting for daemon to start''"
| "show_client_error (ClientProtocol e) = ''Protocol error: '' @ show_protocol_error e"
| "show_client_error (Rejected s) = ''Event rejected: '' @ s"
| "show_client_error UnexpectedResponse = ''Unexpected response from daemon''"
| "show_client_error (ClientIo e) = ''IO error: '' @ io_message e"
| "show_client_error NoProjectRoot = ''Could not determine project root''"
| "show_client_error ClientNoStateDir = ''Could not determine state directory''"

text \<open>What becomes of a request that was sent: whether writing or reading ran out of time comes first.\<close>

datatype exchange = WriteTimedOut | WriteError io_error | ReadTimedOut | Replied reader

text \<open>\<open>co_status\<close> runs a program that ends by itself, \<open>kill\<close>, with arguments and gives its exit status and
  whether it is success; \<open>co_wait\<close> does so for a program that may run as long as it likes, such as
  \<open>tail -f\<close>, and is \<open>None\<close> if it never ends. \<open>co_try_wait\<close> gives the status of a child that has exited.\<close>

record 'w cli_os =
  co_os :: "'w os"
  co_now :: "'w \<Rightarrow> instant \<times> 'w"
  co_sleep :: "duration \<Rightarrow> 'w \<Rightarrow> 'w"
  co_spawn :: "path \<Rightarrow> path \<Rightarrow> ('w, io_error, nat) comp"
  co_try_wait :: "nat \<Rightarrow> ('w, io_error, string option) comp"
  co_status :: "path \<Rightarrow> string list \<Rightarrow> ('w, io_error, string \<times> bool) comp"
  co_wait :: "path \<Rightarrow> string list \<Rightarrow> 'w \<Rightarrow> ((io_error + string \<times> bool) \<times> 'w) option"
  co_current_dir :: "'w \<Rightarrow> io_error + path"
  co_current_exe :: "'w \<Rightarrow> io_error + path"
  co_is_dir :: "path \<Rightarrow> 'w \<Rightarrow> bool"
  co_connect :: "path \<Rightarrow> ('w, io_error, unit) comp"
  co_exchange :: "path \<Rightarrow> byte list \<Rightarrow> duration \<Rightarrow> duration \<Rightarrow> 'w \<Rightarrow> exchange \<times> 'w"
  co_encode :: "request \<Rightarrow> string + byte list"
  co_decode :: "byte list \<Rightarrow> string + response"
  co_version :: string

type_synonym ('w, 'a) call = "('w, client_error, 'a) comp"

section \<open>Time-outs\<close>

definition parse_duration_ms :: "'w cli_os \<Rightarrow> string \<Rightarrow> 'w \<Rightarrow> duration option" where
  "parse_duration_ms c var w =
     (case os_env (co_os c) var w of
        None \<Rightarrow> None
      | Some s \<Rightarrow> map_option from_millis (parse_uint 64 s))"

definition timeout_ipc :: "'w cli_os \<Rightarrow> 'w \<Rightarrow> duration" where
  "timeout_ipc c w =
     (case parse_duration_ms c ''OJ_TIMEOUT_IPC_MS'' w of Some d \<Rightarrow> d | None \<Rightarrow> from_secs 5)"

definition timeout_connect :: "'w cli_os \<Rightarrow> 'w \<Rightarrow> duration" where
  "timeout_connect c w =
     (case parse_duration_ms c ''OJ_TIMEOUT_CONNECT_MS'' w of Some d \<Rightarrow> d | None \<Rightarrow> from_secs 5)"

definition timeout_exit :: "'w cli_os \<Rightarrow> 'w \<Rightarrow> duration" where
  "timeout_exit c w =
     (case parse_duration_ms c ''OJ_TIMEOUT_EXIT_MS'' w of Some d \<Rightarrow> d | None \<Rightarrow> from_secs 2)"

definition poll_interval :: "'w cli_os \<Rightarrow> 'w \<Rightarrow> duration" where
  "poll_interval c w =
     (case parse_duration_ms c ''OJ_POLL_INTERVAL_MS'' w of Some d \<Rightarrow> d | None \<Rightarrow> from_millis 50)"

section \<open>Paths\<close>

text \<open>The client computes the daemon's paths by functions of its own.\<close>

definition client_project_hash :: "'w os \<Rightarrow> path \<Rightarrow> string" where
  "client_project_hash os p =
     concat (map (\<lambda>b. [hex_digit (unat b div 16), hex_digit (unat b mod 16)]) (take 8 (os_sha256 os p)))"

definition client_socket_dir :: "'w os \<Rightarrow> 'w \<Rightarrow> path" where
  "client_socket_dir os w = (case os_env os ''OJ_SOCKET_DIR'' w of Some d \<Rightarrow> d | None \<Rightarrow> ''/tmp/oj'')"

definition client_state_dir :: "'w os \<Rightarrow> 'w \<Rightarrow> client_error + path" where
  "client_state_dir os w =
     (case os_env os ''XDG_STATE_HOME'' w of
        Some x \<Rightarrow> Inr (path_join x ''oj'')
      | None \<Rightarrow>
          (case os_env os ''HOME'' w of
             Some x \<Rightarrow> Inr (path_join x ''.local/state/oj'')
           | None \<Rightarrow> Inl ClientNoStateDir))"

definition get_socket_path :: "'w os \<Rightarrow> path \<Rightarrow> 'w \<Rightarrow> client_error + path" where
  "get_socket_path os root w =
     (case os_canonicalize os root w of
        Inl _ \<Rightarrow> Inl NoProjectRoot
      | Inr canonical \<Rightarrow>
          Inr (path_join (client_socket_dir os w) (client_project_hash os canonical @ ''.sock'')))"

definition get_daemon_dir :: "'w os \<Rightarrow> path \<Rightarrow> 'w \<Rightarrow> client_error + path" where
  "get_daemon_dir os root w =
     (case os_canonicalize os root w of
        Inl _ \<Rightarrow> Inl NoProjectRoot
      | Inr canonical \<Rightarrow>
          (case client_state_dir os w of
             Inl e \<Rightarrow> Inl e
           | Inr base \<Rightarrow>
               Inr (path_join (path_join base ''projects'') (client_project_hash os canonical))))"

text \<open>The search for the project's root upwards from the current directory.\<close>

partial_function (option) find_oj :: "'w cli_os \<Rightarrow> path \<Rightarrow> 'w \<Rightarrow> path option option" where
  "find_oj c current w =
     (if co_is_dir c (path_join current ''.oj'') w then Some (Some current)
      else (case os_parent (co_os c) current of
              Some up \<Rightarrow> find_oj c up w
            | None \<Rightarrow> Some None))"

definition find_project_root :: "'w cli_os \<Rightarrow> 'w \<Rightarrow> (client_error + path) option" where
  "find_project_root c w =
     (case os_env (co_os c) ''OJ_PROJECT_ROOT'' w of
        Some r \<Rightarrow> Some (Inr r)
      | None \<Rightarrow>
          (case co_current_dir c w of
             Inl _ \<Rightarrow> Some (Inl NoProjectRoot)
           | Inr cwd \<Rightarrow>
               (case find_oj c cwd w of
                  None \<Rightarrow> None
                | Some (Some p) \<Rightarrow> Some (Inr p)
                | Some None \<Rightarrow> Some (Inr cwd))))"

definition find_ojd_binary :: "'w cli_os \<Rightarrow> 'w \<Rightarrow> path" where
  "find_ojd_binary c w =
     (let os = co_os c;
          dev = (case os_env os ''CARGO_MANIFEST_DIR'' w of
                   None \<Rightarrow> None
                 | Some m \<Rightarrow>
                     (case os_parent os m of
                        None \<Rightarrow> None
                      | Some p \<Rightarrow> map_option (\<lambda>q. path_join q ''target/debug/ojd'') (os_parent os p)));
          sibling = (case co_current_exe c w of
                       Inl _ \<Rightarrow> None
                     | Inr exe \<Rightarrow> map_option (\<lambda>d. path_join d ''ojd'') (os_parent os exe))
      in case os_env os ''OJ_DAEMON_BINARY'' w of
           Some p \<Rightarrow> p
         | None \<Rightarrow>
             (case List.find (\<lambda>p. os_exists os p w) (List.map_filter (\<lambda>p. p) [dev, sibling]) of
                Some p \<Rightarrow> p
              | None \<Rightarrow> ''ojd''))"

section \<open>The reason of a failed start\<close>

definition client_marker_prefix :: string where
  "client_marker_prefix = ''--- ojd: starting (pid: ''"

definition startup_error_in :: "string \<Rightarrow> string option" where
  "startup_error_in content =
     (case rfind_from content client_marker_prefix of
        None \<Rightarrow> None
      | Some startup_log \<Rightarrow>
          (let errors = filter (\<lambda>l. contains l '' ERROR '' \<or> contains l ''Failed to start'')
                          (lines startup_log);
               messages = List.map_filter (\<lambda>l. map_option snd (split_once l '': '')) errors
           in if errors = [] then None
              else if messages = [] then Some (join_with nl errors)
              else Some (join_with nl messages)))"

definition read_startup_error :: "'w os \<Rightarrow> path \<Rightarrow> 'w \<Rightarrow> string option" where
  "read_startup_error os root w =
     (case get_daemon_dir os root w of
        Inl _ \<Rightarrow> None
      | Inr dir \<Rightarrow>
          (case os_read_file os (path_join dir ''daemon.log'') w of
             Inl _ \<Rightarrow> None
           | Inr content \<Rightarrow> startup_error_in content))"

definition wrap_with_startup_error :: "'w os \<Rightarrow> path \<Rightarrow> client_error \<Rightarrow> 'w \<Rightarrow> client_error" where
  "wrap_with_startup_error os root err w =
     (case err of
        DaemonStartFailed _ \<Rightarrow> err
      | _ \<Rightarrow> (case read_startup_error os root w of Some s \<Rightarrow> DaemonStartFailed s | None \<Rightarrow> err))"

section \<open>Requests\<close>

definition connect :: "'w os \<Rightarrow> path \<Rightarrow> 'w \<Rightarrow> client_error + path" where
  "connect os root w =
     (case get_socket_path os root w of
        Inl e \<Rightarrow> Inl e
      | Inr p \<Rightarrow> if os_exists os p w then Inr p else Inl DaemonNotRunning)"

definition proto :: "('w, protocol_error, 'a) comp \<Rightarrow> ('w, 'a) call" where
  "proto m = map_err ClientProtocol m"

definition send_with_timeout ::
  "'w cli_os \<Rightarrow> path \<Rightarrow> request \<Rightarrow> duration \<Rightarrow> duration \<Rightarrow> ('w, response) call" where
  "send_with_timeout c sock req read_timeout write_timeout =
     bind (map_err ClientIo (co_connect c sock)) (\<lambda>_.
     bind (proto (from_result (encode (co_encode c) req))) (\<lambda>data.
     (case write_message data [] of
        (Inl e, _) \<Rightarrow> fail (ClientProtocol e)
      | (Inr _, bytes) \<Rightarrow>
          (\<lambda>w. case co_exchange c sock bytes read_timeout write_timeout w of
             (WriteTimedOut, w1) \<Rightarrow> (Inl (ClientProtocol ProtoTimeout), w1)
           | (WriteError e, w1) \<Rightarrow> (Inl (ClientProtocol (ProtoIo e)), w1)
           | (ReadTimedOut, w1) \<Rightarrow> (Inl (ClientProtocol ProtoTimeout), w1)
           | (Replied rd, w1) \<Rightarrow>
               (case fst (read_message rd) of
                  Inl e \<Rightarrow> (Inl (ClientProtocol e), w1)
                | Inr bs \<Rightarrow> proto (from_result (decode (co_decode c) bs)) w1)))))"

definition send :: "'w cli_os \<Rightarrow> path \<Rightarrow> request \<Rightarrow> ('w, response) call" where
  "send c sock req w = send_with_timeout c sock req (timeout_ipc c w) (timeout_ipc c w) w"

definition unexpected :: "response \<Rightarrow> ('w, 'a) call" where
  "unexpected r = (case r of ErrorResponse m \<Rightarrow> fail (Rejected m) | _ \<Rightarrow> fail UnexpectedResponse)"

definition send_event :: "'w cli_os \<Rightarrow> path \<Rightarrow> event \<Rightarrow> ('w, unit) call" where
  "send_event c sock e = bind (send c sock (EventRequest e)) (\<lambda>r.
     case r of EventResponse a \<Rightarrow> (if a then ok () else fail UnexpectedResponse) | _ \<Rightarrow> unexpected r)"

definition client_list_pipelines :: "'w cli_os \<Rightarrow> path \<Rightarrow> ('w, pipeline_summary list) call" where
  "client_list_pipelines c sock = bind (send c sock (QueryRequest ListPipelines)) (\<lambda>r.
     case r of PipelinesResponse ps \<Rightarrow> ok ps | _ \<Rightarrow> unexpected r)"

definition client_get_pipeline :: "'w cli_os \<Rightarrow> path \<Rightarrow> string \<Rightarrow> ('w, pipeline_detail option) call" where
  "client_get_pipeline c sock i = bind (send c sock (QueryRequest (GetPipeline i))) (\<lambda>r.
     case r of PipelineResponse p \<Rightarrow> ok p | _ \<Rightarrow> unexpected r)"

definition client_status :: "'w cli_os \<Rightarrow> path \<Rightarrow> ('w, nat \<times> nat \<times> nat) call" where
  "client_status c sock = bind (send c sock StatusRequest) (\<lambda>r.
     case r of StatusResponse u p s \<Rightarrow> ok (u, p, s) | _ \<Rightarrow> unexpected r)"

definition client_shutdown :: "'w cli_os \<Rightarrow> path \<Rightarrow> ('w, unit) call" where
  "client_shutdown c sock = bind (send c sock Shutdown) (\<lambda>r.
     case r of OkResponse \<Rightarrow> ok () | ShuttingDown \<Rightarrow> ok () | _ \<Rightarrow> unexpected r)"

definition client_hello :: "'w cli_os \<Rightarrow> path \<Rightarrow> ('w, string) call" where
  "client_hello c sock = bind (send c sock (Hello (co_version c))) (\<lambda>r.
     case r of HelloResponse v \<Rightarrow> ok v | _ \<Rightarrow> unexpected r)"

definition client_list_sessions :: "'w cli_os \<Rightarrow> path \<Rightarrow> ('w, session_summary list) call" where
  "client_list_sessions c sock = bind (send c sock (QueryRequest ListSessions)) (\<lambda>r.
     case r of SessionsResponse ss \<Rightarrow> ok ss | _ \<Rightarrow> unexpected r)"

definition ok_response :: "response \<Rightarrow> ('w, unit) call" where
  "ok_response r = (case r of OkResponse \<Rightarrow> ok () | _ \<Rightarrow> unexpected r)"

definition client_session_send :: "'w cli_os \<Rightarrow> path \<Rightarrow> string \<Rightarrow> string \<Rightarrow> ('w, unit) call" where
  "client_session_send c sock i input = bind (send c sock (SessionSend i input)) ok_response"

definition client_pipeline_resume :: "'w cli_os \<Rightarrow> path \<Rightarrow> string \<Rightarrow> ('w, unit) call" where
  "client_pipeline_resume c sock i = bind (send c sock (PipelineResume i)) ok_response"

definition client_pipeline_fail :: "'w cli_os \<Rightarrow> path \<Rightarrow> string \<Rightarrow> string \<Rightarrow> ('w, unit) call" where
  "client_pipeline_fail c sock i err = bind (send c sock (PipelineFail i err)) ok_response"

section \<open>Starting and stopping the daemon\<close>

text \<open>\<open>kill -0\<close> and \<open>kill -9\<close>, which count as failed when they cannot be run.\<close>

definition signal_process :: "'w cli_os \<Rightarrow> string \<Rightarrow> nat \<Rightarrow> 'w \<Rightarrow> bool \<times> 'w" where
  "signal_process c sig pid w =
     (case co_status c ''kill'' [sig, show_nat pid] w of
        (Inl _, w1) \<Rightarrow> (False, w1)
      | (Inr (_, s), w1) \<Rightarrow> (s, w1))"

definition process_exists :: "'w cli_os \<Rightarrow> nat \<Rightarrow> 'w \<Rightarrow> bool \<times> 'w" where
  "process_exists c pid w = signal_process c ''-0'' pid w"

definition force_kill_daemon :: "'w cli_os \<Rightarrow> nat \<Rightarrow> 'w \<Rightarrow> bool \<times> 'w" where
  "force_kill_daemon c pid w = signal_process c ''-9'' pid w"

definition read_daemon_pid :: "'w os \<Rightarrow> path \<Rightarrow> 'w \<Rightarrow> client_error + nat option" where
  "read_daemon_pid os root w =
     (case get_daemon_dir os root w of
        Inl e \<Rightarrow> Inl e
      | Inr dir \<Rightarrow>
          (let pid_path = path_join dir ''daemon.pid''
           in if \<not> os_exists os pid_path w then Inr None
              else (case os_read_file os pid_path w of
                      Inl _ \<Rightarrow> Inr None
                    | Inr content \<Rightarrow> Inr (parse_uint 32 (trim content)))))"

definition cleanup_stale_pid :: "'w os \<Rightarrow> path \<Rightarrow> 'w \<Rightarrow> 'w" where
  "cleanup_stale_pid os dir w =
     (let pid_path = path_join dir ''daemon.pid''
      in if os_exists os pid_path w then snd (os_remove_file os pid_path w) else w)"

partial_function (option) wait_loop ::
  "'w cli_os \<Rightarrow> nat \<Rightarrow> duration \<Rightarrow> instant \<Rightarrow> 'w \<Rightarrow> (bool \<times> 'w) option" where
  "wait_loop c pid timeout start w =
     (case co_now c w of
        (now, w1) \<Rightarrow>
          if now - start < timeout then
            (case process_exists c pid w1 of
               (alive, w2) \<Rightarrow>
                 if \<not> alive then Some (True, w2)
                 else wait_loop c pid timeout start (co_sleep c (poll_interval c w2) w2))
          else Some (False, w1))"

definition wait_for_exit :: "'w cli_os \<Rightarrow> nat \<Rightarrow> duration \<Rightarrow> 'w \<Rightarrow> (bool \<times> 'w) option" where
  "wait_for_exit c pid timeout w =
     (case co_now c w of (start, w1) \<Rightarrow> wait_loop c pid timeout start w1)"

text \<open>The part of \<open>daemon_stop\<close> about a process id that could be read.\<close>

definition stop_process :: "'w cli_os \<Rightarrow> nat \<Rightarrow> bool \<Rightarrow> 'w \<Rightarrow> 'w option" where
  "stop_process c pid graceful w =
     (case (if graceful then map_option snd (wait_for_exit c pid (timeout_exit c w) w) else Some w) of
        None \<Rightarrow> None
      | Some w1 \<Rightarrow>
          (case process_exists c pid w1 of
             (alive, w2) \<Rightarrow>
               if alive then
                 (let w3 = snd (force_kill_daemon c pid w2)
                  in map_option snd (wait_for_exit c pid (timeout_exit c w3) w3))
               else Some w2))"

definition daemon_stop :: "'w cli_os \<Rightarrow> path \<Rightarrow> 'w \<Rightarrow> ((client_error + bool) \<times> 'w) option" where
  "daemon_stop c root w =
     (let os = co_os c
      in case connect os root w of
           Inl DaemonNotRunning \<Rightarrow>
             Some (Inr False,
               case get_daemon_dir os root w of Inl _ \<Rightarrow> w | Inr dir \<Rightarrow> cleanup_stale_pid os dir w)
         | Inl e \<Rightarrow> Some (Inl e, w)
         | Inr sock \<Rightarrow>
             (case client_shutdown c sock w of
                (res, w1) \<Rightarrow>
                  (case read_daemon_pid os root w1 of
                     Inl e \<Rightarrow> Some (Inl e, w1)
                   | Inr pid \<Rightarrow>
                       (case (case pid of
                                None \<Rightarrow> Some w1
                              | Some n \<Rightarrow> stop_process c n (\<not> isl res) w1) of
                          None \<Rightarrow> None
                        | Some w2 \<Rightarrow>
                            (case get_daemon_dir os root w2 of
                               Inl e \<Rightarrow> Some (Inl e, w2)
                             | Inr dir \<Rightarrow> Some (Inr True, cleanup_stale_pid os dir w2))))))"

definition start_daemon_background :: "'w cli_os \<Rightarrow> path \<Rightarrow> ('w, nat) call" where
  "start_daemon_background c root =
     bind (gets (find_ojd_binary c)) (\<lambda>ojd.
     map_err (\<lambda>e. DaemonStartFailed (io_message e)) (co_spawn c ojd root))"

text \<open>The loop that waits for the reason of a failed start to appear in the log.\<close>

partial_function (option) poll_startup_error ::
  "'w cli_os \<Rightarrow> path \<Rightarrow> string \<Rightarrow> instant \<Rightarrow> 'w \<Rightarrow> ((client_error + path) \<times> 'w) option" where
  "poll_startup_error c root exit poll_start w =
     (case co_now c w of
        (now, w1) \<Rightarrow>
          if now - poll_start < timeout_exit c w1 then
            (case read_startup_error (co_os c) root w1 of
               Some err \<Rightarrow> Some (Inl (DaemonStartFailed err), w1)
             | None \<Rightarrow> poll_startup_error c root exit poll_start (co_sleep c (poll_interval c w1) w1))
          else Some (Inl (DaemonStartFailed (''exited with '' @ exit)), w1))"

partial_function (option) retry_loop ::
  "'w cli_os \<Rightarrow> path \<Rightarrow> duration \<Rightarrow> nat \<Rightarrow> instant \<Rightarrow> 'w \<Rightarrow> ((client_error + path) \<times> 'w) option" where
  "retry_loop c root timeout child start w =
     (case co_now c w of
        (now, w1) \<Rightarrow>
          if now - start < timeout then
            (case co_try_wait c child w1 of
               (res, w2) \<Rightarrow>
                 (case res of
                    Inr (Some exit) \<Rightarrow>
                      (case co_now c w2 of
                         (poll_start, w3) \<Rightarrow> poll_startup_error c root exit poll_start w3)
                  | _ \<Rightarrow>
                      (case connect (co_os c) root w2 of
                         Inr p \<Rightarrow> Some (Inr p, w2)
                       | Inl err \<Rightarrow>
                           if err = DaemonNotRunning
                           then retry_loop c root timeout child start
                                  (co_sleep c (poll_interval c w2) w2)
                           else Some (Inl (wrap_with_startup_error (co_os c) root err w2), w2))))
          else Some (Inl (wrap_with_startup_error (co_os c) root DaemonStartTimeout w1), w1))"

definition connect_with_retry ::
  "'w cli_os \<Rightarrow> path \<Rightarrow> duration \<Rightarrow> nat \<Rightarrow> 'w \<Rightarrow> ((client_error + path) \<times> 'w) option" where
  "connect_with_retry c root timeout child w =
     (case co_now c w of (start, w1) \<Rightarrow> retry_loop c root timeout child start w1)"

text \<open>\<open>Handle::block_on\<close> panics in an asynchronous context; whether the caller is in one is an
  argument.\<close>

datatype 'a outcome = Panicked | Returned 'a

definition version_mismatch :: "'w cli_os \<Rightarrow> path \<Rightarrow> 'w \<Rightarrow> bool" where
  "version_mismatch c root w =
     (case get_daemon_dir (co_os c) root w of
        Inl _ \<Rightarrow> False
      | Inr dir \<Rightarrow>
          (case os_read_file (co_os c) (path_join dir ''daemon.version'') w of
             Inl _ \<Rightarrow> False
           | Inr v \<Rightarrow> trim v \<noteq> co_version c))"

definition connect_or_launch :: "'w cli_os \<Rightarrow> path \<Rightarrow> 'w \<Rightarrow> ((client_error + path) \<times> 'w) option" where
  "connect_or_launch c root w =
     (case connect (co_os c) root w of
        Inr p \<Rightarrow> Some (Inr p, w)
      | Inl DaemonNotRunning \<Rightarrow>
          (case start_daemon_background c root w of
             (Inl e, w1) \<Rightarrow> Some (Inl e, w1)
           | (Inr child, w1) \<Rightarrow> connect_with_retry c root (timeout_connect c w1) child w1)
      | Inl e \<Rightarrow> Some (Inl (wrap_with_startup_error (co_os c) root e w), w))"

definition connect_or_start ::
  "'w cli_os \<Rightarrow> bool \<Rightarrow> path \<Rightarrow> 'w \<Rightarrow> ((client_error + path) outcome \<times> 'w) option" where
  "connect_or_start c in_async root w =
     (if version_mismatch c root w then
        (if in_async then Some (Panicked, w)
         else (case daemon_stop c root w of
                 None \<Rightarrow> None
               | Some (_, w1) \<Rightarrow> map_option (\<lambda>(r, w2). (Returned r, w2)) (connect_or_launch c root w1)))
      else map_option (\<lambda>(r, w1). (Returned r, w1)) (connect_or_launch c root w))"

end
