(* ===== verification/Cli.thy ===== *)
theory Cli
  imports Client
begin

text \<open>
  \<open>crates/cli/src/main.rs\<close> and \<open>crates/cli/src/commands\<close>: the commands of \<open>oj\<close> as functions from the parsed
  command line to the lines printed on success. Parsing the command line is clap's. The main function
  is asynchronous, so the panic of \<open>connect_or_start\<close> can reach every command.
\<close>

section \<open>Command lines\<close>

datatype pipeline_command =
    PipelineList
  | PipelineShow string
  | PipelineResumeCmd string
  | PipelineFailCmd string "string option"

datatype session_command = SessionList | SessionSendCmd string string | SessionAttach string

datatype worker_command = WorkerStart string | WorkerStop string | WorkerWake string

datatype daemon_command = DaemonStart bool | DaemonStop | DaemonStatus | DaemonLogs nat bool

datatype cli_command =
    RunCmd string "string list" "(string \<times> string) list"
  | WorkerCmd worker_command
  | PipelineCmd pipeline_command
  | SessionCmd session_command
  | EmitCmd string string
  | DoneCmd "string option"
  | DaemonCmd daemon_command

datatype cli_error =
    CliClient client_error
  | CliArgs arg_validation_error
  | CliRunbook parse_error
  | CliIo io_error
  | CliOther string

type_synonym ('w, 'a) cli = "('w, cli_error, 'a) comp"

text \<open>\<open>-a key=value\<close>\<close>

definition parse_key_val :: "string \<Rightarrow> string + (string \<times> string)" where
  "parse_key_val s =
     (case find_char CHR ''='' s of
        None \<Rightarrow> Inl (''invalid key=value: no `=` found in `'' @ s @ ''`'')
      | Some pos \<Rightarrow> Inr (take pos s, drop (pos + 1) s))"

definition cli_client :: "('w, 'a) call \<Rightarrow> ('w, 'a) cli" where
  "cli_client m = map_err CliClient m"

section \<open>Commands that ask the daemon\<close>

definition cli_load_runbook :: "'w os \<Rightarrow> path \<Rightarrow> 'w \<Rightarrow> cli_error + runbook" where
  "cli_load_runbook os project_root w =
     (let dir = path_join project_root ''.oj/runbooks''
      in if os_exists os dir w then
           (case os_read_dir os dir w of
              Inl e \<Rightarrow> Inl (CliIo e)
            | Inr ns \<Rightarrow>
                (case read_runbooks os dir ns w of
                   Inl e \<Rightarrow> Inl (CliIo e)
                 | Inr content \<Rightarrow>
                     (case parse_runbook (os_toml os) content of
                        Inl e \<Rightarrow> Inl (CliRunbook e)
                      | Inr rb \<Rightarrow> Inr rb)))
         else Inr runbook_default)"

definition named_args :: "(string \<times> string) list \<Rightarrow> (string, string) hmap" where
  "named_args kvs = foldl (\<lambda>m (k, v). hm_insert k v m) [] kvs"

definition run_command ::
  "'w cli_os \<Rightarrow> path \<Rightarrow> runbook \<Rightarrow> string \<Rightarrow> string list \<Rightarrow> (string \<times> string) list \<Rightarrow> ('w, string list) cli"
where
  "run_command c sock rb command args named =
     bind (ok_or (CliOther (''unknown command: '' @ command)) (get_command rb command)) (\<lambda>cd.
     (case validate_args cd args (named_args named) of
        Inl e \<Rightarrow> fail (CliArgs e)
      | Inr _ \<Rightarrow>
          bind (cli_client (send_event c sock
            (CommandInvoked command (parse_args cd args (named_args named))))) (\<lambda>_.
          ok [''Started: '' @ command])))"

definition done_command :: "'w cli_os \<Rightarrow> path \<Rightarrow> string option \<Rightarrow> ('w, string list) cli" where
  "done_command c sock err =
     bind (gets (os_env (co_os c) ''OJ_PIPELINE'')) (\<lambda>found.
     bind (ok_or (CliOther ''OJ_PIPELINE not set'') found) (\<lambda>pid.
     bind (cli_client (send_event c sock
       (case err of Some e \<Rightarrow> AgentError pid e | None \<Rightarrow> AgentDone pid))) (\<lambda>_.
     ok [''Signaled completion''])))"

text \<open>The JSON parser is an argument.\<close>

definition emit_command ::
  "'w cli_os \<Rightarrow> (string \<Rightarrow> string + json) \<Rightarrow> path \<Rightarrow> string \<Rightarrow> string \<Rightarrow> ('w, string list) cli" where
  "emit_command c from_json sock nm data =
     (case from_json data of
        Inl e \<Rightarrow> fail (CliOther e)
      | Inr j \<Rightarrow> bind (cli_client (send_event c sock (Custom nm j))) (\<lambda>_. ok [''Event emitted'']))"

definition pad :: "nat \<Rightarrow> string \<Rightarrow> string" where
  "pad n s = s @ replicate (n - length s) CHR '' ''"

definition pipeline_row :: "pipeline_summary \<Rightarrow> string" where
  "pipeline_row p =
     pad 12 (take 12 (sm_id p)) @ '' '' @ pad 20 (take 20 (sm_name p)) @ '' '' @
     pad 10 (take 10 (sm_kind p)) @ '' '' @ pad 15 (sm_phase p) @ '' '' @ sm_phase_status p"

definition pipeline_table :: "pipeline_summary list \<Rightarrow> string list" where
  "pipeline_table ps =
     (if ps = [] then [''No pipelines'']
      else (pad 12 ''ID'' @ '' '' @ pad 20 ''NAME'' @ '' '' @ pad 10 ''KIND'' @ '' '' @ pad 15 ''PHASE'' @
            '' STATUS'') # map pipeline_row ps)"

definition optional_line :: "string \<Rightarrow> string option \<Rightarrow> string list" where
  "optional_line label x = (case x of Some v \<Rightarrow> [label @ v] | None \<Rightarrow> [])"

definition pipeline_lines :: "pipeline_detail \<Rightarrow> string list" where
  "pipeline_lines p =
     [''Pipeline: '' @ dt_id p, ''  Name: '' @ dt_name p, ''  Kind: '' @ dt_kind p,
      ''  Phase: '' @ dt_phase p @ '' ('' @ dt_phase_status p @ '')''] @
     optional_line ''  Workspace: '' (dt_workspace_path p) @
     optional_line ''  Session: '' (dt_session_id p) @ optional_line ''  Error: '' (dt_error p) @
     (if dt_inputs p = [] then []
      else ''  Inputs:'' # map (\<lambda>(k, v). ''    '' @ k @ '': '' @ v) (dt_inputs p))"

fun do_pipeline :: "'w cli_os \<Rightarrow> path \<Rightarrow> pipeline_command \<Rightarrow> ('w, string list) cli" where
  "do_pipeline c sock PipelineList =
     bind (cli_client (client_list_pipelines c sock)) (\<lambda>ps. ok (pipeline_table ps))"
| "do_pipeline c sock (PipelineShow i) =
     bind (cli_client (client_get_pipeline c sock i)) (\<lambda>p.
     ok (case p of Some d \<Rightarrow> pipeline_lines d | None \<Rightarrow> [''Pipeline not found: '' @ i]))"
| "do_pipeline c sock (PipelineResumeCmd i) =
     bind (cli_client (client_pipeline_resume c sock i)) (\<lambda>_.
     ok [''Resumed monitoring for pipeline '' @ i])"
| "do_pipeline c sock (PipelineFailCmd i err) =
     bind (cli_client (client_pipeline_fail c sock i
       (case err of Some e \<Rightarrow> e | None \<Rightarrow> ''manual failure''))) (\<lambda>_.
     ok [''Marked pipeline '' @ i @ '' as failed''])"

text \<open>A command that returns, and one that first waits for a child to end, which it may never do.\<close>

definition returned :: "('w, 'a) cli \<Rightarrow> 'w \<Rightarrow> ((cli_error + 'a) outcome \<times> 'w) option" where
  "returned m w = (case m w of (r, w1) \<Rightarrow> Some (Returned r, w1))"

definition wait_child ::
  "'w cli_os \<Rightarrow> path \<Rightarrow> string list \<Rightarrow> (string \<Rightarrow> bool \<Rightarrow> ('w, string list) cli) \<Rightarrow> 'w \<Rightarrow>
   ((cli_error + string list) outcome \<times> 'w) option" where
  "wait_child c program args after w =
     (case co_wait c program args w of
        None \<Rightarrow> None
      | Some (Inl e, w1) \<Rightarrow> Some (Returned (Inl (CliIo e)), w1)
      | Some (Inr (exit, good), w1) \<Rightarrow> returned (after exit good) w1)"

definition attach ::
  "'w cli_os \<Rightarrow> string \<Rightarrow> 'w \<Rightarrow> ((cli_error + string list) outcome \<times> 'w) option" where
  "attach c i =
     (let session_name = ''oj-'' @ i
      in wait_child c ''tmux'' [''attach'', ''-t'', session_name] (\<lambda>_ success.
         if success then ok [] else fail (CliOther (''Failed to attach to session '' @ session_name))))"

definition session_row :: "session_summary \<Rightarrow> string" where
  "session_row s =
     pad 20 (su_id s) @ '' '' @ (case su_pipeline_id s of Some p \<Rightarrow> p | None \<Rightarrow> ''-'')"

fun do_session ::
  "'w cli_os \<Rightarrow> path \<Rightarrow> session_command \<Rightarrow> 'w \<Rightarrow> ((cli_error + string list) outcome \<times> 'w) option" where
  "do_session c sock SessionList =
     returned (bind (cli_client (client_list_sessions c sock)) (\<lambda>ss.
     ok (if ss = [] then [''No sessions'']
         else (pad 20 ''SESSION'' @ '' PIPELINE'') # map session_row ss)))"
| "do_session c sock (SessionSendCmd i input) =
     returned (bind (cli_client (client_session_send c sock i input)) (\<lambda>_. ok [''Sent to session '' @ i]))"
| "do_session c sock (SessionAttach i) = attach c i"

section \<open>Daemon commands\<close>

definition format_uptime :: "nat \<Rightarrow> string" where
  "format_uptime t =
     (let hours = t div 3600; mins = (t mod 3600) div 60; secs = t mod 60
      in if 0 < hours then show_nat hours @ ''h '' @ show_nat mins @ ''m '' @ show_nat secs @ ''s''
         else if 0 < mins then show_nat mins @ ''m '' @ show_nat secs @ ''s''
         else show_nat secs @ ''s'')"

text \<open>The lookup of the daemon's binary for \<open>oj daemon start --foreground\<close>.\<close>

definition foreground_binary :: "'w cli_os \<Rightarrow> 'w \<Rightarrow> path" where
  "foreground_binary c w =
     (let os = co_os c;
          dev = (case os_env os ''CARGO_MANIFEST_DIR'' w of
                   None \<Rightarrow> None
                 | Some m \<Rightarrow>
                     (case os_parent os m of
                        None \<Rightarrow> None
                      | Some p \<Rightarrow> map_option (\<lambda>q. path_join q ''target/debug/ojd'') (os_parent os p)));
          sibling = (case co_current_exe c w of
                       Inl _ \<Rightarrow> None
                     | Inr exe \<Rightarrow> map_option (\<lambda>d. path_join d ''ojd'') (os_parent os exe))
      in case List.find (\<lambda>p. os_exists os p w) (List.map_filter (\<lambda>p. p) [dev, sibling]) of
           Some p \<Rightarrow> p
         | None \<Rightarrow> ''ojd'')"

definition get_log_path :: "'w os \<Rightarrow> path \<Rightarrow> 'w \<Rightarrow> cli_error + path" where
  "get_log_path os root w =
     (case os_canonicalize os root w of
        Inl e \<Rightarrow> Inl (CliIo e)
      | Inr canonical \<Rightarrow>
          (let base = (case os_env os ''XDG_STATE_HOME'' w of
                         Some x \<Rightarrow> x
                       | None \<Rightarrow>
                           (case os_env os ''HOME'' w of
                              Some h \<Rightarrow> path_join h ''.local/state'' | None \<Rightarrow> ''.''))
           in Inr (path_join (path_join (path_join (path_join base ''oj'') ''projects'')
                     (client_project_hash os canonical)) ''daemon.log'')))"

definition daemon_status_lines :: "nat \<times> nat \<times> nat \<Rightarrow> string \<Rightarrow> string list" where
  "daemon_status_lines st version =
     (case st of (uptime, ps, ss) \<Rightarrow>
        [''Status: running'', ''Version: '' @ version, ''Uptime: '' @ format_uptime uptime,
         ''Pipelines: '' @ show_nat ps @ '' active'', ''Sessions: '' @ show_nat ss @ '' active''])"

definition background_start ::
  "'w cli_os \<Rightarrow> bool \<Rightarrow> path \<Rightarrow> 'w \<Rightarrow> ((cli_error + string list) outcome \<times> 'w) option" where
  "background_start c in_async root w =
     (case connect_or_start c in_async root w of
        None \<Rightarrow> None
      | Some (Panicked, w1) \<Rightarrow> Some (Panicked, w1)
      | Some (Returned (Inr _), w1) \<Rightarrow> Some (Returned (Inr [''Daemon started for '' @ root]), w1)
      | Some (Returned (Inl e), w1) \<Rightarrow> Some (Returned (Inl (CliOther (show_client_error e))), w1))"

fun do_daemon ::
  "'w cli_os \<Rightarrow> bool \<Rightarrow> path \<Rightarrow> daemon_command \<Rightarrow> 'w \<Rightarrow>
   ((cli_error + string list) outcome \<times> 'w) option" where
  "do_daemon c in_async root (DaemonStart True) w =
     wait_child c (foreground_binary c w) [root] (\<lambda>exit success.
       if success then ok []
       else fail (CliOther (''Daemon exited with status: '' @ exit))) w"
| "do_daemon c in_async root (DaemonStart False) w =
     (case connect (co_os c) root w of
        Inl _ \<Rightarrow> background_start c in_async root w
      | Inr sock \<Rightarrow>
          (case client_status c sock w of
             (Inr (uptime, _), w1) \<Rightarrow>
               Some (Returned (Inr [''Daemon already running (uptime: '' @ show_nat uptime @ ''s)'']), w1)
           | (Inl _, w1) \<Rightarrow> background_start c in_async root w1))"
| "do_daemon c in_async root DaemonStop w =
     (case daemon_stop c root w of
        None \<Rightarrow> None
      | Some (Inr stopped, w1) \<Rightarrow>
          Some (Returned (Inr [if stopped then ''Daemon stopped'' else ''Daemon not running'']), w1)
      | Some (Inl e, w1) \<Rightarrow>
          Some (Returned (Inl (CliOther (''Failed to stop daemon: '' @ show_client_error e))), w1))"
| "do_daemon c in_async root DaemonStatus w =
     (case connect (co_os c) root w of
        Inl _ \<Rightarrow> Some (Returned (Inr [''Daemon not running'']), w)
      | Inr sock \<Rightarrow>
          returned (bind (cli_client (client_status c sock)) (\<lambda>st.
            (\<lambda>w1. case client_hello c sock w1 of
               (Inr v, w2) \<Rightarrow> (Inr (daemon_status_lines st v), w2)
             | (Inl _, w2) \<Rightarrow> (Inr (daemon_status_lines st ''unknown''), w2)))) w)"
| "do_daemon c in_async root (DaemonLogs n follow) w =
     (case get_log_path (co_os c) root w of
        Inl e \<Rightarrow> Some (Returned (Inl e), w)
      | Inr p \<Rightarrow>
          (if \<not> os_exists (co_os c) p w then Some (Returned (Inr [''No log file found at '' @ p]), w)
           else wait_child c ''tail'' ((if follow then [''-f''] else []) @ [''-n'', show_nat n, p])
                  (\<lambda>_ _. ok []) w))"

section \<open>The main function\<close>

definition client_command ::
  "'w cli_os \<Rightarrow> (string \<Rightarrow> string + json) \<Rightarrow> path \<Rightarrow> runbook \<Rightarrow> cli_command \<Rightarrow> 'w \<Rightarrow>
   ((cli_error + string list) outcome \<times> 'w) option" where
  "client_command c from_json sock rb cmd =
     (case cmd of
        RunCmd command args named \<Rightarrow> returned (run_command c sock rb command args named)
      | DoneCmd err \<Rightarrow> returned (done_command c sock err)
      | EmitCmd e data \<Rightarrow> returned (emit_command c from_json sock e data)
      | PipelineCmd p \<Rightarrow> returned (do_pipeline c sock p)
      | SessionCmd s \<Rightarrow> do_session c sock s
      | WorkerCmd _ \<Rightarrow> returned (fail (CliOther ''Worker commands not yet supported''))
      | DaemonCmd _ \<Rightarrow> returned (fail (CliOther ''unreachable'')))"

definition cli_main ::
  "'w cli_os \<Rightarrow> (string \<Rightarrow> string + json) \<Rightarrow> bool \<Rightarrow> path option \<Rightarrow> cli_command \<Rightarrow> 'w \<Rightarrow>
   ((cli_error + string list) outcome \<times> 'w) option" where
  "cli_main c from_json in_async repo cmd w =
     (case (case repo of Some r \<Rightarrow> Some (Inr r) | None \<Rightarrow> find_project_root c w) of
        None \<Rightarrow> None
      | Some (Inl e) \<Rightarrow> Some (Returned (Inl (CliClient e)), w)
      | Some (Inr root) \<Rightarrow>
          (case cmd of
             DaemonCmd d \<Rightarrow> do_daemon c in_async root d w
           | _ \<Rightarrow>
               (case connect_or_start c in_async root w of
                  None \<Rightarrow> None
                | Some (Panicked, w1) \<Rightarrow> Some (Panicked, w1)
                | Some (Returned (Inl e), w1) \<Rightarrow> Some (Returned (Inl (CliClient e)), w1)
                | Some (Returned (Inr sock), w1) \<Rightarrow>
                    (case cli_load_runbook (co_os c) root w1 of
                       Inl e \<Rightarrow> Some (Returned (Inl e), w1)
                     | Inr rb \<Rightarrow> client_command c from_json sock rb cmd w1))))"

end
