(* ===== verification/Client_Properties.thy ===== *)
theory Client_Properties
  imports Cli
begin

text \<open>
  Properties of the command line together with the daemon: that they agree on their files and on the
  runbook, that the waiting loops end, and what a second daemon does to the first.
\<close>

section \<open>The files of a daemon\<close>

lemma client_paths [simp]:
  "client_project_hash os p = project_hash os p" "client_socket_dir os w = socket_dir os w"
  by (simp_all add: client_project_hash_def project_hash_def hex_encode_def client_socket_dir_def
      socket_dir_def)

lemma client_state_dir_eq:
  "client_state_dir os w = (case state_dir os w of Inl _ \<Rightarrow> Inl ClientNoStateDir | Inr p \<Rightarrow> Inr p)"
  by (simp add: client_state_dir_def state_dir_def split: option.split)

lemma path_join_assoc:
  assumes "\<not> is_absolute b" and "\<not> is_absolute c" and "b \<noteq> []" and "last b \<noteq> CHR ''/''"
  shows "path_join (path_join a b) c = path_join a (b @ ''/'' @ c)"
  using assms by (cases b) (auto simp: path_join_def is_absolute_def)

lemma client_daemon_paths:
  shows "(\<exists>dc. for_project os root w = Inr dc) \<longleftrightarrow> (\<exists>dir. get_daemon_dir os root w = Inr dir)"
    and "for_project os root w = Inr dc \<Longrightarrow> get_socket_path os root w = Inr (dc_socket_path dc)"
    and "for_project os root w = Inr dc \<Longrightarrow> get_log_path os root w = Inr (dc_log_path dc)"
    and "for_project os root w = Inr dc \<Longrightarrow> \<exists>dir. get_daemon_dir os root w = Inr dir \<and>
      dc_lock_path dc = path_join dir ''daemon.pid'' \<and>
      dc_version_path dc = path_join dir ''daemon.version'' \<and>
      dc_log_path dc = path_join dir ''daemon.log''"
proof -
  have "path_join h ''.local/state/oj'' = path_join (path_join h ''.local/state'') ''oj''" for h
    by (simp add: path_join_assoc is_absolute_def)
  note defs = this for_project_def get_daemon_dir_def get_socket_path_def get_log_path_def
    client_state_dir_eq state_dir_def Let_def
  show "(\<exists>dc. for_project os root w = Inr dc) \<longleftrightarrow> (\<exists>dir. get_daemon_dir os root w = Inr dir)"
    by (auto simp: defs split: sum.splits option.splits)
  assume "for_project os root w = Inr dc"
  then show "get_socket_path os root w = Inr (dc_socket_path dc)"
    and "get_log_path os root w = Inr (dc_log_path dc)"
    and "\<exists>dir. get_daemon_dir os root w = Inr dir \<and> dc_lock_path dc = path_join dir ''daemon.pid'' \<and>
      dc_version_path dc = path_join dir ''daemon.version'' \<and> dc_log_path dc = path_join dir ''daemon.log''"
    by (auto simp: defs split: sum.splits option.splits)
qed

text \<open>Client and daemon agree on the daemon of a project: the daemon can be configured exactly if
  the client finds its directory, and then the socket, the process id, the version and the log are
  the same files for both, the log also where \<open>oj daemon logs\<close> looks for it.\<close>

lemma client_finds_daemon:
  "((\<exists>dc. for_project os root w = Inr dc) \<longleftrightarrow> (\<exists>dir. get_daemon_dir os root w = Inr dir)) \<and>
   (\<forall>dc. for_project os root w = Inr dc \<longrightarrow>
      get_socket_path os root w = Inr (dc_socket_path dc) \<and>
      get_log_path os root w = Inr (dc_log_path dc) \<and>
      (\<exists>dir. get_daemon_dir os root w = Inr dir \<and> dc_lock_path dc = path_join dir ''daemon.pid'' \<and>
         dc_version_path dc = path_join dir ''daemon.version'' \<and>
         dc_log_path dc = path_join dir ''daemon.log''))"
  using client_daemon_paths [of os root w] by blast

definition no_files :: files where
  "no_files = \<lparr>fl_content = [], fl_locked = [], fl_time = 0\<rparr>"

lemma client_finds_daemon_witness:
  "get_socket_path file_os ''/p'' no_files = Inr ''/tmp/oj/01ff.sock'' \<and>
   (\<exists>dc. for_project file_os ''/p'' no_files = Inr dc \<and> dc_socket_path dc = ''/tmp/oj/01ff.sock'')"
proof -
  have "map_option dc_socket_path (case for_project file_os ''/p'' no_files of
      Inr dc \<Rightarrow> Some dc | Inl _ \<Rightarrow> None) = Some ''/tmp/oj/01ff.sock''"
    by code_simp
  then obtain dc where dc: "for_project file_os ''/p'' no_files = Inr dc"
    "dc_socket_path dc = ''/tmp/oj/01ff.sock''" by (auto split: sum.splits)
  with client_finds_daemon [of file_os "''/p''" no_files] show ?thesis by auto
qed

section \<open>A second daemon\<close>

lemma file_os_paths: "for_project file_os root w = for_project file_os root w'"
  by (simp add: for_project_def file_os_def state_dir_def socket_dir_def project_hash_def)

text \<open>C31: starting a second daemon for a project hides the first. The second one fails, as the lock is
  held, but the cleaning up after its failure has removed the first one's socket and process id: the
  first still holds the lock, yet the client says that no daemon is running, and stopping it does
  nothing and reports that there was none.\<close>

theorem second_daemon_hides_first:
  assumes "for_project file_os root w = Inr dc" and "dc_lock_path dc \<in> set (fl_locked w)"
    and "co_os c = file_os"
  shows "\<exists>w'. startup file_os base run dc w = (Inl (LockFailed (IoError OtherKind ''locked'')), w') \<and>
    dc_lock_path dc \<in> set (fl_locked w') \<and> connect file_os root w' = Inl DaemonNotRunning \<and>
    read_daemon_pid file_os root w' = Inr None \<and> daemon_stop c root w' = Some (Inr False, w')"
proof -
  obtain m ls t where w: "w = \<lparr>fl_content = m, fl_locked = ls, fl_time = t\<rparr>" by (cases w)
  with failed_start_removes_files [OF w, of dc base run] assms(2) obtain w' where
    s: "startup file_os base run dc w = (Inl (LockFailed (IoError OtherKind ''locked'')), w')"
      "fl_locked w' = fl_locked w" and
    gone: "\<not> os_exists file_os (dc_socket_path dc) w'" "\<not> os_exists file_os (dc_lock_path dc) w'"
    by (auto simp: file_os_def hm_contains_def)
  have d: "for_project file_os root w' = Inr dc" using assms(1) file_os_paths [of root w w'] by simp
  have con: "connect file_os root w' = Inl DaemonNotRunning"
    using client_daemon_paths(2) [OF d] gone(1) by (simp add: connect_def)
  from client_daemon_paths(4) [OF d] gone(2) have "read_daemon_pid file_os root w' = Inr None"
    and "daemon_stop c root w' = Some (Inr False, w')"
    by (auto simp: read_daemon_pid_def daemon_stop_def con assms(3) cleanup_stale_pid_def Let_def)
  with s con assms(2) show ?thesis by auto
qed

text \<open>A client on the small file system: its requests run out of time, every program succeeds.\<close>

definition file_cli :: "files cli_os" where
  "file_cli =
     \<lparr>co_os = file_os, co_now = (\<lambda>w. (fl_time w, w\<lparr>fl_time := fl_time w + 1\<rparr>)),
      co_sleep = (\<lambda>d w. w\<lparr>fl_time := fl_time w + d\<rparr>), co_spawn = (\<lambda>_ _. ok 0),
      co_try_wait = (\<lambda>_. ok None), co_status = (\<lambda>_ _. ok (''exit status: 0'', True)),
      co_wait = (\<lambda>_ _ w. Some (Inr (''exit status: 0'', True), w)),
      co_current_dir = (\<lambda>_. Inr ''/p''), co_current_exe = (\<lambda>_. Inr ''/bin/oj''),
      co_is_dir = (\<lambda>_ _. False), co_connect = (\<lambda>_. ok ()),
      co_exchange = (\<lambda>_ _ _ _ w. (ReadTimedOut, w)), co_encode = (\<lambda>_. Inr []),
      co_decode = (\<lambda>_. Inl ''no response''), co_version = ''0.1''\<rparr>"

theorem second_daemon_hides_first_witness:
  "\<exists>dc w'. for_project file_os ''/p'' no_files = Inr dc \<and>
     (let w = no_files\<lparr>fl_content := [(dc_socket_path dc, [])], fl_locked := [dc_lock_path dc]\<rparr>
      in fst (startup file_os file_host no_commands dc w) =
           Inl (LockFailed (IoError OtherKind ''locked'')) \<and>
         w' = snd (startup file_os file_host no_commands dc w) \<and>
         daemon_stop file_cli ''/p'' w' = Some (Inr False, w'))"
proof -
  obtain dc where dc: "for_project file_os ''/p'' no_files = Inr dc"
    by (simp add: for_project_def file_os_def state_dir_def Let_def)
  let ?w = "no_files\<lparr>fl_content := [(dc_socket_path dc, [])], fl_locked := [dc_lock_path dc]\<rparr>"
  have 1: "for_project file_os ''/p'' ?w = Inr dc" using dc file_os_paths [of "''/p''" no_files ?w] by simp
  have 2: "dc_lock_path dc \<in> set (fl_locked ?w)" and 3: "co_os file_cli = file_os"
    by (simp_all add: file_cli_def)
  from second_daemon_hides_first [OF 1 2 3, of file_host no_commands] dc show ?thesis by auto
qed

section \<open>A daemon that is running\<close>

lemma file_os_config:
  "for_project file_os root w = Inr
     \<lparr>dc_project_root = root, dc_socket_path = ''/tmp/oj/01ff.sock'',
      dc_lock_path = ''/home/u/.local/state/oj/projects/01ff/daemon.pid'',
      dc_version_path = ''/home/u/.local/state/oj/projects/01ff/daemon.version'',
      dc_log_path = ''/home/u/.local/state/oj/projects/01ff/daemon.log'',
      dc_wal_path = ''/home/u/.local/state/oj/projects/01ff/wal/events.wal'',
      dc_workspaces_path = ''/home/u/.local/state/oj/projects/01ff/workspaces''\<rparr>"
  by (simp add: for_project_def file_os_def state_dir_def socket_dir_def Let_def project_hash_def
      hex_encode_def hex_digit_def path_join_def is_absolute_def char_of_def bit_Suc_0_iff)

lemma apply_replayed_keeps:
  assumes "\<And>w. f (snd (now w)) = f w"
  shows "f (snd (apply_replayed now ops st w)) = f w"
proof (induction ops arbitrary: st w)
  case (Cons op ops)
  obtain t w1 where n: "now w = (t, w1)" by fastforce
  with assms [of w] Cons [of "apply_op t op st" w1] show ?case by simp
qed simp

lemma replay_state_keeps:
  assumes "\<And>w. fl_content (snd (now w)) = fl_content w"
    and "replay_state file_os now p w = (Inr x, w')" and "q \<noteq> p"
  shows "hm_get (fl_content w') q = hm_get (fl_content w) q"
proof -
  obtain t w1 where o: "os_open_log file_os p w = (Inr t, w1)"
    using assms(2) by (auto simp: replay_state_def split: prod.splits sum.splits)
  then have "hm_get (fl_content w1) q = hm_get (fl_content w) q"
    using assms(3) by (auto simp: file_os_def put_file_def split: option.splits)
  moreover have "fl_content w' = fl_content w1"
    using assms(2) o apply_replayed_keeps [where f = fl_content and now = now, OF assms(1)]
    by (auto simp: replay_state_def split: prod.splits sum.splits) (metis snd_conv)
  ultimately show ?thesis by simp
qed

lemma file_os_io [simp]:
  "os_create_file file_os p w = (Inr (), put_file p [] w)"
  "os_write_line file_os p t w = (Inr (), put_file p (t @ nl) w)"
  "os_write_file file_os p t w = (Inr (), put_file p t w)"
  "os_create_dir_all file_os p = ok ()" "os_bind file_os p w = (Inr (), put_file p [] w)"
  "os_exists file_os p w = hm_contains (fl_content w) p"
  "os_remove_file file_os p w = (Inr (), w\<lparr>fl_content := hm_remove p (fl_content w)\<rparr>)"
  "os_read_file file_os p w =
     (case hm_get (fl_content w) p of Some t \<Rightarrow> Inr t | None \<Rightarrow> Inl (IoError NotFound ''no file''))"
  by (simp_all add: file_os_def)

lemma create_parent_file_os: "create_parent file_os p = ok ()"
  by (simp add: create_parent_def io_def map_err_def ok_def fun_eq_iff file_os_def split: option.split)

lemma setup_logging_file_os:
  assumes "for_project file_os root w = Inr dc"
  shows "setup_logging file_os dc = ok ()"
proof -
  have "os_parent file_os = dirname" by (simp add: file_os_def)
  moreover have "dc_log_path dc = ''/home/u/.local/state/oj/projects/01ff/daemon.log''"
    using assms file_os_config [of root w] by auto
  ultimately show ?thesis
    by (simp add: setup_logging_def create_parent_file_os file_name_def dirname_def comp_defs fun_eq_iff)
qed

lemma try_lock_keeps: "os_try_lock file_os p w = (r, w') \<Longrightarrow> fl_content w' = fl_content w"
  by (auto simp: file_os_def split: if_splits)

lemma put_file_content [simp]: "fl_content (put_file p t w) = hm_insert p t (fl_content w)"
  by (simp add: put_file_def)

text \<open>The files of a daemon that has started.\<close>

lemma started_files:
  assumes "for_project file_os root w = Inr dc" and "startup file_os base run dc w = (Inr (cfg, d), w')"
    and "\<And>w. fl_content (snd (h_now base w)) = fl_content w"
  shows "hm_get (fl_content w') (dc_version_path dc) = Some (os_version file_os)"
    and "hm_get (fl_content w') (dc_lock_path dc) = Some (show_nat (os_pid file_os) @ nl)"
    and "hm_contains (fl_content w') (dc_socket_path dc)"
proof -
  obtain x w1 where i: "startup_inner file_os base run dc w = (Inr x, w1)"
    and w': "fl_content w' = fl_content w1"
    using assms(2,3) by (auto simp: startup_def split: prod.splits sum.splits) (metis snd_conv)
  have paths: "dc_version_path dc \<noteq> dc_wal_path dc" "dc_lock_path dc \<noteq> dc_wal_path dc"
    "dc_version_path dc \<noteq> dc_lock_path dc" "dc_version_path dc \<noteq> dc_socket_path dc"
    "dc_lock_path dc \<noteq> dc_socket_path dc"
    using assms(1) file_os_config [of root w] by auto
  obtain lk u0 where lk: "os_try_lock file_os (dc_lock_path dc) (put_file (dc_lock_path dc) [] w) = (lk, u0)"
    by fastforce
  let ?u = "put_file (dc_version_path dc) (os_version file_os)
    (put_file (dc_lock_path dc) (show_nat (os_pid file_os) @ nl) u0)"
  from i lk obtain l st u1 where r: "replay_state file_os (h_now base) (dc_wal_path dc) ?u = (Inr (l, st), u1)"
    and w1: "w1 = put_file (dc_socket_path dc) []
      (if hm_contains (fl_content u1) (dc_socket_path dc)
       then u1\<lparr>fl_content := hm_remove (dc_socket_path dc) (fl_content u1)\<rparr> else u1)"
    unfolding startup_inner_def create_parent_file_os
    by (auto simp: comp_defs io_def split: if_splits prod.splits sum.splits)
  note k = replay_state_keeps [OF assms(3) r]
  show "hm_get (fl_content w') (dc_version_path dc) = Some (os_version file_os)"
    and "hm_get (fl_content w') (dc_lock_path dc) = Some (show_nat (os_pid file_os) @ nl)"
    and "hm_contains (fl_content w') (dc_socket_path dc)"
    using k paths by (auto simp: w' w1 hm_contains_def)
qed

text \<open>C29: once a daemon has started, the client finds it: it reads the process id the daemon wrote and,
  if it has the daemon's version, connects to its socket without starting another. A client of
  another version panics in the asynchronous main function before it does anything, so that it
  neither stops the daemon, as it means to, nor talks to it.\<close>

theorem started_daemon_found:
  assumes "for_project file_os root w = Inr dc" and "startup file_os base run dc w = (Inr (cfg, d), w')"
    and "\<And>w. fl_content (snd (h_now base w)) = fl_content w" and "co_os c = file_os"
  shows "read_daemon_pid file_os root w' = Inr (Some (os_pid file_os)) \<and>
    (co_version c = os_version file_os \<longrightarrow>
      connect_or_start c in_async root w' = Some (Returned (Inr (dc_socket_path dc)), w')) \<and>
    (co_version c \<noteq> os_version file_os \<longrightarrow> connect_or_start c True root w' = Some (Panicked, w'))"
proof -
  note files = started_files [OF assms(1-3)]
  have d: "for_project file_os root w' = Inr dc" using assms(1) file_os_paths [of root w w'] by simp
  have socket: "connect file_os root w' = Inr (dc_socket_path dc)"
    using client_daemon_paths(2) [OF d] files(3) by (simp add: connect_def)
  from client_daemon_paths(4) [OF d] obtain dir where dir: "get_daemon_dir file_os root w' = Inr dir"
    "dc_lock_path dc = path_join dir ''daemon.pid''" "dc_version_path dc = path_join dir ''daemon.version''"
    by blast
  have "show_nat 42 = ''42''" and "trim (''42'' @ nl) = ''42''" and "trim ''0.1'' = ''0.1''"
    by (code_simp)+
  then have "parse_uint 32 (trim (show_nat (os_pid file_os) @ nl)) = Some (os_pid file_os)"
    and trim: "trim (os_version file_os) = os_version file_os"
    by (simp_all add: file_os_def parse_uint_def is_digit_def)
  then have "read_daemon_pid file_os root w' = Inr (Some (os_pid file_os))"
    using dir files(2) by (simp add: read_daemon_pid_def hm_contains_def)
  moreover have "version_mismatch c root w' \<longleftrightarrow> co_version c \<noteq> os_version file_os"
    using dir files(1) assms(4) trim by (auto simp: version_mismatch_def)
  ultimately show ?thesis using socket assms(4) by (simp add: connect_or_start_def connect_or_launch_def)
qed

theorem started_daemon_found_witness:
  "\<exists>dc cfg d w'. for_project file_os ''/p'' no_files = Inr dc \<and>
     startup file_os file_host no_commands dc no_files = (Inr (cfg, d), w') \<and>
     connect_or_start file_cli True ''/p'' w' = Some (Returned (Inr (dc_socket_path dc)), w') \<and>
     connect_or_start (file_cli\<lparr>co_version := ''0.2''\<rparr>) True ''/p'' w' = Some (Panicked, w')"
proof -
  obtain dc where dc: "for_project file_os ''/p'' no_files = Inr dc" using file_os_config by blast
  have none: "hm_get [] k = None" for k :: path by (simp add: hm_get_def)
  have new: "dc_wal_path dc \<noteq> dc_lock_path dc" "dc_wal_path dc \<noteq> dc_version_path dc"
    "dc_socket_path dc \<noteq> dc_lock_path dc" "dc_socket_path dc \<noteq> dc_version_path dc"
    "dc_socket_path dc \<noteq> dc_wal_path dc"
    using dc file_os_config [of "''/p''" no_files] by auto
  have now: "h_now file_host w = (fl_time w, w\<lparr>fl_time := fl_time w + 1\<rparr>)" for w
    by (simp add: file_host_def)
  have rb: "load_runbook file_os p w = Inr runbook_default" for p w
    by (simp add: load_runbook_def Let_def) (simp add: file_os_def)
  have lock: "os_try_lock file_os p w = (Inr (), w\<lparr>fl_locked := p # fl_locked w\<rparr>)" if "fl_locked w = []" for p w
    using that by (simp add: file_os_def)
  have wal: "replay_state file_os now p w =
      (Inr (\<lparr>wal_file = [], wal_sequence = 0\<rparr>, state_default), put_file p [] w)"
    if "hm_get (fl_content w) p = None" for now p w
  proof -
    have "os_open_log file_os p w = (Inr [], put_file p [] w)" using that by (simp add: file_os_def)
    then show ?thesis by (simp add: replay_state_def wal_open_def wal_replay_def)
  qed
  obtain cfg d w' where s: "startup file_os file_host no_commands dc no_files = (Inr (cfg, d), w')"
    unfolding startup_def startup_inner_def create_parent_file_os
    by (simp add: comp_defs io_def rb lock wal new no_files_def put_file_def none hm_contains_def now
        split: prod.splits)
  have h: "fl_content (snd (h_now file_host w)) = fl_content w" for w by (simp add: now)
  note found = started_daemon_found [OF dc s h]
  have "co_os file_cli = file_os" "co_version file_cli = os_version file_os"
    "co_os (file_cli\<lparr>co_version := ''0.2''\<rparr>) = file_os"
    "co_version (file_cli\<lparr>co_version := ''0.2''\<rparr>) \<noteq> os_version file_os"
    by (simp_all add: file_cli_def file_os_def)
  with found [of file_cli True] found [of "file_cli\<lparr>co_version := ''0.2''\<rparr>" True] dc s show ?thesis
    by blast
qed

lemma file_os_append:
  "os_append file_os p t u =
     (Inr (), put_file p ((case hm_get (fl_content u) p of Some x \<Rightarrow> x | None \<Rightarrow> []) @ t) u)"
  by (simp add: file_os_def)

section \<open>The waiting loops\<close>

text \<open>The clock never runs backwards, sleeping takes the time asked for, and the environment of the
  process is fixed.\<close>

definition clock_advances :: "'w cli_os \<Rightarrow> ('w \<Rightarrow> instant) \<Rightarrow> bool" where
  "clock_advances c time \<longleftrightarrow>
     (\<forall>w. time w \<le> fst (co_now c w) \<and> fst (co_now c w) \<le> time (snd (co_now c w))) \<and>
     (\<forall>d w. time w + d \<le> time (co_sleep c d w)) \<and>
     (\<forall>p args w. time w \<le> time (snd (co_status c p args w))) \<and>
     (\<forall>i w. time w \<le> time (snd (co_try_wait c i w)))"

definition fixed_environment :: "'w cli_os \<Rightarrow> bool" where
  "fixed_environment c \<longleftrightarrow> (\<forall>v w w'. os_env (co_os c) v w = os_env (co_os c) v w')"

lemma fixed_times:
  assumes "fixed_environment c"
  shows "timeout_exit c w = timeout_exit c w'" and "poll_interval c w = poll_interval c w'"
proof -
  have "parse_duration_ms c v w = parse_duration_ms c v w'" for v
    using assms unfolding fixed_environment_def parse_duration_ms_def by metis
  then show "timeout_exit c w = timeout_exit c w'" and "poll_interval c w = poll_interval c w'"
    by (simp_all add: timeout_exit_def poll_interval_def)
qed

text \<open>After a turn that slept there is less time left until the deadline.\<close>

lemma time_left:
  assumes "clock_advances c time" and "co_now c w = (now, w1)" and "time w1 \<le> time w2"
    and "now - start < timeout" and "0 < d"
  shows "start + timeout - time (co_sleep c d w2) < start + timeout - time w"
proof -
  have "time w \<le> now" "now \<le> time w1" and "time w2 + d \<le> time (co_sleep c d w2)"
    using assms(1,2) unfolding clock_advances_def by (metis fst_conv snd_conv)+
  with assms(3,4,5) show ?thesis by linarith
qed

lemma signal_time:
  assumes "clock_advances c time"
  shows "time w \<le> time (snd (signal_process c sig pid w))"
proof -
  obtain r w1 where r: "co_status c ''kill'' [sig, show_nat pid] w = (r, w1)" by fastforce
  with assms have "time w \<le> time w1" unfolding clock_advances_def by (metis snd_conv)
  with r show ?thesis by (cases r) (auto simp: signal_process_def)
qed

lemma wait_loop_returns:
  assumes "clock_advances c time" and "\<And>w. 0 < poll_interval c w"
  shows "\<exists>y. wait_loop c pid timeout start w = Some y"
proof (induction "start + timeout - time w" arbitrary: w rule: less_induct)
  case less
  obtain now w1 where now: "co_now c w = (now, w1)" by fastforce
  obtain alive w2 where p: "process_exists c pid w1 = (alive, w2)" by fastforce
  have "time w1 \<le> time w2"
    using signal_time [OF assms(1), of w1 "''-0''" pid] p by (simp add: process_exists_def)
  from less [OF time_left [OF assms(1) now this _ assms(2)]] now p show ?case
    by (subst wait_loop.simps) auto
qed

lemma poll_startup_error_returns:
  assumes "clock_advances c time" and "\<And>w. 0 < poll_interval c w"
    and "\<And>w w'. timeout_exit c w = timeout_exit c w'"
  shows "\<exists>y. poll_startup_error c root exit start w = Some y"
proof (induction "start + timeout_exit c w - time w" arbitrary: w rule: less_induct)
  case less
  obtain now w1 where now: "co_now c w = (now, w1)" by fastforce
  let ?w = "co_sleep c (poll_interval c w1) w1"
  have "\<exists>y. poll_startup_error c root exit start ?w = Some y" if "now - start < timeout_exit c w1"
    by (rule less) (use time_left [OF assms(1) now order_refl that assms(2)] assms(3) in metis)
  then show ?case using now by (subst poll_startup_error.simps) (auto split: option.split)
qed

lemma retry_loop_returns:
  assumes "clock_advances c time" and "\<And>w. 0 < poll_interval c w"
    and "\<And>w w'. timeout_exit c w = timeout_exit c w'"
  shows "\<exists>y. retry_loop c root timeout child start w = Some y"
proof (induction "start + timeout - time w" arbitrary: w rule: less_induct)
  case less
  obtain now w1 where now: "co_now c w = (now, w1)" by fastforce
  obtain res w2 where r: "co_try_wait c child w1 = (res, w2)" by fastforce
  have "time w1 \<le> time w2" using assms(1) r unfolding clock_advances_def by (metis snd_conv)
  from less [OF time_left [OF assms(1) now this _ assms(2)]]
  have again: "\<exists>y. retry_loop c root timeout child start (co_sleep c (poll_interval c w2) w2) = Some y"
    if "now - start < timeout" using that .
  obtain t w3 where "co_now c w2 = (t, w3)" by fastforce
  with now r again poll_startup_error_returns [OF assms, of root _ t w3] show ?case
    by (subst retry_loop.simps) (auto split: sum.split option.split)
qed

lemma stop_process_returns:
  assumes "clock_advances c time" and "\<And>w. 0 < poll_interval c w"
  shows "\<exists>w'. stop_process c pid graceful w = Some w'"
proof -
  have wait: "\<exists>y. wait_for_exit c pid d u = Some y" for d u
    using wait_loop_returns [OF assms] by (auto simp: wait_for_exit_def split: prod.split)
  obtain w1 where 1: "(if graceful then map_option snd (wait_for_exit c pid (timeout_exit c w) w)
      else Some w) = Some w1"
    using wait [of "timeout_exit c w" w] by (cases graceful) auto
  obtain alive w2 where 2: "process_exists c pid w1 = (alive, w2)" by fastforce
  obtain y where "wait_for_exit c pid (timeout_exit c (snd (force_kill_daemon c pid w2)))
      (snd (force_kill_daemon c pid w2)) = Some y" using wait by blast
  with 1 2 show ?thesis by (auto simp: stop_process_def Let_def)
qed

lemma daemon_stop_returns:
  assumes "clock_advances c time" and "\<And>w. 0 < poll_interval c w"
  shows "\<exists>y. daemon_stop c root w = Some y"
proof (cases "connect (co_os c) root w")
  case (Inl e)
  then show ?thesis by (cases e) (auto simp: daemon_stop_def Let_def)
next
  case (Inr sock)
  obtain res w1 where r: "client_shutdown c sock w = (res, w1)" by fastforce
  show ?thesis
  proof (cases "read_daemon_pid (co_os c) root w1")
    case (Inl e)
    then show ?thesis using Inr r by (simp add: daemon_stop_def)
  next
    case (Inr pid)
    have "\<exists>w2. (case pid of None \<Rightarrow> Some w1 | Some n \<Rightarrow> stop_process c n (\<not> isl res) w1) = Some w2"
      using stop_process_returns [OF assms] by (cases pid) auto
    then show ?thesis
      using Inr r \<open>connect (co_os c) root w = Inr sock\<close>
      by (auto simp: daemon_stop_def Let_def split: sum.split)
  qed
qed

lemma connect_or_launch_returns:
  assumes "clock_advances c time" and "\<And>w. 0 < poll_interval c w"
    and "\<And>w w'. timeout_exit c w = timeout_exit c w'"
  shows "\<exists>y. connect_or_launch c root w = Some y"
proof (cases "connect (co_os c) root w")
  case (Inl e)
  obtain res w1 where r: "start_daemon_background c root w = (res, w1)" by fastforce
  have "\<exists>y. connect_with_retry c root t child u = Some y" for t child u
    using retry_loop_returns [OF assms] by (auto simp: connect_with_retry_def split: prod.split)
  then show ?thesis using Inl r by (cases e; cases res) (auto simp: connect_or_launch_def)
qed (simp add: connect_or_launch_def)

lemma connect_or_start_returns:
  assumes "clock_advances c time" and "\<And>w. 0 < poll_interval c w"
    and "\<And>w w'. timeout_exit c w = timeout_exit c w'"
  shows "\<exists>y. connect_or_start c in_async root w = Some y"
proof -
  have l: "\<exists>r u. connect_or_launch c root w = Some (r, u)" for w
    using connect_or_launch_returns [OF assms] by (metis surj_pair)
  obtain r u where s: "daemon_stop c root w = Some (r, u)"
    using daemon_stop_returns [OF assms(1,2)] by (metis surj_pair)
  show ?thesis using l [of w] l [of u] s by (auto simp: connect_or_start_def)
qed

lemma find_oj_returns:
  assumes "\<And>p q. os_parent (co_os c) p = Some q \<Longrightarrow> length q < length p"
  shows "\<exists>y. find_oj c p w = Some y"
proof (induction p rule: length_induct)
  case (1 p)
  then show ?case using assms by (subst find_oj.simps) (auto split: option.split)
qed

text \<open>The commands that wait for a child: a daemon in the foreground, \<open>tail\<close> and \<open>tmux attach\<close>.\<close>

fun waits_for_child :: "cli_command \<Rightarrow> bool" where
  "waits_for_child (DaemonCmd (DaemonStart foreground)) \<longleftrightarrow> foreground"
| "waits_for_child (DaemonCmd (DaemonLogs _ _)) \<longleftrightarrow> True"
| "waits_for_child (SessionCmd (SessionAttach _)) \<longleftrightarrow> True"
| "waits_for_child _ \<longleftrightarrow> False"

definition children_end :: "'w cli_os \<Rightarrow> bool" where
  "children_end c \<longleftrightarrow> (\<forall>p args w. co_wait c p args w \<noteq> None)"

lemma wait_child_returns:
  assumes "children_end c" shows "\<exists>y. wait_child c p args k w = Some y"
proof -
  from assms have "co_wait c p args w \<noteq> None" unfolding children_end_def by blast
  then obtain res w1 where "co_wait c p args w = Some (res, w1)" by fastforce
  then show ?thesis by (cases res) (auto simp: wait_child_def returned_def split: prod.split)
qed

lemma returned_returns [simp]: "\<exists>r w1. returned m w = Some (r, w1)"
  by (simp add: returned_def split: prod.split)

lemma do_daemon_returns:
  assumes "clock_advances c time" and "\<And>w. 0 < poll_interval c w"
    and "\<And>w w'. timeout_exit c w = timeout_exit c w'"
    and "waits_for_child (DaemonCmd d) \<Longrightarrow> children_end c"
  shows "\<exists>y. do_daemon c in_async root d w = Some y"
proof -
  have b: "\<exists>y. background_start c in_async root u = Some y" for u
    using connect_or_start_returns [OF assms(1-3), of in_async root u]
    by (auto simp: background_start_def split: prod.split outcome.split sum.split)
  show ?thesis
  proof (cases d)
    case (DaemonStart f)
    show ?thesis
    proof (cases f)
      case True
      then show ?thesis using assms(4) wait_child_returns by (simp add: DaemonStart)
    next
      case False
      then show ?thesis using b DaemonStart by (auto split: sum.split prod.split)
    qed
  next
    case DaemonStop
    then show ?thesis using daemon_stop_returns [OF assms(1,2), of root w] by (auto split: sum.split)
  next
    case (DaemonLogs n follow)
    then show ?thesis using assms(4) wait_child_returns by (auto split: sum.split)
  qed (auto split: sum.split)
qed

lemma client_command_returns:
  assumes "waits_for_child cmd \<Longrightarrow> children_end c"
  shows "\<exists>y. client_command c from_json sock rb cmd w = Some y"
proof (cases cmd)
  case (SessionCmd s)
  with assms wait_child_returns show ?thesis
    by (cases s) (simp_all add: client_command_def attach_def Let_def)
qed (simp_all add: client_command_def)

text \<open>C37: \<open>oj\<close> does not wait for ever. If the clock never runs backwards, sleeping takes the time asked
  for, the polling interval is not zero and the parent of a path is shorter than the path, then every
  command returns, whatever the daemon does: neither the search for the project nor the waiting for a
  daemon to start or to stop goes on for ever. The commands that run a child in the foreground, \<open>daemon
  start --foreground\<close>, \<open>daemon logs\<close> and \<open>session attach\<close>, return if their child ends. The calls of the
  operating system return.\<close>

theorem cli_main_returns:
  assumes "clock_advances c time" and "fixed_environment c" and "\<And>w. 0 < poll_interval c w"
    and "\<And>p q. os_parent (co_os c) p = Some q \<Longrightarrow> length q < length p"
    and "waits_for_child cmd \<Longrightarrow> \<forall>p args w. co_wait c p args w \<noteq> None"
  shows "\<exists>y. cli_main c from_json in_async repo cmd w = Some y"
proof -
  note loops = assms(1,3) fixed_times(1) [OF assms(2)]
  have child: "children_end c" if "waits_for_child cmd" using assms(5) [OF that] by (simp add: children_end_def)
  have "\<exists>r. find_project_root c w = Some r"
  proof (cases "co_current_dir c w")
    case (Inr cwd)
    have "\<exists>y. find_oj c cwd w = Some y" by (rule find_oj_returns) (rule assms(4))
    then obtain found where "find_oj c cwd w = Some found" by blast
    with Inr show ?thesis by (cases found) (simp_all add: find_project_root_def split: option.split)
  qed (simp add: find_project_root_def split: option.split)
  then obtain r where r: "(case repo of Some r \<Rightarrow> Some (Inr r) | None \<Rightarrow> find_project_root c w) = Some r"
    by (cases repo) auto
  show ?thesis
  proof (cases r)
    case (Inr root)
    obtain o1 w1 where "connect_or_start c in_async root w = Some (o1, w1)"
      using connect_or_start_returns [OF loops] by (metis surj_pair)
    then show ?thesis
      using r Inr do_daemon_returns [OF loops, of _ in_async root w] child
        client_command_returns [of cmd c from_json] 
      by (cases cmd; cases o1) (auto simp: cli_main_def split: sum.split)
  qed (use r in \<open>simp add: cli_main_def\<close>)
qed

lemma dirname_shorter: "dirname p = Some q \<Longrightarrow> length q < length p"
proof -
  assume d: "dirname p = Some q"
  let ?r = "dropWhile (\<lambda>x. x \<noteq> CHR ''/'') (rev p)"
  from d have "CHR ''/'' \<in> set p" and q: "q = rev (tl ?r)" by (auto simp: dirname_def split: if_splits)
  then have "?r \<noteq> []" by (auto simp: dropWhile_eq_Nil_conv)
  then have "length q < length ?r" by (cases ?r) (auto simp: q)
  also have "\<dots> \<le> length p" using length_dropWhile_le [of _ "rev p"] by simp
  finally show "length q < length p" .
qed

text \<open>Stopping the daemon, also when an attached session never ends.\<close>

theorem cli_main_returns_witness:
  "\<exists>y. cli_main (file_cli\<lparr>co_wait := \<lambda>_ _ _. None\<rparr>) (\<lambda>_. Inl ''no JSON'') True None
     (DaemonCmd DaemonStop) no_files = Some y"
proof (rule cli_main_returns [where time = fl_time])
  let ?c = "file_cli\<lparr>co_wait := \<lambda>_ _ _. None\<rparr>"
  show "clock_advances ?c fl_time" by (simp add: clock_advances_def file_cli_def ok_def)
  show "fixed_environment ?c" by (simp add: fixed_environment_def file_cli_def file_os_def)
  show "0 < poll_interval ?c w" for w
    by (simp add: poll_interval_def parse_duration_ms_def file_cli_def file_os_def from_millis_def)
  show "length q < length p" if "os_parent (co_os ?c) p = Some q" for p q
    using that dirname_shorter by (simp add: file_cli_def file_os_def)
qed simp

section \<open>Running a command\<close>

text \<open>Client and daemon read the same runbook from a project: if one of them can read it the other can,
  and then it is the same, provided that an empty text is an empty table for the TOML library.\<close>

lemma same_runbook:
  assumes "tl_parse (os_toml os) [] = Inr (TomlTable [])"
  shows "cli_load_runbook os root w = Inr rb \<longleftrightarrow> load_runbook os root w = Inr rb"
proof -
  have "parse_runbook (os_toml os) [] = Inr runbook_default"
    using assms by (simp add: parse_runbook_def toml_table_def section_entries_def field_def runbook_default_def)
  then show ?thesis
    by (auto simp: cli_load_runbook_def load_runbook_def Let_def split: sum.split)
qed

text \<open>A project whose runbook directory holds an empty runbook and a note.\<close>

definition empty_runbook_os :: "files os" where
  "empty_runbook_os =
     file_os\<lparr>os_toml := demo_toml_lib (TomlTable []),
       os_read_dir := (\<lambda>_ _. Inr [''main.toml'', ''notes.md'']), os_read_file := (\<lambda>_ _. Inr [])\<rparr>"

lemma same_runbook_witness:
  "cli_load_runbook empty_runbook_os ''/p'' no_files = Inr runbook_default \<longleftrightarrow>
   load_runbook empty_runbook_os ''/p'' no_files = Inr runbook_default"
  by (rule same_runbook) (simp add: empty_runbook_os_def demo_toml_lib_def)

end
