(* ===== verification/Failed_Start.thy ===== *)
theory Failed_Start
  imports Client_Properties
begin

text \<open>
  How the reason why a daemon cannot start reaches the user: the daemon writes it to its log, and the
  client that started the daemon looks for it there. The file system is any on which the log file is
  changed by nothing but what is appended to it.
\<close>

section \<open>The reason of a failed start\<close>

lemma contains_Cons_sep:
  assumes "c \<notin> set p" and "p \<noteq> []"
  shows "contains (a @ c # b) p \<longleftrightarrow> contains a p \<or> contains b p"
proof (induction a)
  case Nil
  show ?case using assms by (cases p) auto
next
  case (Cons d a)
  have "starts_with ((d # a) @ c # b) p \<longleftrightarrow> starts_with (d # a) p"
    using assms by (auto simp: starts_with_prefix prefix_def append_eq_append_conv2 Cons_eq_append_conv)
  with Cons show ?case by auto
qed

lemma contains_drop_prefix:
  assumes "hd p \<notin> set a" and "p \<noteq> []"
  shows "contains (a @ b) p \<longleftrightarrow> contains b p"
  using assms by (induction a) (auto simp: neq_Nil_conv)

lemma rfind_None: "p \<noteq> [] \<Longrightarrow> rfind_from s p = None \<longleftrightarrow> \<not> contains s p"
  by (induction s) (auto split: option.splits)

lemma rfind_skip: "rfind_from s p = Some t \<Longrightarrow> rfind_from (a @ s) p = Some t"
  by (induction a) auto

lemma show_nat_minus: "CHR ''-'' \<notin> set (show_nat n)"
  using show_nat_chars [of n] by auto

lemma startup_marker_prefix_Cons: "startup_marker_prefix \<noteq> []" "hd startup_marker_prefix = CHR ''-''"
  "CHR 0x0A \<notin> set startup_marker_prefix"
  by (simp_all add: startup_marker_prefix_def)

lemma rfind_marker:
  assumes "\<not> contains t startup_marker_prefix"
  shows "rfind_from (startup_marker_prefix @ t) startup_marker_prefix = Some (startup_marker_prefix @ t)"
  using rfind_None [of startup_marker_prefix t] assms
  by (simp add: startup_marker_prefix_def)

lemma split_error_line:
  "split_once (''ERROR Failed to start daemon: '' @ msg) '': '' =
     Some (''ERROR Failed to start daemon'', msg)"
  by simp

lemma contains_set: "contains a p \<Longrightarrow> set p \<subseteq> set a"
proof (induction a)
  case (Cons c a)
  then show ?case using set_mono_prefix [of p "c # a"] by (auto simp: starts_with_prefix)
qed simp

lemma not_contains_letter: "c \<in> set p \<Longrightarrow> c \<notin> set a \<Longrightarrow> \<not> contains a p"
  using contains_set by blast

lemma not_contains_dash:
  assumes "CHR ''-'' \<notin> set a" and "\<not> contains b startup_marker_prefix"
  shows "\<not> contains (a @ b) startup_marker_prefix"
  using contains_drop_prefix [of startup_marker_prefix a b] assms startup_marker_prefix_Cons by simp

lemma marker_line_quiet:
  "\<not> contains (startup_marker_prefix @ show_nat pid @ '')'') '' ERROR ''"
  "\<not> contains (startup_marker_prefix @ show_nat pid @ '')'') ''Failed to start''"
proof -
  have c: "c \<notin> set (startup_marker_prefix @ show_nat pid @ '')'')" if "c \<in> {CHR ''E'', CHR ''F''}" for c
    using that show_nat_chars [of pid] by (auto simp: startup_marker_prefix_def)
  show "\<not> contains (startup_marker_prefix @ show_nat pid @ '')'') '' ERROR ''"
    by (rule not_contains_letter [OF _ c [of "CHR ''E''"]]) simp_all
  show "\<not> contains (startup_marker_prefix @ show_nat pid @ '')'') ''Failed to start''"
    by (rule not_contains_letter [OF _ c [of "CHR ''F''"]]) simp_all
qed

lemma contains_start: "starts_with a p \<Longrightarrow> contains a p"
  by (cases a; cases p) auto

lemma contains_middle: "contains (a @ p @ b) p"
  by (induction a) (auto intro: contains_start)

text \<open>A line of the log that the client reads as it was written, and one that it takes for an error.\<close>

definition plain_line :: "string \<Rightarrow> bool" where
  "plain_line l \<longleftrightarrow> CHR 0x0A \<notin> set l \<and> (l = [] \<or> last l \<noteq> CHR 0x0D) \<and> \<not> contains l startup_marker_prefix"

definition error_line :: "string \<Rightarrow> bool" where
  "error_line l \<longleftrightarrow> contains l '' ERROR '' \<or> contains l ''Failed to start''"

abbreviation as_lines :: "string list \<Rightarrow> string" where
  "as_lines ls \<equiv> concat (map (\<lambda>l. l @ nl) ls)"

lemma lines_as_lines: "\<forall>l \<in> set ls. plain_line l \<Longrightarrow> lines (as_lines ls) = ls"
proof (induction ls)
  case (Cons l ls)
  then have "lines (l @ nl) = [l]" by (auto simp: plain_line_def lines_line strip_cr_def)
  with Cons show ?case using lines_append [OF ends_line_nl, of l "as_lines ls"] by simp
qed simp

lemma no_marker_lines:
  "\<forall>l \<in> set ls. plain_line l \<Longrightarrow> \<not> contains (as_lines ls) startup_marker_prefix"
proof (induction ls)
  case (Cons l ls)
  have "as_lines (l # ls) = l @ CHR 0x0A # as_lines ls" by (simp add: nl_def)
  with Cons contains_Cons_sep [OF startup_marker_prefix_Cons(3,1), of l "as_lines ls"] show ?case
    by (simp only:) (simp add: plain_line_def)
qed (simp add: startup_marker_prefix_def)

lemma marker_rest:
  assumes "\<forall>l \<in> set ls. plain_line l"
  shows "\<not> contains ((show_nat pid @ '')'') @ nl @ as_lines ls) startup_marker_prefix"
proof -
  have "CHR ''-'' \<notin> set (show_nat pid @ '')'')" "CHR ''-'' \<in> set startup_marker_prefix"
    using show_nat_minus [of pid] by (auto simp: startup_marker_prefix_def)
  then have "\<not> contains (show_nat pid @ '')'') startup_marker_prefix" by (meson not_contains_letter)
  with no_marker_lines [OF assms]
    contains_Cons_sep [OF startup_marker_prefix_Cons(3,1), of "show_nat pid @ '')''" "as_lines ls"]
  show ?thesis unfolding nl_def by (simp only: append.simps de_Morgan_disj) simp
qed

text \<open>The client reads the lines from the last marker of a start on.\<close>

lemma startup_error_in_lines:
  assumes "\<forall>l \<in> set ls. plain_line l"
  shows "startup_error_in (old @ startup_marker_line pid @ as_lines ls) =
    (let errors = filter error_line ls; messages = List.map_filter (\<lambda>l. map_option snd (split_once l '': '')) errors
     in if errors = [] then None
        else if messages = [] then Some (join_with nl errors) else Some (join_with nl messages))"
proof -
  let ?p = startup_marker_prefix and ?m = "startup_marker_prefix @ show_nat pid @ '')''"
  let ?log = "startup_marker_line pid @ as_lines ls"
  have "?log = ?p @ (show_nat pid @ '')'') @ nl @ as_lines ls" by (simp add: startup_marker_line_def)
  with rfind_marker [OF marker_rest [OF assms], of pid] have "rfind_from ?log ?p = Some ?log"
    by (simp only:)
  then have r: "rfind_from (old @ ?log) client_marker_prefix = Some ?log"
    using rfind_skip by (simp add: client_marker_prefix_def startup_marker_prefix_def)
  have "lines (?m @ nl) = [?m]"
  proof -
    have "CHR 0x0A \<notin> set ?m" using show_nat_chars [of pid] startup_marker_prefix_Cons by auto
    from lines_line [OF this] show ?thesis by (simp add: strip_cr_def)
  qed
  then have "lines ?log = ?m # ls"
    using lines_append [OF ends_line_nl, of ?m "as_lines ls"] lines_as_lines [OF assms]
    by (simp add: startup_marker_line_def)
  moreover have "\<not> error_line ?m" using marker_line_quiet [of pid] by (simp add: error_line_def)
  ultimately have "filter (\<lambda>l. contains l '' ERROR '' \<or> contains l ''Failed to start'') (lines ?log) =
      filter error_line ls"
    by (simp add: error_line_def [abs_def])
  then show ?thesis by (simp only: startup_error_in_def r option.simps)
qed

lemma split_once_after: "\<exists>b y. split_once (a @ '': '' @ t) '': '' = Some (b, y @ t)"
proof (induction a)
  case (Cons c a)
  show ?case
  proof (cases "starts_with (c # a @ '': '' @ t) '': ''")
    case True
    then obtain d a' where "a = d # a'" by (cases a) auto
    then show ?thesis using True by auto
  next
    case False
    with Cons show ?thesis by (auto simp: Cons.IH)
  qed
qed auto

section \<open>The log file\<close>

text \<open>The text of a file, and a file system on which one file is changed only by appending to it, in a
  directory that can be made.\<close>

definition text_of :: "'w os \<Rightarrow> path \<Rightarrow> 'w \<Rightarrow> string" where
  "text_of os q u = (case os_read_file os q u of Inl _ \<Rightarrow> [] | Inr t \<Rightarrow> t)"

locale log_file =
  fixes os :: "'w os" and base :: "'w host" and q :: path
  assumes appended: "\<exists>u1. os_append os q t u = (Inr (), u1) \<and> os_read_file os q u1 = Inr (text_of os q u @ t)"
    and directory: "\<exists>dir. os_parent os q = Some dir \<and> (\<forall>u. fst (os_create_dir_all os dir u) = Inr ())"
    and named: "file_name q \<noteq> None"
    and others: "p \<noteq> q \<Longrightarrow> os_read_file os q (snd (os_create_file os p u)) = os_read_file os q u"
      "p \<noteq> q \<Longrightarrow> os_read_file os q (snd (os_write_line os p t u)) = os_read_file os q u"
      "p \<noteq> q \<Longrightarrow> os_read_file os q (snd (os_write_file os p t u)) = os_read_file os q u"
      "p \<noteq> q \<Longrightarrow> os_read_file os q (snd (os_remove_file os p u)) = os_read_file os q u"
      "p \<noteq> q \<Longrightarrow> os_read_file os q (snd (os_bind os p u)) = os_read_file os q u"
      "p \<noteq> q \<Longrightarrow> os_read_file os q (snd (os_open_log os p u)) = os_read_file os q u"
    and aside: "os_read_file os q (snd (os_create_dir_all os p u)) = os_read_file os q u"
      "os_read_file os q (snd (os_try_lock os p u)) = os_read_file os q u"
      "os_read_file os q (snd (h_now base u)) = os_read_file os q u"
begin

abbreviation reads :: "io_error + string \<Rightarrow> 'w \<Rightarrow> bool" where
  "reads v u \<equiv> os_read_file os q u = v"

lemma parent_kept: "preserves (reads v) (create_parent os p)"
  using aside(1) by (auto simp: create_parent_def io_def preserves_def map_err_def ok_def
      split: option.split prod.split sum.split) (metis snd_conv)+

lemma replayed_kept: "reads v u \<Longrightarrow> reads v (snd (apply_replayed (h_now base) ops st u))"
proof (induction ops arbitrary: st u)
  case (Cons op ops)
  obtain t u1 where n: "h_now base u = (t, u1)" by fastforce
  with aside(3) [of u] Cons.prems have "reads v u1" by simp
  with Cons.IH n show ?case by simp
qed simp

lemma replay_kept: "p \<noteq> q \<Longrightarrow> preserves (reads v) (replay_state os (h_now base) p)"
proof (rule preservesI)
  fix u
  assume "p \<noteq> q" and u: "reads v u"
  obtain r u1 where o: "os_open_log os p u = (r, u1)" by fastforce
  with others(6) [OF \<open>p \<noteq> q\<close>, of u] u have 1: "reads v u1" by simp
  from replayed_kept [OF 1] show "reads v (snd (replay_state os (h_now base) p u))"
    using o 1 by (auto simp: replay_state_def split: sum.split prod.split) (metis snd_conv)+
qed

lemma startup_inner_kept:
  assumes "q \<notin> {dc_socket_path dc, dc_version_path dc, dc_lock_path dc, dc_wal_path dc}"
  shows "preserves (reads v) (startup_inner os base run dc)"
proof -
  have "preserves (reads v) (os_create_file os p)" "preserves (reads v) (os_write_line os p t)"
    "preserves (reads v) (os_write_file os p t)" "preserves (reads v) (os_remove_file os p)"
    "preserves (reads v) (os_bind os p)" if "p \<noteq> q" for p t
    using that others by (simp_all add: preserves_def)
  moreover have "preserves (reads v) (os_create_dir_all os p)" "preserves (reads v) (os_try_lock os p)" for p
    using aside by (simp_all add: preserves_def)
  ultimately show ?thesis
    using assms replay_kept parent_kept
    unfolding startup_inner_def io_def
    by (auto intro!: pres_intros split: prod.split)
qed

lemma startup_kept:
  assumes "startup os base run dc u = (Inl e, u1)"
    and "q \<notin> {dc_socket_path dc, dc_version_path dc, dc_lock_path dc, dc_wal_path dc}"
  shows "text_of os q u1 = text_of os q u"
proof -
  from assms(1) obtain v where i: "startup_inner os base run dc u = (Inl e, v)"
    and u1: "u1 = cleanup_on_failure os dc v"
    by (auto simp: startup_def split: prod.splits sum.splits)
  from preservesD [OF startup_inner_kept [OF assms(2)] refl i]
  have "os_read_file os q v = os_read_file os q u" .
  moreover have "os_read_file os q (remove_if_exists os p x) = os_read_file os q x" if "q \<noteq> p" for p x
    using that others(4) by (simp add: remove_if_exists_def)
  ultimately show ?thesis using assms(2) by (simp add: u1 cleanup_on_failure_def text_of_def)
qed

lemma append_text:
  "os_append os q t u = (r, u1) \<Longrightarrow> r = Inr () \<and> text_of os q u1 = text_of os q u @ t"
  using appended [of t u] by (auto simp: text_of_def)

lemma trace_text:
  "dc_log_path dc = q \<Longrightarrow> text_of os q (trace os dc level msg u) =
     text_of os q u @ (case os_format os level msg u of None \<Rightarrow> [] | Some t \<Rightarrow> t)"
  using append_text by (auto simp: trace_def split: option.split) (metis prod.collapse)

lemma parent_made: "\<exists>u1. create_parent os q u = (Inr (), u1) \<and> text_of os q u1 = text_of os q u"
proof -
  obtain dir where d: "os_parent os q = Some dir" "fst (os_create_dir_all os dir u) = Inr ()"
    using directory by blast
  obtain r u1 where c: "os_create_dir_all os dir u = (r, u1)" by fastforce
  with d aside(1) [of dir u] show ?thesis
    by (simp add: create_parent_def io_def map_err_def text_of_def)
qed

text \<open>What a daemon leaves in its log that cannot start.\<close>

lemma failed_main_log:
  assumes "for_project os root w = Inr dc" and "dc_log_path dc = q"
    and "q \<notin> {dc_socket_path dc, dc_version_path dc, dc_lock_path dc, dc_wal_path dc}"
    and "daemon_main os base run root w = (Inl e, w1)"
  shows "\<exists>u v. text_of os q w1 = text_of os q w @ startup_marker_line (os_pid os) @
      (case os_format os ''INFO'' (''Starting ojd for project: '' @ root) u of None \<Rightarrow> [] | Some t \<Rightarrow> t) @
      startup_error_line e @
      (case os_format os ''ERROR'' (''Failed to start daemon: '' @ show_lifecycle_error e) v of
         None \<Rightarrow> [] | Some t \<Rightarrow> t)"
proof -
  obtain u0 where p: "create_parent os q w = (Inr (), u0)" "text_of os q u0 = text_of os q w"
    using parent_made by blast
  obtain u1 where m: "os_append os q (startup_marker_line (os_pid os)) u0 = (Inr (), u1)"
    using appended by blast
  obtain u where s: "create_parent os q u1 = (Inr (), u)" "text_of os q u = text_of os q u1"
    using parent_made by blast
  obtain n where n: "file_name q = Some n" using named by blast
  obtain dir where dir: "os_parent os q = Some dir" using directory by blast
  let ?i = "trace os dc ''INFO'' (''Starting ojd for project: '' @ root) u"
  obtain x v1 where st: "startup os base run dc ?i = (x, v1)" by fastforce
  have w1: "x = Inl e" "w1 = trace os dc ''ERROR'' (''Failed to start daemon: '' @ show_lifecycle_error e)
      (write_startup_error os dc e v1)"
    using assms(1,2,4) p(1) m s(1) n dir st
    by (auto simp: daemon_main_def comp_defs write_startup_marker_def setup_logging_def io_def
        split: sum.splits)
  have "text_of os q (write_startup_error os dc e v1) = text_of os q v1 @ startup_error_line e"
    using append_text assms(2) by (simp add: write_startup_error_def) (metis prod.collapse)
  moreover have "text_of os q v1 = text_of os q ?i" using startup_kept [OF st [unfolded w1(1)] assms(3)] .
  ultimately have "text_of os q w1 = text_of os q w @ startup_marker_line (os_pid os) @
      (case os_format os ''INFO'' (''Starting ojd for project: '' @ root) u of None \<Rightarrow> [] | Some t \<Rightarrow> t) @
      startup_error_line e @
      (case os_format os ''ERROR'' (''Failed to start daemon: '' @ show_lifecycle_error e)
         (write_startup_error os dc e v1) of None \<Rightarrow> [] | Some t \<Rightarrow> t)"
    using append_text [OF m] p(2) s(2) by (simp add: w1(2) trace_text [OF assms(2)])
  then show ?thesis by blast
qed

end

text \<open>The log of a project on the small file system is such a file.\<close>

interpretation small: log_file file_os file_host "''/home/u/.local/state/oj/projects/01ff/daemon.log''"
proof (unfold_locales, goal_cases)
  case (1 t u)
  then show ?case by (simp add: file_os_append text_of_def split: option.split)
next
  case 2
  show ?case by (simp add: ok_def) (simp add: file_os_def dirname_def)
next
  case 3
  show ?case by (simp add: file_name_def)
next
  case (11 p u)
  then show ?case using try_lock_keeps [of p u "fst (os_try_lock file_os p u)" "snd (os_try_lock file_os p u)"]
    by simp
next
  case (9 p u)
  then show ?case by (auto simp: file_os_def put_file_def split: option.split)
next
  case (12 u)
  then show ?case by (simp add: file_host_def)
qed (auto simp: put_file_def ok_def)

section \<open>Properties\<close>

text \<open>C30: the reason why a daemon cannot start reaches the user, in general twice. On a file system where
  the log is only appended to, if the start of the daemon that \<open>oj\<close> has launched fails, for whatever
  reason and wherever in it, and the program has ended, then \<open>oj\<close> fails with the daemon's message,
  whatever earlier starts left in the log. The daemon has written it to the log in a line of its own and
  again through the tracing library, and the client takes both lines for errors and joins them: the
  message is there twice, the second time after what is left of that line (\<open>more\<close>). Only if the
  library's filter leaves errors out it is there once. The message has to be one line without the marker
  of a start in it, a traced message ends its line, and the clock lets the client look before its
  time-outs.\<close>

theorem failed_start_reported:
  assumes "log_file os base (dc_log_path dc)" and "\<And>u. for_project os root u = Inr dc"
    and "dc_log_path dc \<notin> {dc_socket_path dc, dc_version_path dc, dc_lock_path dc, dc_wal_path dc}"
    and "co_os c = os" and "connect os root w = Inl DaemonNotRunning" and "\<not> version_mismatch c root w"
    and "daemon_main os base run root w = (Inl e, w1)" and "msg = show_lifecycle_error e"
    and "\<And>ojd. co_spawn c ojd root w = (Inr child, w1)"
    and "\<And>u. co_try_wait c child u = (Inr (Some exit), u)"
    and "\<And>u. os_read_file os (dc_log_path dc) (snd (co_now c u)) = os_read_file os (dc_log_path dc) u"
    and "\<And>u v. fst (co_now c (snd (co_now c u))) - fst (co_now c u) < timeout_connect c v"
    and "\<And>u v. fst (co_now c (snd (co_now c u))) - fst (co_now c u) < timeout_exit c v"
    and "plain_line msg"
    and "\<And>u t. os_format os ''INFO'' (''Starting ojd for project: '' @ root) u = Some t \<Longrightarrow>
      \<exists>l. t = l @ nl \<and> plain_line l \<and> \<not> error_line l"
    and "\<And>u. if filtered then os_format os ''ERROR'' (''Failed to start daemon: '' @ msg) u = None
      else \<exists>l. os_format os ''ERROR'' (''Failed to start daemon: '' @ msg) u =
          Some (l @ ''Failed to start daemon: '' @ msg @ nl) \<and>
        plain_line (l @ ''Failed to start daemon: '' @ msg)"
  shows "\<exists>more w2. connect_or_start c in_async root w =
    Some (Returned (Inl (DaemonStartFailed (if filtered then msg else msg @ nl @ more @ msg))), w2)"
proof -
  let ?q = "dc_log_path dc" and ?m = "''Failed to start daemon: '' @ msg"
  from log_file.failed_main_log [OF assms(1,2) refl assms(3,7)] assms(8) obtain u v where
    whole: "text_of os ?q w1 = text_of os ?q w @ startup_marker_line (os_pid os) @
      (case os_format os ''INFO'' (''Starting ojd for project: '' @ root) u of None \<Rightarrow> [] | Some t \<Rightarrow> t) @
      startup_error_line e @ (case os_format os ''ERROR'' ?m v of None \<Rightarrow> [] | Some t \<Rightarrow> t)" by auto
  obtain ks where ks: "(case os_format os ''INFO'' (''Starting ojd for project: '' @ root) u of
      None \<Rightarrow> [] | Some t \<Rightarrow> t) = as_lines ks" "\<forall>l \<in> set ks. plain_line l \<and> \<not> error_line l"
  proof (cases "os_format os ''INFO'' (''Starting ojd for project: '' @ root) u")
    case None
    with that [of "[]"] show ?thesis by simp
  next
    case (Some t)
    from assms(15) [OF Some] obtain l where "t = l @ nl" "plain_line l" "\<not> error_line l" by blast
    with that [of "[l]"] Some show ?thesis by simp
  qed
  have err: "error_line (l @ ?m)" for l
    using contains_middle [of l "''Failed to start''" "'' daemon: '' @ msg"] by (simp add: error_line_def)
  obtain ts more where ts: "(case os_format os ''ERROR'' ?m v of None \<Rightarrow> [] | Some t \<Rightarrow> t) = as_lines ts"
      "\<forall>l \<in> set ts. plain_line l \<and> error_line l"
      "List.map_filter (\<lambda>l. map_option snd (split_once l '': '')) ts = (if filtered then [] else [more @ msg])"
  proof (cases filtered)
    case True
    with assms(16) [of v] that [of "[]"] show ?thesis by (simp add: List.map_filter_def)
  next
    case False
    with assms(16) [of v] obtain l where l: "os_format os ''ERROR'' ?m v = Some (l @ ?m @ nl)"
      "plain_line (l @ ?m)" by auto
    obtain b more where "split_once (l @ ?m) '': '' = Some (b, more @ msg)"
      using split_once_after [of "l @ ''Failed to start daemon''" msg] by auto
    with l err [of l] False that [of "[l @ ?m]" more] show ?thesis by (simp add: List.map_filter_def)
  qed
  let ?line = "''ERROR Failed to start daemon: '' @ msg"
  have "\<not> contains (''ERROR Failed to start daemon: '' @ msg) startup_marker_prefix"
    by (rule not_contains_dash) (use assms(14) in \<open>simp_all add: plain_line_def\<close>)
  then have line: "plain_line ?line" "error_line ?line"
    using assms(14) err [of "''ERROR ''"] by (auto simp: plain_line_def simp del: contains.simps)
  have "text_of os ?q w1 = text_of os ?q w @ startup_marker_line (os_pid os) @ as_lines (ks @ ?line # ts)"
    unfolding whole ks(1) ts(1) startup_error_line_def assms(8) [symmetric] by simp
  moreover have "\<forall>l \<in> set (ks @ ?line # ts). plain_line l" using ks(2) ts(2) line(1) by auto
  moreover have "filter error_line (ks @ ?line # ts) = ?line # ts" using ks(2) ts(2) line(2) by simp
  ultimately have read: "startup_error_in (text_of os ?q w1) =
      Some (if filtered then msg else msg @ nl @ more @ msg)"
    using startup_error_in_lines [of "ks @ ?line # ts" "text_of os ?q w" "os_pid os"] ts(3)
      split_error_line [of msg]
    by (simp add: List.map_filter_simps del: split_once.simps)
  have "\<exists>t. os_read_file os ?q w1 = Inr t"
    using read by (cases "os_read_file os ?q w1") (simp_all add: text_of_def startup_error_in_def client_marker_prefix_def)
  then obtain t where t: "os_read_file os ?q w1 = Inr t" by blast
  have r: "read_startup_error os root u = Some (if filtered then msg else msg @ nl @ more @ msg)"
    if u: "os_read_file os ?q u = os_read_file os ?q w1" for u
  proof -
    obtain dir where "get_daemon_dir os root u = Inr dir" "?q = path_join dir ''daemon.log''"
      using client_daemon_paths(4) [OF assms(2), of u] by blast
    with u t read show ?thesis by (simp add: read_startup_error_def text_of_def)
  qed
  obtain start a where 1: "co_now c w1 = (start, a)" by fastforce
  obtain now b where 2: "co_now c a = (now, b)" by fastforce
  obtain poll d where 3: "co_now c b = (poll, d)" by fastforce
  obtain now2 f where 4: "co_now c d = (now2, f)" by fastforce
  have "os_read_file os ?q f = os_read_file os ?q w1"
    using assms(11) [of w1] assms(11) [of a] assms(11) [of b] assms(11) [of d] 1 2 3 4 by simp
  from r [OF this] have "\<exists>w2. connect_with_retry c root (timeout_connect c w1) child w1 =
      Some (Inl (DaemonStartFailed (if filtered then msg else msg @ nl @ more @ msg)), w2)"
    using assms(12) [of w1 w1] assms(13) [of b f] 1 2 3 4
    by (simp add: connect_with_retry_def retry_loop.simps poll_startup_error.simps assms(4,10))
  moreover have "start_daemon_background c root w = (Inr child, w1)"
    by (simp add: start_daemon_background_def comp_defs assms(9))
  ultimately show ?thesis
    using assms(4,5,6) by (auto simp: connect_or_start_def connect_or_launch_def)
qed

text \<open>A daemon that cannot start, as another one holds the lock although its socket is gone.\<close>

definition locked_project :: files where
  "locked_project = no_files\<lparr>fl_locked := [''/home/u/.local/state/oj/projects/01ff/daemon.pid'']\<rparr>"

definition locked_start :: "(lifecycle_error + files runtime_config \<times> files daemon) \<times> files" where
  "locked_start = daemon_main file_os file_host no_commands ''/p'' locked_project"

text \<open>Up to three turns of the clock between two looks of the client are no time.\<close>

definition locked_client :: "files cli_os" where
  "locked_client = file_cli\<lparr>co_spawn := (\<lambda>_ _ _. (Inr 7, snd locked_start)),
     co_try_wait := (\<lambda>_. ok (Some ''exit status: 1''))\<rparr>"

lemma locked_start_fails: "fst locked_start = Inl (LockFailed (IoError OtherKind ''locked''))"
proof -
  obtain dc where dc: "for_project file_os ''/p'' locked_project = Inr dc"
    and lock: "dc_lock_path dc \<in> set (fl_locked locked_project)"
    using file_os_config [of "''/p''" locked_project] by (simp add: locked_project_def)
  have kept: "fl_locked (trace file_os dc level msg u) = fl_locked u" for level msg u
    by (simp add: trace_def file_os_append put_file_def split: option.split)
  have fails: "r = Inl (LockFailed (IoError OtherKind ''locked''))"
    if "startup file_os file_host no_commands dc u = (r, v)" "dc_lock_path dc \<in> set (fl_locked u)" for u r v
    using failed_start_removes_files [of u "fl_content u" "fl_locked u" "fl_time u" dc file_host no_commands] that
    by auto
  show ?thesis
    using lock
    by (auto simp: locked_start_def daemon_main_def comp_defs dc write_startup_marker_def
        create_parent_file_os setup_logging_file_os [OF dc] io_def file_os_append kept put_file_def
        split: prod.splits sum.splits dest!: fails)
qed

theorem failed_start_reported_witness:
  "\<exists>more w2. connect_or_start locked_client True ''/p'' locked_project =
    Some (Returned (Inl (DaemonStartFailed (''Failed to acquire lock: daemon already running?'' @ nl @ more @
      ''Failed to acquire lock: daemon already running?''))), w2)"
proof -
  let ?e = "LockFailed (IoError OtherKind ''locked'')"
  let ?msg = "''Failed to acquire lock: daemon already running?''"
  obtain dc where dc: "for_project file_os ''/p'' u = Inr dc" for u
    using file_os_config [of "''/p''"] by blast
  have paths: "dc_log_path dc \<notin> {dc_socket_path dc, dc_version_path dc, dc_lock_path dc, dc_wal_path dc}"
    and q: "dc_log_path dc = ''/home/u/.local/state/oj/projects/01ff/daemon.log''"
    using dc [of no_files] file_os_config [of "''/p''" no_files] by auto
  obtain w1 where s: "locked_start = (Inl ?e, w1)" using locked_start_fails by (metis prod.collapse)
  have none: "hm_get (fl_content locked_project) k = None" for k
    by (simp add: locked_project_def no_files_def hm_get_def)
  have os: "co_os locked_client = file_os" and now: "co_now locked_client u = (fl_time u, u\<lparr>fl_time := fl_time u + 1\<rparr>)" for u
    by (simp_all add: locked_client_def file_cli_def)
  have t: "timeout_connect locked_client u = 5000000000" "timeout_exit locked_client u = 2000000000" for u
    by (simp_all add: timeout_connect_def timeout_exit_def parse_duration_ms_def os)
      (simp_all add: file_os_def from_secs_def)
  have plain: "plain_line l" if "CHR ''('' \<notin> set l" "CHR 0x0A \<notin> set l" "l \<noteq> [] \<longrightarrow> last l \<noteq> CHR 0x0D" for l
    using that not_contains_letter [of "CHR ''(''" startup_marker_prefix l]
    by (auto simp: plain_line_def startup_marker_prefix_def)
  have con: "connect file_os ''/p'' locked_project = Inl DaemonNotRunning"
    using client_daemon_paths(2) [OF dc] by (simp add: connect_def hm_contains_def none)
  have same: "\<not> version_mismatch locked_client ''/p'' locked_project"
    using client_daemon_paths(4) [OF dc, of locked_project] by (auto simp: version_mismatch_def os none)
  have info: "\<exists>l. t = l @ nl \<and> plain_line l \<and> \<not> error_line l"
    if "os_format file_os ''INFO'' (''Starting ojd for project: '' @ ''/p'') u = Some t" for u t
  proof -
    let ?l = "''2026-01-01T00:00:00Z INFO ojd: Starting ojd for project: /p''"
    have "t = ?l @ nl" using that by (simp add: file_os_def)
    moreover have "plain_line ?l" by (rule plain) simp_all
    moreover have "\<not> error_line ?l" by code_simp
    ultimately show ?thesis by blast
  qed
  have traced: "\<exists>l. os_format file_os ''ERROR'' (''Failed to start daemon: '' @ ?msg) u =
        Some (l @ ''Failed to start daemon: '' @ ?msg @ nl) \<and> plain_line (l @ ''Failed to start daemon: '' @ ?msg)" for u
    by (intro exI [of _ "''2026-01-01T00:00:00Z ERROR ojd: ''"] conjI plain) (simp_all add: file_os_def)
  have main: "daemon_main file_os file_host no_commands ''/p'' locked_project = (Inl ?e, w1)"
    using s by (simp add: locked_start_def)
  have message: "show_lifecycle_error ?e = ?msg" by simp
  have spawn: "co_spawn locked_client ojd ''/p'' locked_project = (Inr 7, w1)" for ojd
    by (simp add: locked_client_def s)
  have wait: "co_try_wait locked_client 7 u = (Inr (Some ''exit status: 1''), u)" for u
    by (simp add: locked_client_def ok_def)
  have line: "plain_line ?msg" by (rule plain) simp_all
  have clock: "os_read_file file_os (dc_log_path dc) (snd (co_now locked_client u)) =
      os_read_file file_os (dc_log_path dc) u"
    "fst (co_now locked_client (snd (co_now locked_client u))) - fst (co_now locked_client u) <
      timeout_connect locked_client v"
    "fst (co_now locked_client (snd (co_now locked_client u))) - fst (co_now locked_client u) <
      timeout_exit locked_client v" for u v
    by (simp_all add: now t)
  have log: "log_file file_os file_host (dc_log_path dc)"
    using small.log_file_axioms by (simp only: q)
  have "\<exists>more w2. connect_or_start locked_client True ''/p'' locked_project =
      Some (Returned (Inl (DaemonStartFailed (if False then ?msg else ?msg @ nl @ more @ ?msg))), w2)"
    by (rule failed_start_reported [OF log dc paths os con same main message [symmetric] spawn wait clock line info])
      (use traced in simp_all)
  then show ?thesis by (simp only: if_False)
qed

end
