(* ===== verification/Pipeline_Runs.thy ===== *)
theory Pipeline_Runs
  imports Pipeline_Walk
begin

text \<open>
  How pipelines run on a host that works: its log, repository and notifications do, its shell starts
  commands and its agents start. The event that starts a pipeline or ends the work of an agent is then
  processed without an error, and after it the pipeline has ended or is at an agent, in the phase that
  the reference of \<open>Pipeline_Walk\<close> computes. So no pipeline is ever left in the middle.
\<close>

section \<open>A host that works\<close>

definition smooth_host :: "'w host \<Rightarrow> bool" where
  "smooth_host h \<longleftrightarrow>
     (\<forall>e. \<exists>s. h_ser h e = Inr s) \<and> (\<forall>w. fst (h_write h w) = Written) \<and>
     (\<forall>c m w. \<exists>w1. notify_send (h_notify h) c m w = (Inr (), w1)) \<and>
     (\<forall>b p w. \<exists>w1. repo_worktree_add (h_repos h) b p w = (Inr (), w1)) \<and>
     (\<forall>c d env w. \<exists>code w1. h_shell h c d env w = (Inr code, w1))"

text \<open>The exit code of a command is a function of the command.\<close>

definition exits_with :: "(string \<Rightarrow> int) \<Rightarrow> 'w host \<Rightarrow> bool" where
  "exits_with ex h \<longleftrightarrow> (\<forall>c d env w. fst (h_shell h c d env w) = Inr (Some (ex c)))"

definition commands_succeed :: "'w host \<Rightarrow> bool" where
  "commands_succeed h \<longleftrightarrow> exits_with (\<lambda>_. 0) h"

text \<open>A command that interpolation leaves as it is.\<close>

definition plain_command :: "string \<Rightarrow> bool" where
  "plain_command c \<longleftrightarrow> CHR ''{'' \<notin> set c \<and> CHR ''$'' \<notin> set c"

lemma interpolate_plain: "plain_command c \<Longrightarrow> interpolate env c vars = c"
  using expand_vars_plain [of c vars "[]"] expand_env_plain [of c env "[]"]
  by (simp add: plain_command_def interpolate_def expand_vars_def expand_env_def)

text \<open>An exit code that the host may give for a command of the runbook.\<close>

definition code_of :: "'w host \<Rightarrow> string \<Rightarrow> int \<Rightarrow> bool" where
  "code_of h cmd code \<longleftrightarrow>
     (\<forall>ex. exits_with ex h \<longrightarrow> (\<exists>c. code = ex c \<and> (plain_command cmd \<longrightarrow> c = cmd)))"

fun smooth_effect :: "effect \<Rightarrow> bool" where
  "smooth_effect (Persist _) \<longleftrightarrow> True"
| "smooth_effect (Emit _) \<longleftrightarrow> True"
| "smooth_effect (WorktreeAdd _ _) \<longleftrightarrow> True"
| "smooth_effect _ \<longleftrightarrow> False"

lemma execute_smooth:
  assumes h: "smooth_host h" and "smooth_effect eff"
  shows "\<exists>y. execute h eff x = (Inr None, y)"
proof (cases eff)
  case (Persist op)
  obtain r y where e: "execute h (Persist op) x = (r, y)" by fastforce
  have "wal_append (h_ser h) (fst (h_write h w)) op l \<noteq> (Inl err, l1)" for w l l1 err
  proof -
    obtain s where "h_ser h \<lparr>we_seq = wal_sequence l + 1, we_op = op\<rparr> = Inr s"
      using h unfolding smooth_host_def by blast
    then show ?thesis using h by (simp add: smooth_host_def wal_append_def Let_def)
  qed
  with execute_persist [OF e] e Persist show ?thesis by auto
next
  case (Emit e)
  obtain w where "notify_send (h_notify h) ''events'' (h_dbg_event h e) (ex_world x) = (Inr (), w)"
    using h unfolding smooth_host_def by blast
  with Emit show ?thesis by (simp add: execute_def exec_defs comp_defs)
next
  case (WorktreeAdd b p)
  obtain w where "repo_worktree_add (h_repos h) b p (ex_world x) = (Inr (), w)"
    using h unfolding smooth_host_def by blast
  with WorktreeAdd show ?thesis by (simp add: execute_def exec_defs comp_defs)
qed (use assms(2) in simp_all)

lemma execute_all_smooth:
  "smooth_host h \<Longrightarrow> \<forall>e \<in> set effs. smooth_effect e \<Longrightarrow> \<exists>y. execute_all h effs x = (Inr [], y)"
proof (induction effs arbitrary: x)
  case (Cons e effs)
  from Cons.prems execute_smooth [of h e x] obtain y where "execute h e x = (Inr None, y)" by auto
  moreover obtain z where "execute_all h effs y = (Inr [], z)" using Cons.IH [of y] Cons.prems by auto
  ultimately show ?case by (simp add: comp_defs)
qed (simp add: ok_def)

lemma run_effects_smooth:
  assumes "smooth_host (rc_host cfg)" and "\<forall>e \<in> set effs. smooth_effect e"
  obtains s where "run_effects cfg effs r = (Inr [], s)" "applies (persisted effs) r s"
proof -
  from execute_all_smooth [OF assms] obtain y where
    "execute_all (rc_host cfg) effs (rt_executor r) = (Inr [], y)" by blast
  then have "run_effects cfg effs r = (Inr [], r\<lparr>rt_executor := y\<rparr>)"
    by (simp add: run_effects_def on_executor_def map_err_def on_part_def)
  from that [OF this run_effects_applies [OF this]] show ?thesis .
qed

lemma smooth_effects [simp]:
  "\<forall>e \<in> set (phase_start_effects pid ph). smooth_effect e"
  "\<forall>e \<in> set (phase_transition_effects p n). smooth_effect e"
  "\<forall>e \<in> set (failure_transition_effects p n err). smooth_effect e"
  "\<forall>e \<in> set (failure_effects p err). smooth_effect e"
  "session_id p = None \<Longrightarrow> \<forall>e \<in> set (completion_effects p). smooth_effect e"
  "\<forall>e \<in> set (create_effects pid knd nm args d ph). smooth_effect e"
  by (auto simp: phase_effects_defs create_effects_def)

lemma shell_smooth:
  assumes "smooth_host (rc_host cfg)"
  shows "\<exists>code s. dispatch_run cfg p pid ph ins d (RunShell cmd) r = (Inr [ShellCompleted pid ph code], s) \<and>
    rt_state s = rt_state r \<and> code_of (rc_host cfg) cmd code"
proof -
  let ?cmd = "interpolate (\<lambda>k. h_env (rc_host cfg) k (rt_world r)) cmd (spawn_vars p pid ins d)"
  obtain code w1 where x: "h_shell (rc_host cfg) ?cmd d [] (rt_world r) = (Inr code, w1)"
    using assms unfolding smooth_host_def by blast
  have "code = Some (ex ?cmd)" if "exits_with ex (rc_host cfg)" for ex
    using x that unfolding exits_with_def by (metis fst_conv sum.inject(2))
  then have "code_of (rc_host cfg) cmd (case code of Some c \<Rightarrow> c | None \<Rightarrow> -1)"
    unfolding code_of_def by (metis interpolate_plain option.simps(5))
  with x show ?thesis
    by (auto simp: dispatch_run_def shell_effect_def run_effects_def on_executor_def
        execute_def exec_defs comp_defs split: prod.split)
qed

text \<open>The agents of a pipeline start: their workspace can be prepared and their session created.\<close>

definition agent_starts :: "'w runtime_config \<Rightarrow> string \<Rightarrow> bool" where
  "agent_starts cfg a \<longleftrightarrow> (\<exists>ag. get_agent (rc_runbook cfg) a = Some ag \<and>
     (\<forall>p pid ins d root w. \<exists>effs w1.
        build_spawn_effects (rc_host cfg) ag p pid a ins d root w = (Inr effs, w1)) \<and>
     (\<forall>n d c env w. \<exists>i w1. sess_spawn (h_sessions (rc_host cfg)) n d c env w = (Inr i, w1)))"

definition agents_start :: "'w runtime_config \<Rightarrow> pipeline_def \<Rightarrow> bool" where
  "agents_start cfg d \<longleftrightarrow>
     (\<forall>ph \<in> set (pl_phases d). \<forall>a. ph_run ph = RunAgent a \<longrightarrow> agent_starts cfg a)"

lemma execute_spawn:
  assumes "\<forall>n d c env w. \<exists>i w1. sess_spawn (h_sessions h) n d c env w = (Inr i, w1)"
    and "hm_get (workspaces (ex_state x)) pid = Some ws"
  shows "\<exists>y. execute h (Spawn pid c env cwd) x = (Inr None, y) \<and> ex_state y = ex_state x"
proof -
  obtain i w where "sess_spawn (h_sessions h) pid (case cwd of Some d \<Rightarrow> d | None \<Rightarrow> ws_path ws) c env
      (ex_world x) = (Inr i, w)" using assms(1) by blast
  with assms(2) show ?thesis by (simp add: execute_def exec_defs comp_defs)
qed

lemma execute_timer: "\<exists>y. execute h (SetTimer i d) x = (Inr None, y)"
  by (simp add: execute_def exec_defs comp_defs split: prod.split)

lemma spawn_starts:
  assumes h: "smooth_host (rc_host cfg)" and a: "agent_starts cfg a"
    and p: "hm_get (pipelines (rt_state r)) pid = Some p"
    and ws: "hm_get (workspaces (rt_state r)) pid \<noteq> None"
  shows "\<exists>s. spawn_agent cfg pid a ins r = (Inr [], s) \<and> applies [SessionCreate pid pid] r s"
proof -
  let ?h = "rc_host cfg"
  from a obtain ag where ag: "get_agent (rc_runbook cfg) a = Some ag"
    and b: "\<And>w. \<exists>effs w1. build_spawn_effects ?h ag p pid a ins (workspace_path_of cfg p)
      (rc_project_root cfg) w = (Inr effs, w1)"
    and sp: "\<forall>n d c env w. \<exists>i w1. sess_spawn (h_sessions ?h) n d c env w = (Inr i, w1)"
    unfolding agent_starts_def by blast
  obtain effs w1 where e: "build_spawn_effects ?h ag p pid a ins (workspace_path_of cfg p)
      (rc_project_root cfg) (rt_world r) = (Inr effs, w1)" using b by blast
  from build_spawn_effects_result [OF e] obtain cmd env cwd where
    effs: "effs = [Persist (SessionCreate pid pid), Spawn pid cmd env cwd,
      SetTimer (check_timer pid) session_monitor_interval]" by blast
  let ?x = "(rt_executor r)\<lparr>ex_world := w1\<rparr>"
  obtain y where y: "execute ?h (Persist (SessionCreate pid pid)) ?x = (Inr None, y)"
    using execute_smooth [OF h, of "Persist (SessionCreate pid pid)"] by auto
  from execute_persist [OF y] ws obtain wks where "hm_get (workspaces (ex_state y)) pid = Some wks" by auto
  from execute_spawn [OF sp this] obtain z where
    z: "execute ?h (Spawn pid cmd env cwd) y = (Inr None, z)" by blast
  obtain z1 z2 where "execute ?h (SetTimer (check_timer pid) session_monitor_interval) z = (Inr None, z1)"
    "execute ?h (start_session_monitor pid) z1 = (Inr None, z2)"
    unfolding start_session_monitor_def using execute_timer by metis
  with y z have "execute_all ?h (effs @ [start_session_monitor pid]) ?x = (Inr [], z2)"
    by (simp add: effs comp_defs)
  moreover have "lookup_pipeline pid r = (Inr p, r)"
    using p by (simp add: lookup_pipeline_def rt_get_pipeline_def get_pipeline_def comp_defs)
  ultimately have "spawn_agent cfg pid a ins r = (Inr [], r\<lparr>rt_executor := z2\<rparr>)"
    using ag e by (simp add: spawn_agent_def on_runtime_world_def run_effects_def on_executor_def comp_defs)
  from spawn_agent_applies [OF this] this show ?thesis by blast
qed

text \<open>A pipeline that is on its way, and one that has ended.\<close>

definition on_way :: "pipeline_def \<Rightarrow> string \<Rightarrow> pipeline \<Rightarrow> 'w runtime \<Rightarrow> bool" where
  "on_way d pid p r \<longleftrightarrow> hm_get (pipelines (rt_state r)) pid = Some p \<and> id p = pid \<and>
     session_id p = None \<and> hm_get (workspaces (rt_state r)) pid \<noteq> None \<and> get_phase d (phase p) \<noteq> None"

definition ended :: "string \<Rightarrow> pipeline \<Rightarrow> bool" where
  "ended t q \<longleftrightarrow> terminal t \<and> phase q = t \<and> status q = (if t = ''done'' then Completed else Pending)"

text \<open>What all pipelines but one keep, and what that one keeps.\<close>

definition only_moves :: "string \<Rightarrow> materialized_state \<Rightarrow> materialized_state \<Rightarrow> bool" where
  "only_moves pid a b \<longleftrightarrow>
     (\<forall>j. j \<noteq> pid \<longrightarrow> hm_get (pipelines b) j = hm_get (pipelines a) j) \<and>
     (\<forall>p. hm_get (pipelines a) pid = Some p \<longrightarrow>
        (\<exists>ph st. hm_get (pipelines b) pid = Some (p\<lparr>phase := ph, status := st\<rparr>))) \<and>
     workspaces b = workspaces a"

lemma only_moves_refl: "only_moves pid a a"
  by (auto simp: only_moves_def) (metis pipeline.surjective pipeline.update_convs(4,5))

lemma only_moves_trans: "only_moves pid a b \<Longrightarrow> only_moves pid b c \<Longrightarrow> only_moves pid a c"
  by (fastforce simp: only_moves_def)

definition move_of :: "string \<Rightarrow> operation \<Rightarrow> bool" where
  "move_of pid op \<longleftrightarrow> (\<exists>n. op = PipelineTransition pid n) \<or> (\<exists>st. op = PhaseStatusUpdate pid st) \<or>
     (\<exists>i. op = SessionCreate i pid)"

lemma only_moves_op: "move_of pid op \<Longrightarrow> only_moves pid a (apply_op now op a)"
  by (auto simp: move_of_def only_moves_def)
    (metis pipeline.surjective pipeline.update_convs(4,5))+

lemma only_moves_applies:
  assumes "applies ops r s" and "\<forall>op \<in> set ops. move_of pid op"
  shows "only_moves pid (rt_state r) (rt_state s)"
proof -
  have "only_moves pid a (apply_all tops a)" if "\<forall>op \<in> snd ` set tops. move_of pid op" for tops a
    using that
  proof (induction tops rule: rev_induct)
    case (snoc t tops)
    then have "only_moves pid (apply_all tops a) (apply_op (fst t) (snd t) (apply_all tops a))"
      by (intro only_moves_op) auto
    with snoc show ?case using only_moves_trans by (cases t) auto
  qed (simp add: apply_all_def only_moves_refl)
  with assms show ?thesis by (auto simp: applies_def)
qed

text \<open>The start of a phase: its command has run or its agent is spawned.\<close>

definition started_in :: "'w runtime_config \<Rightarrow> pipeline_def \<Rightarrow> string \<Rightarrow> string \<Rightarrow> event list \<Rightarrow> bool" where
  "started_in cfg d pid n evs \<longleftrightarrow> (\<exists>phd. get_phase d n = Some phd \<and>
     ((\<exists>a. ph_run phd = RunAgent a \<and> evs = []) \<or>
      (\<exists>c code. ph_run phd = RunShell c \<and> evs = [ShellCompleted pid n code] \<and>
         code_of (rc_host cfg) c code)))"

lemma get_first_phase: "first_phase d = Some fp \<Longrightarrow> get_phase d (ph_name fp) = Some fp"
  by (auto simp: first_phase_def get_phase_def split: list.splits)

lemma start_shell:
  assumes h: "smooth_host (rc_host cfg)" and d: "get_pipeline_def (rc_runbook cfg) (kind p) = Some df"
    and n: "get_phase df n = Some phd" and c: "ph_run phd = RunShell c"
    and p: "hm_get (pipelines (rt_state r)) pid = Some p"
  shows "\<exists>code s. start_phase cfg pid n ins w r = (Inr [ShellCompleted pid n code], s) \<and>
    applies [PhaseStatusUpdate pid Running] r s \<and> code_of (rc_host cfg) c code"
proof -
  obtain u where u: "run_effects cfg (phase_start_effects pid n) r = (Inr [], u)"
    "applies [PhaseStatusUpdate pid Running] r u"
    using run_effects_smooth [OF h smooth_effects(1), of pid n r] by auto
  from shell_smooth [OF h, of p pid n ins w c u] obtain code s where
    s: "dispatch_run cfg p pid n ins w (RunShell c) u = (Inr [ShellCompleted pid n code], s)"
    "rt_state s = rt_state u" "code_of (rc_host cfg) c code" by blast
  have "applies [PhaseStatusUpdate pid Running] r s"
    using applies_append [OF u(2) applies_Nil [OF s(2)]] by simp
  with u s d n p c show ?thesis by (auto simp: start_phase_def exact_pipeline_def comp_defs)
qed

lemma start_task:
  assumes h: "smooth_host (rc_host cfg)" and ag: "agents_start cfg df" and tp: "task_pipeline df"
    and d: "get_pipeline_def (rc_runbook cfg) (kind p) = Some df" and n: "get_phase df n = Some phd"
    and p: "hm_get (pipelines (rt_state r)) pid = Some p"
    and ws: "hm_get (workspaces (rt_state r)) pid \<noteq> None"
  shows "\<exists>evs s ops. start_phase cfg pid n ins w r = (Inr evs, s) \<and> started_in cfg df pid n evs \<and>
    applies (PhaseStatusUpdate pid Running # ops) r s \<and> (ops = [] \<or> ops = [SessionCreate pid pid])"
proof -
  from task_phase [OF tp n] have "is_task (ph_run phd)" by blast
  then consider c where "ph_run phd = RunShell c" | a where "ph_run phd = RunAgent a"
    by (auto simp: is_task_def)
  then show ?thesis
  proof cases
    case 1
    from start_shell [OF h d n 1 p] n 1 show ?thesis by (fastforce simp: started_in_def)
  next
    case 2
    obtain u where u: "run_effects cfg (phase_start_effects pid n) r = (Inr [], u)"
      "applies [PhaseStatusUpdate pid Running] r u"
      using run_effects_smooth [OF h smooth_effects(1), of pid n r] by auto
    have "agent_starts cfg a" using ag get_phase_mem [OF n] 2 by (auto simp: agents_start_def)
    moreover have "hm_get (pipelines (rt_state u)) pid \<noteq> None" "hm_get (workspaces (rt_state u)) pid \<noteq> None"
      using u(2) p ws by (auto simp: applies_def)
    ultimately obtain s where s: "spawn_agent cfg pid a ins u = (Inr [], s)"
      "applies [SessionCreate pid pid] u s" using spawn_starts [OF h] by blast
    have "applies [PhaseStatusUpdate pid Running, SessionCreate pid pid] r s"
      using applies_append [OF u(2) s(2)] by simp
    with u s d n p 2 show ?thesis
      by (auto simp: start_phase_def exact_pipeline_def comp_defs started_in_def dispatch_run_def)
  qed
qed

text \<open>The pipeline moves on to a phase of the definition, which has started.\<close>

definition moves :: "'w runtime_config \<Rightarrow> pipeline_def \<Rightarrow> string \<Rightarrow> pipeline \<Rightarrow> string \<Rightarrow> 'w runtime \<Rightarrow>
  ('w, event list) handler \<Rightarrow> bool" where
  "moves cfg d pid p n r m \<longleftrightarrow>
     (\<exists>evs s. m r = (Inr evs, s) \<and> started_in cfg d pid n evs \<and>
        on_way d pid (p\<lparr>phase := n, status := Running\<rparr>) s \<and> only_moves pid (rt_state r) (rt_state s))"

text \<open>The pipeline ends in a phase.\<close>

definition ends :: "string \<Rightarrow> string \<Rightarrow> 'w runtime \<Rightarrow> ('w, event list) handler \<Rightarrow> bool" where
  "ends t pid r m \<longleftrightarrow>
     (\<exists>s q. m r = (Inr [], s) \<and> hm_get (pipelines (rt_state s)) pid = Some q \<and> ended t q \<and>
        only_moves pid (rt_state r) (rt_state s))"

text \<open>One of the two, as the definition says.\<close>

definition goes_on :: "'w runtime_config \<Rightarrow> pipeline_def \<Rightarrow> string \<Rightarrow> pipeline \<Rightarrow> string \<Rightarrow> 'w runtime \<Rightarrow>
  ('w, event list) handler \<Rightarrow> bool" where
  "goes_on cfg d pid p t r m \<longleftrightarrow> ends t pid r m \<or>
     (moves cfg d pid p t r m \<and>
      phases_left (rc_runbook cfg) (p\<lparr>phase := t, status := Running\<rparr>) < phases_left (rc_runbook cfg) p)"

lemma move_task:
  assumes h: "smooth_host (rc_host cfg)" and ag: "agents_start cfg df" and tp: "task_pipeline df"
    and d: "get_pipeline_def (rc_runbook cfg) (kind p) = Some df"
    and n: "get_phase df n = Some phd" and p: "on_way df pid p r"
    and effs: "\<forall>e \<in> set effs. smooth_effect e" "persisted effs = [PipelineTransition pid n]"
  shows "moves cfg df pid p n r
    (bind (run_effects cfg effs) (\<lambda>evs. bind (start_phase cfg pid n ins w) (\<lambda>evs2. ok (evs @ evs2))))"
proof -
  obtain u where u: "run_effects cfg effs r = (Inr [], u)" "applies [PipelineTransition pid n] r u"
    using run_effects_smooth [OF h effs(1), of r] effs(2) by auto
  have pu: "hm_get (pipelines (rt_state u)) pid = Some (p\<lparr>phase := n, status := Pending\<rparr>)"
    and wu: "hm_get (workspaces (rt_state u)) pid \<noteq> None"
    using u(2) p by (auto simp: applies_def on_way_def)
  have du: "get_pipeline_def (rc_runbook cfg) (kind (p\<lparr>phase := n, status := Pending\<rparr>)) = Some df"
    using d by simp
  from start_task [OF h ag tp du n pu wu, of ins w] obtain evs s ops where
    s: "start_phase cfg pid n ins w u = (Inr evs, s)" "started_in cfg df pid n evs"
    "applies (PhaseStatusUpdate pid Running # ops) u s" "ops = [] \<or> ops = [SessionCreate pid pid]" by blast
  have a: "applies (PipelineTransition pid n # PhaseStatusUpdate pid Running # ops) r s"
    using applies_append [OF u(2) s(3)] by simp
  have "on_way df pid (p\<lparr>phase := n, status := Running\<rparr>) s"
    using a p n s(4) by (auto simp: on_way_def applies_def)
  moreover have "only_moves pid (rt_state r) (rt_state s)"
    by (rule only_moves_applies [OF a]) (use s(4) in \<open>auto simp: move_of_def\<close>)
  ultimately show ?thesis using u(1) s(1,2) by (simp add: moves_def comp_defs)
qed

lemma complete_task:
  assumes h: "smooth_host (rc_host cfg)" and p: "on_way df pid p r" and "\<not> is_terminal p"
    and n: "\<forall>e \<in> set effs. smooth_effect e" "persisted effs = [PipelineTransition pid n]"
  shows "ends ''done'' pid r
    (bind (run_effects cfg effs) (\<lambda>evs. bind (complete_pipeline cfg p) (\<lambda>evs2. ok (evs @ evs2))))"
proof -
  obtain u where u: "run_effects cfg effs r = (Inr [], u)" "applies [PipelineTransition pid n] r u"
    using run_effects_smooth [OF h n(1), of r] n(2) by auto
  have "session_id p = None" using p by (simp add: on_way_def)
  with assms(3) p obtain s where s: "complete_pipeline cfg p u = (Inr [], s)"
    "applies [PipelineTransition pid ''done'', PhaseStatusUpdate pid Completed] u s"
    using run_effects_smooth [OF h smooth_effects(5), of p u]
    by (auto simp: complete_pipeline_def on_way_def)
  have a: "applies [PipelineTransition pid n, PipelineTransition pid ''done'', PhaseStatusUpdate pid Completed] r s"
    using applies_append [OF u(2) s(2)] by simp
  have "only_moves pid (rt_state r) (rt_state s)"
    by (rule only_moves_applies [OF a]) (simp add: move_of_def)
  moreover have "hm_get (pipelines (rt_state s)) pid = Some (p\<lparr>phase := ''done'', status := Completed\<rparr>)"
    using a p by (auto simp: applies_def on_way_def)
  ultimately show ?thesis using u(1) s(1) by (simp add: ends_def ended_def terminal_def comp_defs)
qed

lemma advance_task:
  assumes h: "smooth_host (rc_host cfg)" and ag: "agents_start cfg df"
    and d: "get_pipeline_def (rc_runbook cfg) (kind p) = Some df"
    and sp: "task_pipeline df" and p: "on_way df pid p r"
  shows "goes_on cfg df pid p (leads_to df (phase p) True) r (advance_pipeline cfg p)"
proof -
  from p obtain phd where ph: "get_phase df (phase p) = Some phd" by (auto simp: on_way_def)
  from task_phase [OF sp ph] have nt: "\<not> is_terminal p"
    and to: "\<And>m. ph_next phd = Some m \<Longrightarrow> get_phase df m \<noteq> None \<or> terminal m"
    by (auto simp: is_terminal_iff)
  have i: "id p = pid" using p by (simp add: on_way_def)
  have name: "next_phase_name (rc_runbook cfg) p =
      (case ph_next phd of Some m \<Rightarrow> Some m | None \<Rightarrow> map_option ph_name (next_phase df (phase p)))"
    using d ph by (simp add: next_phase_name_def)
  then have nx: "leads_to df (phase p) True = (case next_phase_name (rc_runbook cfg) p of
      None \<Rightarrow> ''done'' | Some m \<Rightarrow> if get_phase df m = None then ''done'' else m)"
    using ph by (simp add: leads_to_def)
  have complete: "ends ''done'' pid r (bind (run_effects cfg (phase_transition_effects p n)) (\<lambda>evs.
      bind (complete_pipeline cfg p) (\<lambda>evs2. ok (evs @ evs2))))" for n
    by (rule complete_task [OF h p nt]) (simp_all add: i)
  show ?thesis
  proof (cases "next_phase_name (rc_runbook cfg) p")
    case None
    with nt nx complete [of "''done''"] show ?thesis by (simp add: advance_pipeline_def goes_on_def)
  next
    case (Some n)
    show ?thesis
    proof (cases "get_phase df n")
      case None
      have "next_phase df (phase p) = Some b \<Longrightarrow> get_phase df (ph_name b) \<noteq> None" for b
        using next_phase_mem [of df "phase p" b] by (auto simp: get_phase_None)
      with Some None name to have "terminal n" by (auto split: option.splits)
      with Some None d nt nx complete [of n] show ?thesis
        by (auto simp: advance_pipeline_def has_phase_def_def terminal_def goes_on_def)
    next
      case n: (Some b)
      from Some name have "ph_next phd = Some n \<or>
          (ph_next phd = None \<and> map_option ph_name (next_phase df (phase p)) = Some n)"
        by (auto split: option.splits)
      with forward_decreases [OF d _ ph n, of "p\<lparr>phase := n, status := Running\<rparr>"] sp
      have "phases_left (rc_runbook cfg) (p\<lparr>phase := n, status := Running\<rparr>) < phases_left (rc_runbook cfg) p"
        by (auto simp: task_pipeline_def)
      moreover have "moves cfg df pid p n r (advance_pipeline cfg p)"
        using move_task [OF h ag sp d n p, of "phase_transition_effects p n" "inputs p"
            "workspace_path_of cfg p"] Some n nt d
        by (simp add: advance_pipeline_def has_phase_def_def i)
      ultimately show ?thesis using Some n nx by (simp add: goes_on_def)
    qed
  qed
qed

lemma fail_task:
  assumes h: "smooth_host (rc_host cfg)" and ag: "agents_start cfg df"
    and d: "get_pipeline_def (rc_runbook cfg) (kind p) = Some df"
    and sp: "task_pipeline df" and p: "on_way df pid p r"
  shows "goes_on cfg df pid p (leads_to df (phase p) False) r (fail_pipeline cfg p err)"
proof -
  from p obtain phd where ph: "get_phase df (phase p) = Some phd" by (auto simp: on_way_def)
  with d have of: "on_fail_phase (rc_runbook cfg) p = ph_on_fail phd" by (simp add: on_fail_phase_def)
  have i: "id p = pid" using p by (simp add: on_way_def)
  show ?thesis
  proof (cases "ph_on_fail phd")
    case None
    obtain s where s: "run_effects cfg (failure_effects p err) r = (Inr [], s)"
      "applies [PipelineTransition (id p) ''failed''] r s"
      using run_effects_smooth [OF h smooth_effects(4), of p err r] by auto
    have "only_moves pid (rt_state r) (rt_state s)"
      by (rule only_moves_applies [OF s(2)]) (use p in \<open>simp add: move_of_def on_way_def\<close>)
    moreover have "hm_get (pipelines (rt_state s)) pid = Some (p\<lparr>phase := ''failed'', status := Pending\<rparr>)"
      using s(2) p by (auto simp: applies_def on_way_def)
    ultimately show ?thesis using s(1) None of ph
      by (simp add: goes_on_def ends_def ended_def terminal_def fail_pipeline_def leads_to_def)
  next
    case (Some n)
    with task_phase [OF sp ph] obtain b where n: "get_phase df n = Some b" by auto
    from forward_decreases [OF d _ ph n, of "p\<lparr>phase := n, status := Running\<rparr>"] sp Some
    have "phases_left (rc_runbook cfg) (p\<lparr>phase := n, status := Running\<rparr>) < phases_left (rc_runbook cfg) p"
      by (auto simp: task_pipeline_def)
    moreover have "moves cfg df pid p n r (fail_pipeline cfg p err)"
      using move_task [OF h ag sp d n p, of "failure_transition_effects p n err" "inputs p"
          "workspace_path_of cfg p"] Some of
      by (simp add: fail_pipeline_def i)
    ultimately show ?thesis using Some ph by (simp add: goes_on_def leads_to_def)
  qed
qed

lemma shell_completed_step:
  assumes h: "smooth_host (rc_host cfg)" and ag: "agents_start cfg df"
    and d: "get_pipeline_def (rc_runbook cfg) (kind p) = Some df"
    and sp: "task_pipeline df" and p: "on_way df pid p r"
  shows "goes_on cfg df pid p (leads_to df (phase p) (code = 0)) r
    (handle_event cfg (ShellCompleted pid (phase p) code))"
proof -
  have "hm_get (pipelines (rt_state r)) pid = Some p" using p by (simp add: on_way_def)
  note e = shell_completed_eq [OF this, of cfg "phase p" code]
  show ?thesis
  proof (cases "code = 0")
    case True
    with advance_task [OF assms] e show ?thesis by (simp add: goes_on_def ends_def moves_def)
  next
    case False
    with fail_task [OF assms, of "''shell exited with code '' @ show_int code"] e
    show ?thesis by (simp add: goes_on_def ends_def moves_def)
  qed
qed

section \<open>The run of a pipeline\<close>

text \<open>Where a pipeline rests when nothing is left to process: it has ended, or an agent works on it.\<close>

definition rests :: "pipeline_def \<Rightarrow> string \<Rightarrow> pipeline \<Rightarrow> bool" where
  "rests d t q \<longleftrightarrow> ended t q \<or>
     (phase q = t \<and> status q = Running \<and> (\<exists>phd a. get_phase d t = Some phd \<and> ph_run phd = RunAgent a))"

definition plain_pipeline :: "pipeline_def \<Rightarrow> bool" where
  "plain_pipeline d \<longleftrightarrow> (\<forall>ph \<in> set (pl_phases d). \<forall>c. ph_run ph = RunShell c \<longrightarrow> plain_command c)"

text \<open>The reference leads from one phase to another, whatever the exit codes of the host are.\<close>

definition walks :: "'w host \<Rightarrow> pipeline_def \<Rightarrow> string \<Rightarrow> string \<Rightarrow> bool" where
  "walks h d n t \<longleftrightarrow> (\<forall>ex. exits_with ex h \<longrightarrow> plain_pipeline d \<or> ex = (\<lambda>_. 0) \<longrightarrow> t = walk ex n (pl_phases d))"

lemma walks_step:
  assumes "task_pipeline d" and "get_phase d n = Some phd" and "ph_run phd = RunShell c"
    and "code_of h c code" and "walks h d (leads_to d n (code = 0)) t"
  shows "walks h d n t"
  unfolding walks_def
proof (intro allI impI)
  fix ex
  assume ex: "exits_with ex h" "plain_pipeline d \<or> ex = (\<lambda>_. 0)"
  then have "code = ex c"
    using assms(3,4) get_phase_mem [OF assms(2)] unfolding code_of_def plain_pipeline_def by metis
  moreover have "t = walk ex (leads_to d n (code = 0)) (pl_phases d)"
    using assms(5) ex unfolding walks_def by blast
  ultimately show "t = walk ex n (pl_phases d)" using walk_next [OF assms(1-3), of ex] by simp
qed

lemma process_goes_on:
  assumes h: "smooth_host (rc_host cfg)" and ag: "agents_start cfg df" and tp: "task_pipeline df"
  shows "get_pipeline_def (rc_runbook cfg) (kind p) = Some df \<Longrightarrow>
    goes_on cfg df pid p n r (handle_event cfg e) \<Longrightarrow>
    \<exists>s q t. process_events cfg [e] r = Some (Inr (), s) \<and>
      hm_get (pipelines (rt_state s)) pid = Some q \<and> rests df t q \<and> walks (rc_host cfg) df n t \<and>
      only_moves pid (rt_state r) (rt_state s)"
proof (induction "phases_left (rc_runbook cfg) p" arbitrary: p n r e rule: less_induct)
  case less
  let ?p = "p\<lparr>phase := n, status := Running\<rparr>"
  from less.prems(2) consider (ends) "ends n pid r (handle_event cfg e)"
    | (moves) "moves cfg df pid p n r (handle_event cfg e)"
      "phases_left (rc_runbook cfg) ?p < phases_left (rc_runbook cfg) p"
    unfolding goes_on_def by blast
  then show ?case
  proof cases
    case ends
    then obtain s q where s: "handle_event cfg e r = (Inr [], s)" "hm_get (pipelines (rt_state s)) pid = Some q"
      "ended n q" "only_moves pid (rt_state r) (rt_state s)" by (auto simp: ends_def)
    then have "walks (rc_host cfg) df n n"
      by (simp add: walks_def walk_terminal [OF tp] ended_def)
    moreover have "process_events cfg [e] r = Some (Inr (), s)"
      using s(1) by (subst process_events.simps) (simp add: process_events.simps)
    ultimately show ?thesis using s unfolding rests_def by blast
  next
    case moves
    then obtain evs s where s: "handle_event cfg e r = (Inr evs, s)" "started_in cfg df pid n evs"
      "on_way df pid ?p s" "only_moves pid (rt_state r) (rt_state s)" by (auto simp: moves_def)
    from s(2) obtain phd where phd: "get_phase df n = Some phd" and
      "(\<exists>a. ph_run phd = RunAgent a \<and> evs = []) \<or>
       (\<exists>c code. ph_run phd = RunShell c \<and> evs = [ShellCompleted pid n code] \<and> code_of (rc_host cfg) c code)"
      by (auto simp: started_in_def)
    then consider (agent) a where "ph_run phd = RunAgent a" "evs = []"
      | (shell) c code where "ph_run phd = RunShell c" "evs = [ShellCompleted pid n code]"
        "code_of (rc_host cfg) c code" by blast
    then show ?thesis
    proof cases
      case agent
      then have "walks (rc_host cfg) df n n" by (simp add: walks_def walk_agent [OF phd agent(1)])
      moreover have "process_events cfg [e] r = Some (Inr (), s)"
        using s(1) agent(2) by (subst process_events.simps) (simp add: process_events.simps)
      moreover have "hm_get (pipelines (rt_state s)) pid = Some ?p" using s(3) by (simp add: on_way_def)
      moreover have "rests df n ?p" using phd agent(1) by (auto simp: rests_def)
      ultimately show ?thesis using s(4) by blast
    next
      case shell
      have kp: "get_pipeline_def (rc_runbook cfg) (kind ?p) = Some df" using less.prems(1) by simp
      from shell_completed_step [OF h ag kp tp s(3), of code]
      have "goes_on cfg df pid ?p (leads_to df n (code = 0)) s (handle_event cfg (ShellCompleted pid n code))"
        by simp
      from less.hyps [OF moves(2) kp this] obtain u q t where
        u: "process_events cfg [ShellCompleted pid n code] s = Some (Inr (), u)"
          "hm_get (pipelines (rt_state u)) pid = Some q" "rests df t q"
          "walks (rc_host cfg) df (leads_to df n (code = 0)) t"
          "only_moves pid (rt_state s) (rt_state u)" by blast
      have "walks (rc_host cfg) df n t" by (rule walks_step [OF tp phd shell(1,3) u(4)])
      moreover have "process_events cfg [e] r = Some (Inr (), u)"
        using s(1) shell(2) u(1) by (subst process_events.simps) simp
      ultimately show ?thesis using u(2,3) only_moves_trans [OF s(4) u(5)] by blast
    qed
  qed
qed

text \<open>A phase that has started, as the event that starts it leaves it.\<close>

lemma process_started:
  assumes h: "smooth_host (rc_host cfg)" and ag: "agents_start cfg df" and tp: "task_pipeline df"
    and d: "get_pipeline_def (rc_runbook cfg) (kind p) = Some df"
    and st: "started_in cfg df pid (phase p) evs" and p: "on_way df pid p r" "status p = Running"
  shows "\<exists>s q t. process_events cfg evs r = Some (Inr (), s) \<and>
    hm_get (pipelines (rt_state s)) pid = Some q \<and> rests df t q \<and> walks (rc_host cfg) df (phase p) t \<and>
    only_moves pid (rt_state r) (rt_state s)"
proof -
  from st obtain phd where phd: "get_phase df (phase p) = Some phd" and
    "(\<exists>a. ph_run phd = RunAgent a \<and> evs = []) \<or>
     (\<exists>c code. ph_run phd = RunShell c \<and> evs = [ShellCompleted pid (phase p) code] \<and>
        code_of (rc_host cfg) c code)"
    by (auto simp: started_in_def)
  then consider (agent) a where "ph_run phd = RunAgent a" "evs = []"
    | (shell) c code where "ph_run phd = RunShell c" "evs = [ShellCompleted pid (phase p) code]"
      "code_of (rc_host cfg) c code" by blast
  then show ?thesis
  proof cases
    case agent
    have "walks (rc_host cfg) df (phase p) (phase p)" by (simp add: walks_def walk_agent [OF phd agent(1)])
    moreover have "rests df (phase p) p" using phd agent(1) p(2) by (auto simp: rests_def)
    moreover have "hm_get (pipelines (rt_state r)) pid = Some p" using p(1) by (simp add: on_way_def)
    moreover have "process_events cfg evs r = Some (Inr (), r)"
      using agent(2) by (simp add: process_events.simps)
    ultimately show ?thesis using only_moves_refl by blast
  next
    case shell
    from process_goes_on [OF h ag tp d shell_completed_step [OF h ag d tp p(1), of code]] obtain u q t where
      u: "process_events cfg [ShellCompleted pid (phase p) code] r = Some (Inr (), u)"
        "hm_get (pipelines (rt_state u)) pid = Some q" "rests df t q"
        "walks (rc_host cfg) df (leads_to df (phase p) (code = 0)) t"
        "only_moves pid (rt_state r) (rt_state u)" by blast
    from walks_step [OF tp phd shell(1,3) u(4)] u shell(2) show ?thesis by blast
  qed
qed

section \<open>The events that start and continue a pipeline\<close>

definition created_as :: "string \<Rightarrow> string \<Rightarrow> (string, string) hmap \<Rightarrow> pipeline \<Rightarrow> bool" where
  "created_as pid knd args p \<longleftrightarrow> id p = pid \<and> kind p = knd \<and> inputs p = args \<and>
     name p = (case hm_get args ''name'' of Some n \<Rightarrow> n | None \<Rightarrow> pid) \<and>
     workspace_path p = None \<and> session_id p = None \<and> error p = None"

lemma created_as_update [simp]: "created_as pid knd args (p\<lparr>phase := n, status := st\<rparr>) = created_as pid knd args p"
  by (simp add: created_as_def)

text \<open>What stays as it is while a pipeline is created.\<close>

definition others_kept :: "string \<Rightarrow> materialized_state \<Rightarrow> materialized_state \<Rightarrow> bool" where
  "others_kept pid a b \<longleftrightarrow> (\<forall>j. j \<noteq> pid \<longrightarrow>
     hm_get (pipelines b) j = hm_get (pipelines a) j \<and> hm_get (workspaces b) j = hm_get (workspaces a) j)"

lemma create_smooth:
  assumes h: "smooth_host (rc_host cfg)" and kd: "get_pipeline_def (rc_runbook cfg) knd = Some df"
    and fp: "first_phase df = Some fp" and i: "h_next_id (rc_host cfg) (rt_world r) = (pid, w)"
  shows "\<exists>v p d. create_pipeline cfg knd args r = start_phase cfg pid (ph_name fp) args d v \<and>
    hm_get (pipelines (rt_state v)) pid = Some p \<and> created_as pid knd args p \<and> phase p = ph_name fp \<and>
    hm_get (workspaces (rt_state v)) pid \<noteq> None \<and> others_kept pid (rt_state r) (rt_state v)"
proof -
  define nm where "nm = (case hm_get args ''name'' of Some n \<Rightarrow> n | None \<Rightarrow> pid)"
  define d where "d = path_join (rc_worktree_root cfg) nm"
  let ?u = "r\<lparr>rt_executor := (rt_executor r)\<lparr>ex_world := w\<rparr>\<rparr>"
  obtain v where v: "run_effects cfg (create_effects pid knd nm args d (ph_name fp)) ?u = (Inr [], v)"
    "applies [WorkspaceCreate pid d (''feature/'' @ nm), PipelineCreate pid knd nm args (ph_name fp)] ?u v"
    using run_effects_smooth [OF h smooth_effects(6), of pid knd nm args d "ph_name fp" ?u] by auto
  then obtain now where "hm_get (pipelines (rt_state v)) pid =
      Some (pipeline_new pid nm knd args (ph_name fp) now)" "hm_get (workspaces (rt_state v)) pid \<noteq> None"
    by (auto simp: applies_def)
  moreover have "created_as pid knd args (pipeline_new pid nm knd args (ph_name fp) now)"
    "phase (pipeline_new pid nm knd args (ph_name fp) now) = ph_name fp" for now
    by (simp_all add: pipeline_new_def created_as_def nm_def)
  moreover have "others_kept pid (rt_state r) (rt_state v)"
    using v(2) by (auto simp: others_kept_def applies_def)
  moreover have "create_pipeline cfg knd args r = start_phase cfg pid (ph_name fp) args d v"
    using v(1) i fp kd
    by (cases "start_phase cfg pid (ph_name fp) args d v"; cases "fst (start_phase cfg pid (ph_name fp) args d v)")
      (simp_all add: create_pipeline_def next_id_def comp_defs Let_def nm_def [symmetric] d_def [symmetric])
  ultimately show ?thesis by blast
qed

lemma create_task:
  assumes h: "smooth_host (rc_host cfg)" and ag: "agents_start cfg df" and tp: "task_pipeline df"
    and kd: "get_pipeline_def (rc_runbook cfg) knd = Some df"
    and i: "h_next_id (rc_host cfg) (rt_world r) = (pid, w)"
  shows "\<exists>p evs s. create_pipeline cfg knd args r = (Inr evs, s) \<and>
    started_in cfg df pid (phase p) evs \<and> on_way df pid p s \<and> status p = Running \<and>
    phase p = initial_phase df \<and> created_as pid knd args p \<and> others_kept pid (rt_state r) (rt_state s)"
proof -
  from tp obtain fp where fp: "first_phase df = Some fp"
    by (cases "pl_phases df") (auto simp: task_pipeline_def first_phase_def)
  then have g: "get_phase df (ph_name fp) = Some fp" by (rule get_first_phase)
  from create_smooth [OF h kd fp i, of args] obtain v q d where
    v: "create_pipeline cfg knd args r = start_phase cfg pid (ph_name fp) args d v"
    and q: "hm_get (pipelines (rt_state v)) pid = Some q" "created_as pid knd args q" "phase q = ph_name fp"
    and wv: "hm_get (workspaces (rt_state v)) pid \<noteq> None"
    and o: "others_kept pid (rt_state r) (rt_state v)" by blast
  have "get_pipeline_def (rc_runbook cfg) (kind q) = Some df" using kd q(2) by (simp add: created_as_def)
  from start_task [OF h ag tp this g q(1) wv, of args d] obtain evs s ops where
    s: "start_phase cfg pid (ph_name fp) args d v = (Inr evs, s)" "started_in cfg df pid (ph_name fp) evs"
    "applies (PhaseStatusUpdate pid Running # ops) v s" "ops = [] \<or> ops = [SessionCreate pid pid]" by blast
  let ?p = "q\<lparr>status := Running\<rparr>"
  have 1: "on_way df pid ?p s"
    using s(3,4) q wv g by (auto simp: on_way_def applies_def created_as_def)
  have 2: "others_kept pid (rt_state r) (rt_state s)"
    using s(3,4) o by (auto simp: others_kept_def applies_def)
  have 3: "phase ?p = ph_name fp" "initial_phase df = ph_name fp" "status ?p = Running"
    "created_as pid knd args ?p"
    using fp q by (simp_all add: initial_phase_def created_as_def)
  from v s(1,2) 1 2 3 show ?thesis by metis
qed

lemma command_runs:
  assumes h: "smooth_host (rc_host cfg)" and ag: "agents_start cfg df" and tp: "task_pipeline df"
    and cm: "get_command (rc_runbook cfg) command = Some cm" "cd_run cm = RunPipeline knd"
    and kd: "get_pipeline_def (rc_runbook cfg) knd = Some df"
    and i: "h_next_id (rc_host cfg) (rt_world (dm_runtime d)) = (pid, w)"
  shows "\<exists>d1 q t. process_event cfg (CommandInvoked command args) d = Some (Inr (), d1) \<and>
    hm_get (pipelines (rt_state (dm_runtime d1))) pid = Some q \<and> created_as pid knd args q \<and>
    rests df t q \<and> walks (rc_host cfg) df (initial_phase df) t \<and>
    others_kept pid (rt_state (dm_runtime d)) (rt_state (dm_runtime d1)) \<and>
    hm_get (workspaces (rt_state (dm_runtime d1))) pid \<noteq> None"
proof -
  let ?r = "dm_runtime d"
  from create_task [OF h ag tp kd i, of args] obtain p evs s where
    c: "create_pipeline cfg knd args ?r = (Inr evs, s)" and
    p: "started_in cfg df pid (phase p) evs" "on_way df pid p s" "status p = Running"
      "phase p = initial_phase df" "created_as pid knd args p" and
    other: "others_kept pid (rt_state ?r) (rt_state s)" by blast
  have e: "handle_event cfg (CommandInvoked command args) ?r = (Inr evs, s)"
    using cm c by (simp add: handle_event_def handle_command_def comp_defs)
  have "get_pipeline_def (rc_runbook cfg) (kind p) = Some df" using kd p(5) by (simp add: created_as_def)
  from process_started [OF h ag tp this p(1-3)] obtain u q t where
    u: "process_events cfg evs s = Some (Inr (), u)" "hm_get (pipelines (rt_state u)) pid = Some q"
      "rests df t q" "walks (rc_host cfg) df (phase p) t" "only_moves pid (rt_state s) (rt_state u)" by blast
  have "process_events cfg [CommandInvoked command args] ?r = Some (Inr (), u)"
    using e u(1) by (subst process_events.simps) simp
  then have 1: "process_event cfg (CommandInvoked command args) d = Some (Inr (), d\<lparr>dm_runtime := u\<rparr>)"
    by (simp add: process_event_def)
  have 2: "created_as pid knd args q" "hm_get (workspaces (rt_state u)) pid \<noteq> None"
    using u(2,5) p by (auto simp: only_moves_def on_way_def)
  have 3: "others_kept pid (rt_state ?r) (rt_state u)"
    using u(5) other by (simp add: only_moves_def others_kept_def)
  from 1 2 3 u p(4) show ?thesis
    by (intro exI [of _ "d\<lparr>dm_runtime := u\<rparr>"] exI [of _ q] exI [of _ t]) simp
qed

text \<open>The end of the work of an agent, reported by \<open>oj done\<close>.\<close>

fun agent_report :: "event \<Rightarrow> (string \<times> bool) option" where
  "agent_report (AgentDone i) = Some (i, True)"
| "agent_report (AgentError i _) = Some (i, False)"
| "agent_report _ = None"

lemma agent_event_goes_on:
  assumes h: "smooth_host (rc_host cfg)" and ag: "agents_start cfg df"
    and d: "get_pipeline_def (rc_runbook cfg) (kind p) = Some df" and tp: "task_pipeline df"
    and p: "on_way df pid p r" and look: "rt_get_pipeline r i = Some p" and e: "agent_report e = Some (i, good)"
  shows "goes_on cfg df pid p (leads_to df (phase p) good) r (handle_event cfg e)"
proof -
  have l: "lookup_pipeline i r = (Inr p, r)" using look by (simp add: lookup_pipeline_def comp_defs)
  show ?thesis
    using e advance_task [OF h ag d tp p] fail_task [OF h ag d tp p] l
    by (cases e) (auto simp: handle_event_def handle_agent_event_def bind_def goes_on_def ends_def moves_def)
qed

lemma agent_event_runs:
  assumes h: "smooth_host (rc_host cfg)" and ag: "agents_start cfg df"
    and kd: "get_pipeline_def (rc_runbook cfg) (kind p) = Some df" and tp: "task_pipeline df"
    and p: "on_way df pid p (dm_runtime d)" and look: "rt_get_pipeline (dm_runtime d) i = Some p"
    and e: "agent_report e = Some (i, good)"
  shows "\<exists>d1 q t. process_event cfg e d = Some (Inr (), d1) \<and>
    hm_get (pipelines (rt_state (dm_runtime d1))) pid = Some q \<and> rests df t q \<and>
    walks (rc_host cfg) df (leads_to df (phase p) good) t \<and>
    only_moves pid (rt_state (dm_runtime d)) (rt_state (dm_runtime d1))"
proof -
  from process_goes_on [OF h ag tp kd agent_event_goes_on [OF assms]] obtain u q t where
    "process_events cfg [e] (dm_runtime d) = Some (Inr (), u)" "hm_get (pipelines (rt_state u)) pid = Some q"
    "rests df t q" "walks (rc_host cfg) df (leads_to df (phase p) good) t"
    "only_moves pid (rt_state (dm_runtime d)) (rt_state u)" by blast
  then show ?thesis
    by (intro exI [of _ "d\<lparr>dm_runtime := u\<rparr>"] exI [of _ q] exI [of _ t]) (simp add: process_event_def)
qed

end
