(* ===== verification/Daemon_Life.thy ===== *)
theory Daemon_Life
  imports Workflow Lifecycle_Properties
begin

text \<open>
  The life of a daemon and of the daemons after it. Every turn of the main loop keeps the runtime
  within the reachable states of \<open>Runtime_Invariants\<close>, so what holds at every reachable moment holds of
  the running program; a daemon that starts on the log of the one before it goes on where that one
  stopped. Together they give the workflow of a pipeline across crashes and restarts.
\<close>

section \<open>The main loop only reaches\<close>

lemma reaches_trans: "reaches cfg s t \<Longrightarrow> reaches cfg r s \<Longrightarrow> reaches cfg r t"
  by (induction rule: reaches.induct) (auto intro: reaches.intros)

lemma process_events_reaches:
  assumes "process_events cfg pending r = Some (res, s)"
  shows "reaches cfg r s"
proof -
  have "case y of (res, s) \<Rightarrow> reaches cfg r s" if "process_events cfg pending r = Some y" for y
  proof (induction rule: process_events.raw_induct [OF _ that, consumes 0, case_names step])
    case (step f cfg pending r y)
    show ?case
    proof (cases "pending = []")
      case True
      with step.hyps show ?thesis by (auto intro: reaches.start)
    next
      case False
      obtain x u where h: "handle_event cfg (last pending) r = (x, u)" by fastforce
      then have u: "reaches cfg r u" using reaches.event [OF reaches.start, of cfg r "last pending"] by simp
      show ?thesis
      proof (cases x)
        case (Inl e)
        with step.hyps False h u show ?thesis by auto
      next
        case (Inr evs)
        with step.hyps False h have "f cfg (butlast pending @ evs) u = Some y" by simp
        from step.IH [OF this] show ?thesis using reaches_trans [OF _ u] by auto
      qed
    qed
  qed
  from this [OF assms] show ?thesis by simp
qed

lemma process_event_reaches:
  "process_event cfg e d = Some (res, d1) \<Longrightarrow> reaches cfg (dm_runtime d) (dm_runtime d1)"
  by (auto simp: process_event_def dest: process_events_reaches split: option.splits)

lemma set_world_reaches: "reaches cfg r (dm_runtime d) \<Longrightarrow> reaches cfg r (dm_runtime (set_world w d))"
  by (simp add: set_world_def reaches.outside)

lemma respond_reaches:
  "respond okay (process_event cfg e d) = Some (resp, d1) \<Longrightarrow> reaches cfg (dm_runtime d) (dm_runtime d1)"
  by (auto simp: respond_def dest: process_event_reaches split: option.splits sum.splits)

lemma handle_request_reaches:
  assumes "handle_request cfg v d req = Some (resp, d1)"
  shows "reaches cfg (dm_runtime d) (dm_runtime d1)"
proof (cases req)
  case (SessionSend i input)
  with assms show ?thesis
    by (cases "find_session (rt_state (dm_runtime d)) i") (auto intro: respond_reaches reaches.start)
next
  case StatusRequest
  with assms show ?thesis
    by (auto simp del: status_response_def intro: set_world_reaches reaches.start split: prod.splits)
next
  case (QueryRequest q)
  with assms show ?thesis by (auto simp del: handle_query.simps intro: reaches.start)
qed (use assms in \<open>auto intro: respond_reaches reaches.start\<close>)

lemma handle_connection_reaches:
  "handle_connection cfg c rt wt rd d = Some (res, out, d1) \<Longrightarrow>
   reaches cfg (dm_runtime d) (dm_runtime d1)"
  by (auto dest!: handle_connection_request intro: handle_request_reaches reaches.start)

lemma process_all_reaches:
  "process_all cfg es d = Some (res, d1) \<Longrightarrow> reaches cfg (dm_runtime d) (dm_runtime d1)"
proof (induction es arbitrary: d)
  case (Cons e es)
  then show ?case
    by (auto dest!: process_event_reaches Cons.IH intro: reaches_trans split: option.splits sum.splits)
qed (simp add: reaches.start)

lemma check_heartbeats_reaches:
  assumes "check_heartbeats cfg d = Some (res, d1)"
  shows "reaches cfg (dm_runtime d) (dm_runtime d1)"
proof -
  from assms obtain es w s where "process_all cfg es (set_world w d\<lparr>dm_scheduler := s\<rparr>) = Some (res, d1)"
    by (auto simp: check_heartbeats_def split: prod.splits)
  from process_all_reaches [OF this] show ?thesis
    using reaches_trans [OF _ set_world_reaches [OF reaches.start]] by simp
qed

lemma dispatch_session_events_reaches: "reaches cfg r (dispatch_session_events cfg es r)"
proof (induction es arbitrary: r)
  case (Cons e es)
  show ?case
    by (cases e) (auto intro: reaches_trans [OF Cons.IH] reaches.intros)
qed (simp add: reaches.start)

lemma run_session_check_reaches: "reaches cfg (dm_runtime d) (dm_runtime (run_session_check cfg tmux d))"
  by (auto simp: run_session_check_def Let_def split: prod.split
      intro: reaches_trans [OF dispatch_session_events_reaches] set_world_reaches reaches.start)

lemma loop_tick_reaches:
  assumes "loop_tick cfg tmux l = Some l1"
  shows "reaches cfg (dm_runtime (lp_daemon l)) (dm_runtime (lp_daemon l1))"
proof (cases "check_heartbeats cfg (lp_daemon l)")
  case (Some x)
  obtain res d where x: "x = (res, d)" by fastforce
  from Some x have w: "reaches cfg (dm_runtime (lp_daemon l)) (dm_runtime (set_world w d))" for w
    by (intro set_world_reaches check_heartbeats_reaches) simp
  with assms Some x reaches_trans [OF run_session_check_reaches w] show ?thesis
    by (auto simp: loop_tick_def split: prod.splits if_splits)
qed (use assms in \<open>simp add: loop_tick_def\<close>)

lemma shutdown_reaches: "reaches cfg r (dm_runtime d) \<Longrightarrow> reaches cfg r (dm_runtime (shutdown os d))"
  by (simp add: shutdown_def Let_def set_world_reaches)

lemma loop_step_reaches:
  assumes "loop_step os cfg c tmux inp l = Some (stop, l1)"
  shows "reaches cfg (dm_runtime (lp_daemon l)) (dm_runtime (lp_daemon l1))"
  using assms
  by (cases inp) (auto simp: loop_step_def
        shutdown_reaches [OF reaches.start]
      dest!: handle_connection_reaches process_event_reaches loop_tick_reaches
      intro: shutdown_reaches reaches.start split: option.splits prod.splits if_splits bool.splits)

lemma daemon_runs_reaches:
  "daemon_runs os cfg c tmux l l1 \<Longrightarrow> reaches cfg (dm_runtime (lp_daemon l)) (dm_runtime (lp_daemon l1))"
proof (induction rule: daemon_runs.induct)
  case (loop_turn l l1 inp l2)
  then show ?case using loop_step_reaches reaches_trans by blast
next
  case (loop_outside l l1 w)
  then show ?case by (simp add: set_world_reaches)
qed (simp add: reaches.start)

section \<open>Generations of daemons\<close>

text \<open>A daemon serves for a while; the one after it starts on the log it left. It may have been shut down, or
  killed: at any moment on its way from one state of its runtime to another, in the middle of an event
  and of processing that would never have returned, between any two lines it writes to the log. What is
  excluded is a write that leaves a part of a line, after which no daemon starts
  (\<open>torn_write_breaks_replay\<close>). The outside world, the host and the paths may be others each time; the
  runbook is the same.\<close>

definition log_left :: "'w os \<Rightarrow> path \<Rightarrow> string \<Rightarrow> bool" where
  "log_left os p t \<longleftrightarrow> (\<forall>w u w1. os_open_log os p w = (Inr u, w1) \<longrightarrow>
     u = t \<and> os_read_file os p w1 = Inr t)"

abbreviation runtime_log :: "'w runtime \<Rightarrow> string" where
  "runtime_log r \<equiv> wal_file (ex_wal (rt_executor r))"

inductive lineage :: "(string \<Rightarrow> string + wal_entry) \<Rightarrow> runbook \<Rightarrow> 'w runtime \<Rightarrow> 'w runtime \<Rightarrow> bool"
  for de rb r where
  present: "lineage de rb r r"
| serves: "lineage de rb r (dm_runtime (lp_daemon l)) \<Longrightarrow> rc_runbook cfg = rb \<Longrightarrow>
    reliable_log de (rc_host cfg) \<Longrightarrow> daemon_runs os cfg c tmux l l1 \<Longrightarrow>
    lineage de rb r (dm_runtime (lp_daemon l1))"
| restarts: "lineage de rb r s \<Longrightarrow> rc_runbook cfg = rb \<Longrightarrow> reliable_log de (rc_host cfg) \<Longrightarrow>
    reaches cfg s u \<Longrightarrow> log_cut (runtime_log s) t (runtime_log u) \<Longrightarrow>
    os_de os = de \<Longrightarrow> log_left os (dc_wal_path dc) t \<Longrightarrow>
    startup os base run dc w = (Inr (cfg1, d), w1) \<Longrightarrow> lineage de rb r (dm_runtime d)"

text \<open>What a generation hands on.\<close>

definition sound_runtime :: "(string \<Rightarrow> string + wal_entry) \<Rightarrow> 'w runtime \<Rightarrow> bool" where
  "sound_runtime de r \<longleftrightarrow> log_tells_state de (rt_executor r) \<and> state_wf (rt_state r) \<and> unlinked (rt_state r)"

lemma untimed_get:
  assumes "untimed a = untimed b" and "hm_get (pipelines b) i = Some q"
  obtains p where "hm_get (pipelines a) i = Some p" "untime p = untime q"
proof -
  have "map_option untime (hm_get (pipelines a) i) = map_option untime (hm_get (pipelines b) i)"
    using arg_cong [OF assms(1), of "\<lambda>s. hm_get (pipelines s) i"] by (simp add: untimed_def)
  with assms(2) that show ?thesis by (auto simp: map_option_eq_Some)
qed

lemma untimed_parts:
  assumes "untimed a = untimed b"
  shows "sessions a = sessions b" "workspaces a = workspaces b" "map fst (pipelines a) = map fst (pipelines b)"
  using arg_cong [OF assms, of sessions] arg_cong [OF assms, of workspaces]
    arg_cong [OF assms, of "\<lambda>s. map fst (pipelines s)"]
  by (simp_all add: untimed_def hm_map_def case_prod_unfold comp_def)

lemma untime_fields:
  assumes "untime p = untime q"
  shows "id p = id q" "name p = name q" "kind p = kind q" "phase p = phase q" "status p = status q"
    "inputs p = inputs q" "session_id p = session_id q" "error p = error q"
  using assms by (cases p, cases q, simp add: untime_def)+

lemma untime_continues: "untime p = untime q \<Longrightarrow> continues rb p q"
  using untime_fields [of p q] by (simp add: continues_def)

lemma untimed_follows:
  assumes "untimed a = untimed b"
  shows "follows rb a b"
  unfolding follows_def
proof (intro allI impI disjI1)
  fix i q
  assume "hm_get (pipelines b) i = Some q"
  from untimed_get [OF assms this] untime_continues
  show "\<exists>p. hm_get (pipelines a) i = Some p \<and> continues rb p q" by blast
qed

lemma serves_sound:
  assumes "reaches cfg r s" and "reliable_log de (rc_host cfg)" and "sound_runtime de r"
  shows "sound_runtime de s" and "cuts_grow de (rc_runbook cfg) (rt_executor r) (rt_executor s)"
proof -
  from assms(3) have r: "log_tells_state de (rt_executor r)" "state_wf (rt_state r)" "unlinked (rt_state r)"
    by (simp_all add: sound_runtime_def)
  show c: "cuts_grow de (rc_runbook cfg) (rt_executor r) (rt_executor s)"
    by (rule reaches_cuts [OF assms(1,2) r])
  with wf_rt.reaches_I [OF assms(1) r(2)] unlinked_rt.reaches_I [OF assms(1) r(3)]
  show "sound_runtime de s" by (simp add: sound_runtime_def cuts_grow_def)
qed

lemma apply_replayed_sound:
  "state_wf st \<Longrightarrow> unlinked st \<Longrightarrow>
   state_wf (fst (apply_replayed now ops st w)) \<and> unlinked (fst (apply_replayed now ops st w))"
  by (induction ops arbitrary: st w) (auto simp: apply_op_wf apply_op_unlinked split: prod.split)

lemma startup_state:
  assumes "startup os base run c w = (Inr (cfg, d), w1)"
  shows "state_wf (rt_state (dm_runtime d))" and "unlinked (rt_state (dm_runtime d))"
proof -
  from assms obtain l st u v where i: "startup_inner os base run c w = (Inr (cfg, l, st), u)"
    and d: "dm_runtime d = runtime_new l st v"
    by (auto simp: startup_def split: prod.splits sum.splits)
  from startup_inner_replays [OF i] obtain y y1 where
    "replay_state os (h_now base) (dc_wal_path c) y = (Inr (l, st), y1)" by blast
  then obtain ops z where r: "apply_replayed (h_now base) ops state_default z = (st, y1)"
    by (auto simp: replay_state_def split: prod.splits sum.splits)
  from apply_replayed_sound [OF state_wf_default unlinked_default, of "h_now base" ops z] d
  show "state_wf (rt_state (dm_runtime d))" and "unlinked (rt_state (dm_runtime d))"
    by (simp_all add: r runtime_new_def)
qed

text \<open>A daemon that starts on a text takes over the state that the text tells.\<close>

lemma startup_text:
  assumes "text_tells de t st" and "os_de os = de" and "log_left os (dc_wal_path c) t"
    and "startup os base run c w = (Inr (cfg, d), w')"
  shows "untimed (rt_state (dm_runtime d)) = untimed st" and "sound_runtime de (dm_runtime d)"
proof -
  let ?r = "\<lparr>rt_executor = \<lparr>ex_wal = \<lparr>wal_file = t, wal_sequence = 0\<rparr>, ex_state = st,
    ex_scheduler = scheduler_new, ex_world = w\<rparr>, rt_watchers = []\<rparr>"
  have 1: "log_tells_state (os_de os) (rt_executor ?r)" using assms(1,2) by (simp add: log_tells_text)
  have 2: "u = wal_file (ex_wal (rt_executor ?r)) \<and> os_read_file os (dc_wal_path c) w1 = Inr u"
    if "os_open_log os (dc_wal_path c) v = (Inr u, w1)" for v u w1
    using assms(3) that by (auto simp: log_left_def)
  note s = startup_tells [OF 1 2 assms(4)]
  from s(1) show "untimed (rt_state (dm_runtime d)) = untimed st" by simp
  from s(2) assms(2) startup_state [OF assms(4)] show "sound_runtime de (dm_runtime d)"
    by (simp add: sound_runtime_def)
qed

lemma untimed_grows:
  assumes "untimed a = untimed b"
  shows "grows rb a b"
proof -
  have "map_option untime (hm_get (pipelines a) i) = map_option untime (hm_get (pipelines b) i)" for i
    using arg_cong [OF assms, of "\<lambda>s. hm_get (pipelines s) i"] by (simp add: untimed_def)
  then have "hm_get (pipelines a) i \<noteq> None \<longrightarrow> hm_get (pipelines b) i \<noteq> None" for i
    by (metis option.map_disc_iff)
  with untimed_follows [OF assms] show ?thesis by (simp add: grows_def)
qed

lemma lineage_grows:
  "lineage de rb r s \<Longrightarrow> sound_runtime de r \<Longrightarrow> sound_runtime de s \<and> grows rb (rt_state r) (rt_state s)"
proof (induction rule: lineage.induct)
  case (serves l cfg os c tmux l1)
  then have "sound_runtime de (dm_runtime (lp_daemon l))" by blast
  with serves_sound [OF daemon_runs_reaches [OF serves.hyps(4)]] serves show ?case
    by (auto simp: cuts_grow_def intro: grows_trans)
next
  case (restarts s cfg u t os dc base run w cfg1 d w1)
  then have s: "sound_runtime de s" "grows rb (rt_state r) (rt_state s)" by blast+
  from serves_sound(2) [OF restarts.hyps(4,3) s(1)] restarts.hyps(2,5) obtain st where
    st: "text_tells de t st" "grows rb (rt_state s) st" by (auto simp: cuts_grow_def)
  from startup_text [OF st(1) restarts.hyps(6,7,8)]
  have "sound_runtime de (dm_runtime d)" and "grows rb st (rt_state (dm_runtime d))"
    by (auto intro: untimed_grows)
  with s(2) st(2) show ?case by (blast intro: grows_trans)
qed (simp add: grows_refl)

section \<open>Properties\<close>

text \<open>C2: the workflow of a pipeline survives crashes and restarts. Over any number of daemons that
  serve on the same log, each starting on what the one before it left, whether that one was shut down
  or killed between any two lines it wrote to the log, in the middle of an event or not: the log tells
  the state, no pipeline is lost, and every pipeline has got to its phase and status by edges of the
  runbook, from where it was at first or from the first phase of its definition. The lines are written
  whole or not at all, and the JSON library reads back what it wrote; \<open>torn_write_breaks_replay\<close> shows
  what a part of a line does.\<close>

theorem workflow_survives_restarts:
  assumes "lineage de rb r s" and "log_tells_state de (rt_executor r)"
    and "state_wf (rt_state r)" and "unlinked (rt_state r)"
  shows "log_tells_state de (rt_executor s) \<and>
    (\<forall>i p. hm_get (pipelines (rt_state r)) i = Some p \<longrightarrow>
      (\<exists>q. hm_get (pipelines (rt_state s)) i = Some q \<and> (continues rb p q \<or> started rb q))) \<and>
    (\<forall>i q. hm_get (pipelines (rt_state r)) i = None \<longrightarrow>
      hm_get (pipelines (rt_state s)) i = Some q \<longrightarrow> started rb q)"
proof -
  have r: "sound_runtime de r" using assms by (simp add: sound_runtime_def)
  from lineage_grows [OF assms(1) r] have s: "log_tells_state de (rt_executor s)"
    and f: "follows rb (rt_state r) (rt_state s)"
    and k: "\<And>i. hm_get (pipelines (rt_state r)) i \<noteq> None \<Longrightarrow> hm_get (pipelines (rt_state s)) i \<noteq> None"
    by (auto simp: sound_runtime_def grows_def)
  have "\<exists>q. hm_get (pipelines (rt_state s)) i = Some q \<and> (continues rb p q \<or> started rb q)"
    if "hm_get (pipelines (rt_state r)) i = Some p" for i p
    using k [of i] that f unfolding follows_def by fastforce
  with s f show ?thesis unfolding follows_def by fastforce
qed

definition entry_host :: "files host" where
  "entry_host = file_host\<lparr>h_ser := num_ser\<rparr>"

lemma entry_host_reliable: "reliable_log num_de entry_host"
  using num_codec by (simp add: reliable_log_def entry_host_def file_host_def)

theorem workflow_survives_restarts_witness:
  "\<exists>x cfg d w p q. execute entry_host (Persist (PipelineCreate ''p'' ''build'' ''n'' [] ''init''))
      (empty_executor \<lparr>fl_content = [], fl_locked = [], fl_time = 3\<rparr>) = (Inr None, x) \<and>
    startup (log_os (wal_file (ex_wal x))) file_host no_commands demo_paths
      \<lparr>fl_content = [], fl_locked = [], fl_time = 0\<rparr> = (Inr (cfg, d), w) \<and>
    hm_get (pipelines (ex_state x)) ''p'' = Some p \<and>
    hm_get (pipelines (rt_state (dm_runtime d))) ''p'' = Some q \<and>
    (continues demo_runbook p q \<or> started demo_runbook q)"
proof -
  let ?op = "PipelineCreate ''p'' ''build'' ''n'' [] ''init''"
  let ?e = "empty_executor \<lparr>fl_content = [], fl_locked = [], fl_time = 3\<rparr>"
  obtain x where x: "execute entry_host (Persist ?op) ?e = (Inr None, x)"
    by (simp add: execute_def exec_defs comp_defs entry_host_def file_host_def wal_append_def num_ser_def
        empty_executor_def)
  have told: "log_tells_state num_de x"
    by (rule log_tells_state_append [OF entry_host_reliable empty_executor_log x])
  then obtain ops where "wal_replay num_de (Inr (wal_file (ex_wal x))) = Inr ops"
    by (auto simp: log_tells_state_def log_holds_def)
  from startup_on_log [OF this] obtain cfg d w where
    s: "startup (log_os (wal_file (ex_wal x))) file_host no_commands demo_paths
      \<lparr>fl_content = [], fl_locked = [], fl_time = 0\<rparr> = (Inr (cfg, d), w)" by blast
  let ?r = "\<lparr>rt_executor = x, rt_watchers = []\<rparr>"
  have left: "log_left (log_os (wal_file (ex_wal x))) (dc_wal_path demo_paths) (wal_file (ex_wal x))"
    by (simp add: log_left_def)
  let ?cfg = "\<lparr>rc_host = entry_host, rc_runbook = demo_runbook, rc_project_root = ''/p'', rc_worktree_root = ''/w''\<rparr>"
  have "log_cut (runtime_log ?r) (wal_file (ex_wal x)) (runtime_log ?r)"
    using told by (simp add: log_cut_def log_tells_text text_tells_def)
  from lineage.restarts [OF lineage.present _ _ reaches.start this _ left s, where de = num_de and rb = demo_runbook and cfg = ?cfg]
  have l: "lineage num_de demo_runbook ?r (dm_runtime d)" by (simp add: entry_host_reliable)
  obtain now where st: "ex_state x = apply_op now ?op state_default"
    using execute_persist [OF x] by (auto simp: empty_executor_def)
  have 1: "state_wf (rt_state ?r)" "unlinked (rt_state ?r)"
    using apply_op_wf [OF state_wf_default, of now ?op]
      apply_op_unlinked [OF unlinked_default, of now ?op] by (simp_all only: st runtime.simps)
  obtain p where "hm_get (pipelines (ex_state x)) ''p'' = Some p" using st by simp
  with workflow_survives_restarts [OF l _ 1] told x s show ?thesis by fastforce
qed

end
