(* ===== verification/Pipeline_Rest.thy ===== *)
theory Pipeline_Rest
  imports Pipeline_Runs Daemon_Life
begin

text \<open>
  No pipeline is left in the middle: on a host that works, every event leaves every pipeline either
  ended or at an agent.
\<close>

section \<open>States in which nothing is left to do\<close>

definition at_rest :: "runbook \<Rightarrow> pipeline \<Rightarrow> bool" where
  "at_rest rb p \<longleftrightarrow> terminal (phase p) \<or> agent_phase rb (kind p) (phase p)"

definition settled :: "runbook \<Rightarrow> materialized_state \<Rightarrow> bool" where
  "settled rb st \<longleftrightarrow> (\<forall>pid p. hm_get (pipelines st) pid = Some p \<longrightarrow>
     id p = pid \<and> session_id p = None \<and> workspace_path p = None \<and>
     hm_get (workspaces st) pid \<noteq> None \<and> at_rest rb p)"

definition task_runbook :: "'w runtime_config \<Rightarrow> bool" where
  "task_runbook cfg \<longleftrightarrow>
     (\<forall>knd df. get_pipeline_def (rc_runbook cfg) knd = Some df \<longrightarrow> task_pipeline df \<and> agents_start cfg df)"

lemma settledD:
  "settled rb st \<Longrightarrow> hm_get (pipelines st) pid = Some p \<Longrightarrow>
   id p = pid \<and> session_id p = None \<and> workspace_path p = None \<and> hm_get (workspaces st) pid \<noteq> None \<and> at_rest rb p"
  by (simp add: settled_def)

lemma rests_at_rest: "get_pipeline_def rb (kind q) = Some df \<Longrightarrow> rests df t q \<Longrightarrow> at_rest rb q"
  by (auto simp: rests_def ended_def at_rest_def agent_phase_def is_agent_def)

lemma settled_moves:
  assumes "settled rb a" and "only_moves pid a b" and p: "hm_get (pipelines a) pid = Some p"
    and "hm_get (pipelines b) pid = Some q" and "at_rest rb q"
  shows "settled rb b"
  unfolding settled_def
proof (intro allI impI)
  fix j u
  assume u: "hm_get (pipelines b) j = Some u"
  show "id u = j \<and> session_id u = None \<and> workspace_path u = None \<and> hm_get (workspaces b) j \<noteq> None \<and> at_rest rb u"
  proof (cases "j = pid")
    case True
    with u assms settledD [OF assms(1) p] show ?thesis by (auto simp: only_moves_def)
  next
    case False
    with u assms(2) have "hm_get (pipelines a) j = Some u" by (simp add: only_moves_def)
    with settledD [OF assms(1) this] assms(2) show ?thesis by (simp add: only_moves_def)
  qed
qed

text \<open>An event that is over when it has been handled.\<close>

lemma process_alone:
  assumes "handle_event cfg e r = (res, s)" and "\<And>evs. res = Inr evs \<Longrightarrow> evs = []"
  shows "\<exists>x. process_events cfg [e] r = Some (x, s)"
  using assms by (subst process_events.simps) (cases res; auto simp: process_events.simps)

text \<open>The pipeline ends or stays ended.\<close>

definition stays_ended :: "string \<Rightarrow> 'w runtime \<Rightarrow> ('w, event list) handler \<Rightarrow> bool" where
  "stays_ended pid r m \<longleftrightarrow>
     (\<exists>s q. m r = (Inr [], s) \<and> hm_get (pipelines (rt_state s)) pid = Some q \<and> terminal (phase q) \<and>
        only_moves pid (rt_state r) (rt_state s))"

section \<open>Pipelines that have ended\<close>

lemma terminal_advances:
  assumes h: "smooth_host (rc_host cfg)" and p: "hm_get (pipelines (rt_state r)) (id p) = Some p"
    and s: "session_id p = None" and t: "is_terminal p"
  shows "stays_ended (id p) r (advance_pipeline cfg p)"
proof -
  obtain u where u: "complete_pipeline cfg p r = (Inr [], u)" "applies (persisted (completion_effects p)) r u"
    using run_effects_smooth [OF h smooth_effects(5) [OF s], of r] by (auto simp: complete_pipeline_def)
  have a: "applies [PhaseStatusUpdate (id p) Completed] r u"
    using u(2) s t by simp
  have "only_moves (id p) (rt_state r) (rt_state u)"
    by (rule only_moves_applies [OF a]) (simp add: move_of_def)
  moreover have "hm_get (pipelines (rt_state u)) (id p) = Some (p\<lparr>status := Completed\<rparr>)"
    using a p by (auto simp: applies_def)
  ultimately show ?thesis using u(1) t by (simp add: stays_ended_def is_terminal_iff advance_pipeline_def)
qed

lemma unnamed_fails:
  assumes h: "smooth_host (rc_host cfg)" and p: "hm_get (pipelines (rt_state r)) (id p) = Some p"
    and o: "on_fail_phase (rc_runbook cfg) p = None"
  shows "stays_ended (id p) r (fail_pipeline cfg p err)"
proof -
  obtain s where s: "run_effects cfg (failure_effects p err) r = (Inr [], s)"
    "applies [PipelineTransition (id p) ''failed''] r s"
    using run_effects_smooth [OF h smooth_effects(4), of p err r] by auto
  have "only_moves (id p) (rt_state r) (rt_state s)"
    by (rule only_moves_applies [OF s(2)]) (simp add: move_of_def)
  moreover have "hm_get (pipelines (rt_state s)) (id p) = Some (p\<lparr>phase := ''failed'', status := Pending\<rparr>)"
    using s(2) p by (auto simp: applies_def)
  ultimately show ?thesis using s(1) o by (simp add: stays_ended_def terminal_def fail_pipeline_def)
qed

text \<open>What the handlers do with a pipeline at rest when they advance or fail it.\<close>

lemma settled_step:
  assumes h: "smooth_host (rc_host cfg)" and tr: "task_runbook cfg"
    and st: "settled (rc_runbook cfg) (rt_state r)" and p: "hm_get (pipelines (rt_state r)) pid = Some p"
    and e: "handle_event cfg e r = (if good then advance_pipeline cfg p r else fail_pipeline cfg p err r)"
  shows "\<exists>x s. process_events cfg [e] r = Some (x, s) \<and> settled (rc_runbook cfg) (rt_state s)"
proof -
  from settledD [OF st p] have i: "id p = pid" "session_id p = None" "hm_get (workspaces (rt_state r)) pid \<noteq> None"
    and r: "at_rest (rc_runbook cfg) p" by auto
  have pi: "hm_get (pipelines (rt_state r)) (id p) = Some p" using p i by simp
  show ?thesis
  proof (cases "terminal (phase p)")
    case True
    have "on_fail_phase (rc_runbook cfg) p = None"
      using tr terminal_not_named [OF _ True]
      by (auto simp: task_runbook_def on_fail_phase_def get_phase_None [symmetric] split: option.split)
    with terminal_advances [OF h pi i(2)] unnamed_fails [OF h pi, of err] True
    have "stays_ended pid r (handle_event cfg e)"
      using e by (auto simp: stays_ended_def is_terminal_iff i(1))
    then obtain s q where s: "handle_event cfg e r = (Inr [], s)"
      "hm_get (pipelines (rt_state s)) pid = Some q" "terminal (phase q)"
      "only_moves pid (rt_state r) (rt_state s)" by (auto simp: stays_ended_def)
    have "process_events cfg [e] r = Some (Inr (), s)"
      using s(1) by (subst process_events.simps) (simp add: process_events.simps)
    moreover have "at_rest (rc_runbook cfg) q" using s(3) by (simp add: at_rest_def)
    ultimately show ?thesis using settled_moves [OF st s(4) p s(2)] by blast
  next
    case False
    with r obtain df where df: "get_pipeline_def (rc_runbook cfg) (kind p) = Some df" "get_phase df (phase p) \<noteq> None"
      by (auto simp: at_rest_def agent_phase_def split: option.splits bind_splits)
    with tr have tp: "task_pipeline df" and ag: "agents_start cfg df" by (auto simp: task_runbook_def)
    have ow: "on_way df pid p r" using p i df(2) by (simp add: on_way_def)
    have "goes_on cfg df pid p (leads_to df (phase p) good) r (handle_event cfg e)"
      using e advance_task [OF h ag df(1) tp ow] fail_task [OF h ag df(1) tp ow, of err]
      by (cases good) (auto simp: goes_on_def ends_def moves_def)
    from process_goes_on [OF h ag tp df(1) this] obtain s q t where
      s: "process_events cfg [e] r = Some (Inr (), s)" "hm_get (pipelines (rt_state s)) pid = Some q"
        "rests df t q" "only_moves pid (rt_state r) (rt_state s)" by blast
    have "kind q = kind p" using s(2,4) p by (auto simp: only_moves_def)
    with rests_at_rest [OF _ s(3)] df(1) have "at_rest (rc_runbook cfg) q" by simp
    from settled_moves [OF st s(4) p s(2) this] s(1) show ?thesis by blast
  qed
qed

section \<open>The other events\<close>

lemma execute_state:
  "execute h (Send sid i) x = (res, y) \<Longrightarrow> ex_state y = ex_state x"
  "execute h (SetTimer i dur) x = (res, y) \<Longrightarrow> ex_state y = ex_state x"
  by (auto simp: execute_def exec_defs comp_defs split: prod.splits sum.splits)

lemma run_effect_same:
  "run_effect cfg (Send sid i) r = (res, s) \<Longrightarrow> rt_state s = rt_state r"
  "run_effect cfg (SetTimer i dur) r = (res, s) \<Longrightarrow> rt_state s = rt_state r"
  by (auto simp: run_effect_def on_executor_def map_err_def on_part_def dest: execute_state
      split: prod.splits sum.splits)

lemma run_effect_persists:
  assumes "smooth_host (rc_host cfg)"
  shows "\<exists>s now. run_effect cfg (Persist op) r = (Inr None, s) \<and> rt_state s = apply_op now op (rt_state r)"
proof -
  from execute_smooth [OF assms, of "Persist op" "rt_executor r"] obtain y where
    y: "execute (rc_host cfg) (Persist op) (rt_executor r) = (Inr None, y)" by auto
  from execute_persist [OF y] y show ?thesis
    by (auto simp: run_effect_def on_executor_def map_err_def on_part_def)
qed

lemma status_settled:
  assumes "settled rb st" and p: "hm_get (pipelines st) pid = Some p"
  shows "settled rb (apply_op now (PhaseStatusUpdate pid x) st)"
proof -
  have "only_moves pid st (apply_op now (PhaseStatusUpdate pid x) st)"
    by (rule only_moves_op) (simp add: move_of_def)
  moreover have "hm_get (pipelines (apply_op now (PhaseStatusUpdate pid x) st)) pid = Some (p\<lparr>status := x\<rparr>)"
    using p by simp
  moreover have "at_rest rb (p\<lparr>status := x\<rparr>)" using settledD [OF assms] by (simp add: at_rest_def)
  ultimately show ?thesis using settled_moves [OF assms(1) _ p] by blast
qed

lemma bind_ok_or: "bind (ok_or e None) f r = (Inl e, r)" "bind (ok_or e (Some x)) f r = f x r"
  by (simp_all add: comp_defs)

lemma custom_settled:
  assumes h: "smooth_host (rc_host cfg)" and wf: "state_wf (rt_state r)"
    and st: "settled (rc_runbook cfg) (rt_state r)"
  shows "settled (rc_runbook cfg) (rt_state (snd (handle_custom_event cfg nm data r)))"
proof -
  have resume: "settled (rc_runbook cfg) (rt_state (snd (bind (lookup_pipeline pid) (\<lambda>p.
      bind (run_effect cfg (Persist (PhaseStatusUpdate (id p) Running))) (\<lambda>_.
      bind (run_effect cfg (SetTimer (check_timer (id p)) (from_secs 10))) (\<lambda>_. ok []))) r)))"
    (is "settled _ (rt_state (snd (?resume r)))") for pid
  proof (cases "rt_get_pipeline r pid")
    case None
    with st show ?thesis by (simp add: lookup_pipeline_def comp_defs)
  next
    case (Some p)
    then have l: "lookup_pipeline pid r = (Inr p, r)" by (simp add: lookup_pipeline_def comp_defs)
    from lookup_key(2) [OF wf l] have p: "hm_get (pipelines (rt_state r)) (id p) = Some p" .
    obtain s now where s: "run_effect cfg (Persist (PhaseStatusUpdate (id p) Running)) r = (Inr None, s)"
      "rt_state s = apply_op now (PhaseStatusUpdate (id p) Running) (rt_state r)"
      using run_effect_persists [OF h] by blast
    obtain x t where t: "run_effect cfg (SetTimer (check_timer (id p)) (from_secs 10)) s = (x, t)" by fastforce
    have "snd (?resume r) = t" using l s(1) t by (cases x) (simp_all add: comp_defs)
    with run_effect_same(2) [OF t] s(2) status_settled [OF st p] show ?thesis by simp
  qed
  have send: "rt_state (snd (bind (run_effect cfg (Send sid i)) (\<lambda>_. ok ([] :: event list)) r)) = rt_state r" for sid i
    using run_effect_same(1) [of cfg sid i r]
    by (cases "run_effect cfg (Send sid i) r"; cases "fst (run_effect cfg (Send sid i) r)")
      (auto simp: comp_defs)
  have "nm = ''session:send'' \<or> nm = ''pipeline:resume'' \<or> handle_custom_event cfg nm data = ok []"
    by (simp add: handle_custom_event_def)
  then show ?thesis
  proof (elim disjE)
    assume "nm = ''session:send''"
    with st send show ?thesis
      by (cases "json_str_field data ''session_id''"; cases "json_str_field data ''input''")
        (simp_all only: handle_custom_event_def bind_ok_or refl if_True snd_conv)
  next
    assume "nm = ''pipeline:resume''"
    then have "handle_custom_event cfg nm data = bind
        (ok_or (PipelineNotFound ''missing pipeline_id'') (json_str_field data ''pipeline_id''))
        (\<lambda>pid. bind (lookup_pipeline pid) (\<lambda>p.
      bind (run_effect cfg (Persist (PhaseStatusUpdate (id p) Running))) (\<lambda>_.
      bind (run_effect cfg (SetTimer (check_timer (id p)) (from_secs 10))) (\<lambda>_. ok []))))"
      by (simp add: handle_custom_event_def)
    with st resume show ?thesis
      by (cases "json_str_field data ''pipeline_id''") (simp_all only: bind_ok_or snd_conv)
  qed (use st in \<open>simp add: ok_def\<close>)
qed

text \<open>The timers that monitor agents find no workspace.\<close>

lemma timer_nothing:
  assumes wf: "state_wf (rt_state r)" and st: "settled rb (rt_state r)"
  shows "snd (handle_timer cfg i r) = r" and "handle_timer cfg i r = (Inr evs, s) \<Longrightarrow> evs = []"
proof -
  have "snd (handle_session_monitor cfg pid r) = r \<and>
      (\<forall>evs s. handle_session_monitor cfg pid r = (Inr evs, s) \<longrightarrow> evs = [])" for pid
  proof (cases "rt_get_pipeline r pid")
    case (Some p)
    then have l: "lookup_pipeline pid r = (Inr p, r)" by (simp add: lookup_pipeline_def comp_defs)
    from settledD [OF st lookup_key(2) [OF wf l]] have "workspace_path p = None" by blast
    with l show ?thesis
      by (cases "get_agent_def (rc_runbook cfg) p") (auto simp: handle_session_monitor_def comp_defs)
  qed (simp add: handle_session_monitor_def lookup_pipeline_def comp_defs)
  then show "snd (handle_timer cfg i r) = r" and "handle_timer cfg i r = (Inr evs, s) \<Longrightarrow> evs = []"
    by (auto simp: handle_timer_def ok_def split: if_splits)
qed

text \<open>A command: it is refused, or its pipeline runs.\<close>

lemma command_settled:
  assumes h: "smooth_host (rc_host cfg)" and tr: "task_runbook cfg"
    and st: "settled (rc_runbook cfg) (rt_state (dm_runtime d))"
  shows "\<exists>x d1. process_event cfg (CommandInvoked command args) d = Some (x, d1) \<and>
    settled (rc_runbook cfg) (rt_state (dm_runtime d1))"
proof (cases "\<exists>cm knd df. get_command (rc_runbook cfg) command = Some cm \<and> cd_run cm = RunPipeline knd \<and>
    get_pipeline_def (rc_runbook cfg) knd = Some df")
  case True
  then obtain cm knd df where cm: "get_command (rc_runbook cfg) command = Some cm" "cd_run cm = RunPipeline knd"
    and kd: "get_pipeline_def (rc_runbook cfg) knd = Some df" by blast
  with tr have tp: "task_pipeline df" and ag: "agents_start cfg df" by (auto simp: task_runbook_def)
  obtain pid w where i: "h_next_id (rc_host cfg) (rt_world (dm_runtime d)) = (pid, w)" by fastforce
  from command_runs [OF h ag tp cm kd i, of args] obtain d1 q t where
    run: "process_event cfg (CommandInvoked command args) d = Some (Inr (), d1)"
    and q: "hm_get (pipelines (rt_state (dm_runtime d1))) pid = Some q" "created_as pid knd args q"
    and t: "rests df t q" and k: "others_kept pid (rt_state (dm_runtime d)) (rt_state (dm_runtime d1))"
      "hm_get (workspaces (rt_state (dm_runtime d1))) pid \<noteq> None" by blast
  from q(2) kd rests_at_rest [OF _ t] have r: "at_rest (rc_runbook cfg) q" by (simp add: created_as_def)
  have "settled (rc_runbook cfg) (rt_state (dm_runtime d1))"
    unfolding settled_def
  proof (intro allI impI)
    fix j u
    assume u: "hm_get (pipelines (rt_state (dm_runtime d1))) j = Some u"
    show "id u = j \<and> session_id u = None \<and> workspace_path u = None \<and>
      hm_get (workspaces (rt_state (dm_runtime d1))) j \<noteq> None \<and> at_rest (rc_runbook cfg) u"
    proof (cases "j = pid")
      case True
      with u q r k(2) show ?thesis by (auto simp: created_as_def)
    next
      case False
      with u k(1) have "hm_get (pipelines (rt_state (dm_runtime d))) j = Some u"
        by (simp add: others_kept_def)
      from settledD [OF st this] k(1) False show ?thesis by (simp add: others_kept_def)
    qed
  qed
  with run show ?thesis by blast
next
  case False
  have "\<exists>err. handle_event cfg (CommandInvoked command args) (dm_runtime d) = (Inl err, dm_runtime d)"
  proof (cases "get_command (rc_runbook cfg) command")
    case (Some cm)
    with False show ?thesis
      by (cases "cd_run cm") (auto simp: handle_event_def handle_command_def create_pipeline_def comp_defs)
  qed (simp add: handle_event_def handle_command_def comp_defs)
  then obtain err where "handle_event cfg (CommandInvoked command args) (dm_runtime d) = (Inl err, dm_runtime d)" ..
  from process_alone [OF this] st show ?thesis by (fastforce simp: process_event_def)
qed

section \<open>Every event\<close>

lemma settled_sessions:
  "state_wf st \<Longrightarrow> settled rb st \<Longrightarrow> hm_find (\<lambda>p. session_id p = Some sid) (pipelines st) = None"
  by (auto simp: hm_find_None settled_def state_wf_def hm.entries_lookup)

lemma event_settled:
  assumes h: "smooth_host (rc_host cfg)" and tr: "task_runbook cfg"
    and wf: "state_wf (rt_state (dm_runtime d))" and st: "settled (rc_runbook cfg) (rt_state (dm_runtime d))"
  shows "\<exists>res d1. process_event cfg e d = Some (res, d1) \<and> settled (rc_runbook cfg) (rt_state (dm_runtime d1))"
proof -
  let ?r = "dm_runtime d"
  have goal: ?thesis if "process_events cfg [e] ?r = Some (x, s)" "settled (rc_runbook cfg) (rt_state s)" for x s
    using that by (simp add: process_event_def)
  have alone: ?thesis if "settled (rc_runbook cfg) (rt_state (snd (handle_event cfg e ?r)))"
    "\<And>evs s. handle_event cfg e ?r = (Inr evs, s) \<Longrightarrow> evs = []"
    using process_alone [of cfg e ?r "fst (handle_event cfg e ?r)" "snd (handle_event cfg e ?r)"] that goal
    by (metis prod.collapse)
  have step: ?thesis if "hm_get (pipelines (rt_state ?r)) pid = Some p"
    "handle_event cfg e ?r = (if good then advance_pipeline cfg p ?r else fail_pipeline cfg p err ?r)"
    for pid p good err
    using settled_step [OF h tr st that] goal by blast
  have agent: ?thesis if e: "e = AgentDone i \<or> e = AgentError i err" for i err
  proof (cases "rt_get_pipeline ?r i")
    case None
    show ?thesis
      by (rule alone) (use e None st in \<open>auto simp: handle_event_def handle_agent_event_def lookup_pipeline_def comp_defs\<close>)
  next
    case (Some p)
    then have l: "lookup_pipeline i ?r = (Inr p, ?r)" by (simp add: lookup_pipeline_def comp_defs)
    show ?thesis
      by (rule step [OF lookup_key(2) [OF wf l], of "e = AgentDone i" err])
        (use e l in \<open>auto simp: handle_event_def handle_agent_event_def bind_def\<close>)
  qed
  have shell: ?thesis if e: "e = ShellCompleted pid ph code" for pid ph code
  proof (cases "hm_get (pipelines (rt_state ?r)) pid")
    case None
    show ?thesis
      by (rule alone) (use e None st in \<open>auto simp: handle_event_def handle_shell_completed_def exact_pipeline_def comp_defs\<close>)
  next
    case (Some p)
    show ?thesis
    proof (cases "phase p = ph")
      case True
      show ?thesis
        by (rule step [OF Some, of "code = 0"]) (use e True shell_completed_eq [OF Some, of cfg ph code] in simp)
    next
      case False
      show ?thesis
        by (rule alone) (use e Some False st in \<open>auto simp: handle_event_def handle_shell_completed_def exact_pipeline_def comp_defs\<close>)
    qed
  qed
  show ?thesis
  proof (cases e)
    case (CommandInvoked command args)
    then show ?thesis using command_settled [OF h tr st] by simp
  next
    case (SessionExited sid code)
    show ?thesis
      by (rule alone) (use SessionExited settled_sessions [OF wf st, of sid] st in
        \<open>auto simp: handle_event_def handle_session_exit_def comp_defs\<close>)
  next
    case (Timer i)
    show ?thesis
      by (rule alone) (use Timer timer_nothing [OF wf st, of cfg i] st in \<open>auto simp: handle_event_def\<close>)
  next
    case (Custom nm data)
    show ?thesis
      by (rule alone) (use Custom custom_settled [OF h wf st, of nm data] custom_event_no_events in
        \<open>auto simp: handle_event_def\<close>)
  qed (use agent shell alone st in \<open>auto simp: handle_event_def ok_def\<close>)
qed

section \<open>Every turn of the main loop\<close>

text \<open>The heartbeat reads a scheduler of its own, which stays empty, and without recorded sessions the
  check of the sessions finds nothing.\<close>

definition settled_daemon :: "runbook \<Rightarrow> 'w daemon \<Rightarrow> bool" where
  "settled_daemon rb d \<longleftrightarrow> state_wf (rt_state (dm_runtime d)) \<and> settled rb (rt_state (dm_runtime d)) \<and>
     dm_scheduler d = scheduler_new"

lemma settled_daemon_world [simp]: "settled_daemon rb (set_world w d) = settled_daemon rb d"
  by (simp add: settled_daemon_def set_world_def)

lemma event_keeps:
  assumes "smooth_host (rc_host cfg)" and "task_runbook cfg" and "settled_daemon (rc_runbook cfg) d"
  shows "\<exists>res d1. process_event cfg e d = Some (res, d1) \<and> settled_daemon (rc_runbook cfg) d1"
proof -
  from assms(3) have d: "state_wf (rt_state (dm_runtime d))" "settled (rc_runbook cfg) (rt_state (dm_runtime d))"
    "dm_scheduler d = scheduler_new" by (simp_all add: settled_daemon_def)
  from event_settled [OF assms(1,2) d(1,2)] obtain res d1 where
    run: "process_event cfg e d = Some (res, d1)" and st: "settled (rc_runbook cfg) (rt_state (dm_runtime d1))"
    by blast
  have "state_wf (rt_state (dm_runtime d1))"
    by (rule wf_rt.reaches_I [OF process_event_reaches [OF run] d(1)])
  moreover have "dm_scheduler d1 = scheduler_new"
    using run d(3) by (auto simp: process_event_def split: option.splits)
  ultimately show ?thesis using run st by (simp add: settled_daemon_def)
qed

lemma respond_keeps:
  assumes "\<exists>res d1. x = Some (res, d1) \<and> settled_daemon rb d1"
  shows "\<exists>resp d1. respond okay x = Some (resp, d1) \<and> settled_daemon rb d1"
  using assms by (auto simp: respond_def split: sum.split)

lemma request_keeps:
  assumes "smooth_host (rc_host cfg)" and "task_runbook cfg" and d: "settled_daemon (rc_runbook cfg) d"
  shows "\<exists>resp d1. handle_request cfg v d req = Some (resp, d1) \<and> settled_daemon (rc_runbook cfg) d1"
proof (cases req)
  case (SessionSend i input)
  then show ?thesis using d respond_keeps [OF event_keeps [OF assms]]
    by (cases "find_session (rt_state (dm_runtime d)) i") simp_all
next
  case StatusRequest
  then show ?thesis using d by (simp del: status_response_def split: prod.split)
next
  case Shutdown
  then show ?thesis using d by (simp add: settled_daemon_def)
qed (use d respond_keeps [OF event_keeps [OF assms]] in \<open>simp_all del: handle_query.simps\<close>)

lemma connection_keeps:
  assumes "smooth_host (rc_host cfg)" and "task_runbook cfg" and d: "settled_daemon (rc_runbook cfg) d"
  shows "\<exists>res out d1. handle_connection cfg c rt wt rd d = Some (res, out, d1) \<and>
    settled_daemon (rc_runbook cfg) d1"
proof (cases "fst (read_request (cd_request c) rt rd)")
  case (Inl e)
  with d show ?thesis by (cases e) (simp_all add: handle_connection_def)
next
  case (Inr req)
  from request_keeps [OF assms, of "cd_version c" req] obtain resp d1 where
    "handle_request cfg (cd_version c) d req = Some (resp, d1)" "settled_daemon (rc_runbook cfg) d1" by blast
  with Inr show ?thesis
    by (auto simp: handle_connection_def split: prod.split sum.split)
qed

lemma check_sessions_nothing:
  assumes "state_wf st" and "settled rb st"
  shows "check_sessions tmux st w = ([], w)"
proof -
  have "session_id p = None" if "p \<in> set (map snd (pipelines st))" for p
    using that assms by (auto simp: state_wf_def settled_def hm.entries_lookup)
  moreover have "check_each tmux ps w = ([], w)" if "\<forall>p \<in> set ps. session_id p = None" for ps
    using that by (induction ps) (simp_all add: check_session_def)
  ultimately show ?thesis by (simp add: check_sessions_def)
qed

lemma session_check_keeps:
  assumes "settled_daemon rb d"
  shows "settled_daemon rb (run_session_check cfg tmux d)"
proof -
  have "check_sessions tmux (rt_state (dm_runtime d)) w = ([], w)" for w
    using assms check_sessions_nothing by (auto simp: settled_daemon_def)
  then have "run_session_check cfg tmux d = set_world (rt_world (dm_runtime d)) d"
    by (simp add: run_session_check_def Let_def)
  with assms show ?thesis by simp
qed

lemma tick_keeps:
  assumes "settled_daemon rb (lp_daemon l)"
  shows "\<exists>l1. loop_tick cfg tmux l = Some l1 \<and> settled_daemon rb (lp_daemon l1)"
proof -
  have "dm_scheduler (lp_daemon l) = scheduler_new" using assms by (simp add: settled_daemon_def)
  from heartbeat_noop [OF this, of cfg] assms show ?thesis
    by (auto simp: loop_tick_def split: prod.split intro!: session_check_keeps)
qed

lemma shutdown_keeps: "settled_daemon rb d \<Longrightarrow> settled_daemon rb (shutdown os d)"
  by (simp add: shutdown_def Let_def)

lemma step_keeps:
  assumes "smooth_host (rc_host cfg)" and "task_runbook cfg"
    and d: "settled_daemon (rc_runbook cfg) (lp_daemon l)"
  shows "\<exists>stop l1. loop_step os cfg c tmux inp l = Some (stop, l1) \<and>
    settled_daemon (rc_runbook cfg) (lp_daemon l1)"
proof (cases inp)
  case (Connection rd rt wt)
  with connection_keeps [OF assms, of c rt wt rd] shutdown_keeps show ?thesis
    by (fastforce simp: loop_step_def)
next
  case (InternalEvent e)
  with event_keeps [OF assms, of e] shutdown_keeps show ?thesis by (fastforce simp: loop_step_def)
next
  case Tick
  with tick_keeps [OF d, of cfg tmux] shutdown_keeps show ?thesis by (fastforce simp: loop_step_def)
qed (use d shutdown_keeps in \<open>auto simp: loop_step_def\<close>)

lemma runs_keeps:
  assumes "smooth_host (rc_host cfg)" and "task_runbook cfg"
  shows "daemon_runs os cfg c tmux l0 l \<Longrightarrow> settled_daemon (rc_runbook cfg) (lp_daemon l0) \<Longrightarrow>
    settled_daemon (rc_runbook cfg) (lp_daemon l)"
proof (induction rule: daemon_runs.induct)
  case (loop_turn l l1 inp l2)
  with step_keeps [OF assms, of l1 os c tmux inp] show ?case by auto
qed simp_all

end
