(* ===== verification/Pipeline_Properties.thy ===== *)
theory Pipeline_Properties
  imports Pipeline_Rest
begin

text \<open>
  The properties of \<open>Pipeline_Runs\<close> and \<open>Pipeline_Rest\<close>, for the daemon's \<open>process_event\<close>, and the
  runbooks on which the witnesses evaluate them.
\<close>

section \<open>Pipelines of shell commands\<close>

definition shell_pipeline :: "pipeline_def \<Rightarrow> bool" where
  "shell_pipeline d \<longleftrightarrow> task_pipeline d \<and> (\<forall>ph \<in> set (pl_phases d). \<exists>c. ph_run ph = RunShell c)"

lemma shell_agents: "shell_pipeline d \<Longrightarrow> agents_start cfg d"
  by (fastforce simp: shell_pipeline_def agents_start_def)

lemma shell_rests: "shell_pipeline d \<Longrightarrow> rests d t q \<Longrightarrow> ended t q"
  using get_phase_mem by (fastforce simp: shell_pipeline_def rests_def)

lemma shell_walk_done:
  assumes "shell_pipeline d"
  shows "walk (\<lambda>_. 0) (initial_phase d) (pl_phases d) = ''done''"
proof (rule walk_succeeds)
  have tp: "task_pipeline d" using assms by (simp add: shell_pipeline_def)
  show "\<forall>ph \<in> set (pl_phases d). \<exists>c. ph_run ph = RunShell c" using assms by (simp add: shell_pipeline_def)
  show "''done'' \<notin> ph_name ` set (pl_phases d)" using terminal_not_named [OF tp] by (simp add: terminal_def)
  show "initial_phase d = ''done'' \<or> initial_phase d \<in> ph_name ` set (pl_phases d)"
    using tp by (cases "pl_phases d") (simp_all add: task_pipeline_def initial_phase_def first_phase_def)
qed

lemma walks_succeed:
  assumes "shell_pipeline d" and "commands_succeed h" and "walks h d (initial_phase d) t"
  shows "t = ''done''"
  using assms shell_walk_done [OF assms(1)] by (simp add: walks_def commands_succeed_def)

lemma shell_command_ends:
  assumes "smooth_host (rc_host cfg)" and "get_command (rc_runbook cfg) command = Some cm"
    and "cd_run cm = RunPipeline knd" and "get_pipeline_def (rc_runbook cfg) knd = Some df"
    and "shell_pipeline df" and "h_next_id (rc_host cfg) (rt_world (dm_runtime d)) = (pid, w)"
  shows "\<exists>d1 q t. process_event cfg (CommandInvoked command args) d = Some (Inr (), d1) \<and>
    hm_get (pipelines (rt_state (dm_runtime d1))) pid = Some q \<and> created_as pid knd args q \<and>
    ended t q \<and> (commands_succeed (rc_host cfg) \<longrightarrow> t = ''done'')"
proof -
  have "task_pipeline df" using assms(5) by (simp add: shell_pipeline_def)
  from command_runs [OF assms(1) shell_agents [OF assms(5)] this assms(2-4,6), of args]
  show ?thesis using shell_rests [OF assms(5)] walks_succeed [OF assms(5)] by blast
qed

section \<open>Properties\<close>

text \<open>C9: a pipeline that leads down its definition runs to its end or to its next agent. The conditions
  on the pipeline are those of \<open>task_pipeline\<close>: its phases are shell commands and agents and none is named
  \<open>done\<close> or \<open>failed\<close>; explicit next phases and \<open>on_fail\<close> phases lie further down than the phases that
  name them, and they are defined, except that a next phase may be \<open>done\<close> or \<open>failed\<close>. On a host whose
  log, repository and notifications work, whose shell starts its commands and whose agents start, a
  command that creates such a pipeline is processed without an error, and then the pipeline has ended,
  \<open>Completed\<close> in \<open>done\<close> or in \<open>failed\<close>, or it is \<open>Running\<close> in a phase of an agent. If its phases are
  shell commands and all exit with 0, it is \<open>Completed\<close>. It has the kind and the inputs of the command,
  and no other pipeline has changed.\<close>

theorem command_runs_pipeline:
  assumes "smooth_host (rc_host cfg)" and "get_command (rc_runbook cfg) command = Some cm"
    and "cd_run cm = RunPipeline knd" and "get_pipeline_def (rc_runbook cfg) knd = Some df"
    and "task_pipeline df" and "agents_start cfg df"
    and "h_next_id (rc_host cfg) (rt_world (dm_runtime d)) = (pid, w)"
  shows "\<exists>d1 q. process_event cfg (CommandInvoked command args) d = Some (Inr (), d1) \<and>
    hm_get (pipelines (rt_state (dm_runtime d1))) pid = Some q \<and> kind q = knd \<and> inputs q = args \<and>
    (phase q = ''done'' \<and> status q = Completed \<or> phase q = ''failed'' \<and> status q = Pending \<or>
      agent_phase (rc_runbook cfg) knd (phase q) \<and> status q = Running) \<and>
    (commands_succeed (rc_host cfg) \<longrightarrow> shell_pipeline df \<longrightarrow> phase q = ''done'' \<and> status q = Completed) \<and>
    (\<forall>j. j \<noteq> pid \<longrightarrow> hm_get (pipelines (rt_state (dm_runtime d1))) j =
       hm_get (pipelines (rt_state (dm_runtime d))) j)"
proof -
  from command_runs [OF assms(1,6,5,2-4,7), of args] obtain d1 q t where
    run: "process_event cfg (CommandInvoked command args) d = Some (Inr (), d1)"
      "hm_get (pipelines (rt_state (dm_runtime d1))) pid = Some q"
    and q: "created_as pid knd args q" "rests df t q" "walks (rc_host cfg) df (initial_phase df) t"
    and other: "others_kept pid (rt_state (dm_runtime d)) (rt_state (dm_runtime d1))" by blast
  have "kind q = knd" "inputs q = args" using q(1) by (simp_all add: created_as_def)
  moreover have "phase q = ''done'' \<and> status q = Completed \<or> phase q = ''failed'' \<and> status q = Pending \<or>
      agent_phase (rc_runbook cfg) knd (phase q) \<and> status q = Running"
    using q(2) assms(4) by (auto simp: rests_def ended_def terminal_def agent_phase_def is_agent_def)
  moreover have "phase q = ''done'' \<and> status q = Completed"
    if "commands_succeed (rc_host cfg)" "shell_pipeline df"
    using walks_succeed [OF that(2,1) q(3)] shell_rests [OF that(2) q(2)] by (simp add: ended_def)
  ultimately show ?thesis using run other unfolding others_kept_def by blast
qed

text \<open>C7: the runtime agrees with a reference that runs a pipeline in one walk down its definition. If
  the exit code of a command is a function of the command, and the commands contain no placeholders,
  then the phase that the pipeline of \<open>command_runs_pipeline\<close> reaches is the one the walk computes from
  those exit codes, stopping at an agent.\<close>

theorem pipeline_walks:
  assumes "smooth_host (rc_host cfg)" and "get_command (rc_runbook cfg) command = Some cm"
    and "cd_run cm = RunPipeline knd" and "get_pipeline_def (rc_runbook cfg) knd = Some df"
    and "task_pipeline df" and "agents_start cfg df"
    and "h_next_id (rc_host cfg) (rt_world (dm_runtime d)) = (pid, w)"
    and "exits_with ex (rc_host cfg)" and "plain_pipeline df"
  shows "\<exists>d1. process_event cfg (CommandInvoked command args) d = Some (Inr (), d1) \<and>
    map_option phase (hm_get (pipelines (rt_state (dm_runtime d1))) pid) =
      Some (walk ex (initial_phase df) (pl_phases df))"
proof -
  from command_runs [OF assms(1,6,5,2-4,7), of args] obtain d1 q t where
    run: "process_event cfg (CommandInvoked command args) d = Some (Inr (), d1)"
      "hm_get (pipelines (rt_state (dm_runtime d1))) pid = Some q"
    and q: "rests df t q" and w: "walks (rc_host cfg) df (initial_phase df) t" by blast
  from w assms(8,9) have t: "walk ex (initial_phase df) (pl_phases df) = t" by (simp add: walks_def)
  from run q show ?thesis unfolding t by (intro exI [of _ d1]) (auto simp: rests_def ended_def)
qed

text \<open>C8: when an agent reports the end of its work, the pipeline goes on. On such a host the event is
  processed without an error, and the pipeline of the agent is then in the phase that the reference
  computes from the successor of its phase, or from its \<open>on_fail\<close> phase if the agent reported an error;
  the other fields of the pipeline and all other pipelines are as they were.\<close>

theorem agent_event_walks:
  assumes "smooth_host (rc_host cfg)" and "agents_start cfg df" and "task_pipeline df"
    and "get_pipeline_def (rc_runbook cfg) (kind p) = Some df" and "get_phase df (phase p) \<noteq> None"
    and "hm_get (pipelines (rt_state (dm_runtime d))) (id p) = Some p" and "session_id p = None"
    and "hm_get (workspaces (rt_state (dm_runtime d))) (id p) \<noteq> None"
    and "rt_get_pipeline (dm_runtime d) i = Some p"
    and "(e, good) = (AgentDone i, True) \<or> (e, good) = (AgentError i err, False)"
    and "exits_with ex (rc_host cfg)" and "plain_pipeline df"
  shows "\<exists>d1 st. process_event cfg e d = Some (Inr (), d1) \<and>
    hm_get (pipelines (rt_state (dm_runtime d1))) (id p) =
      Some (p\<lparr>phase := walk ex (leads_to df (phase p) good) (pl_phases df), status := st\<rparr>) \<and>
    (\<forall>j. j \<noteq> id p \<longrightarrow> hm_get (pipelines (rt_state (dm_runtime d1))) j =
       hm_get (pipelines (rt_state (dm_runtime d))) j)"
proof -
  have ow: "on_way df (id p) p (dm_runtime d)" using assms(5-8) by (simp add: on_way_def)
  have rep: "agent_report e = Some (i, good)" using assms(10) by auto
  from agent_event_runs [OF assms(1,2,4,3) ow assms(9) rep] obtain d1 q t where
    run: "process_event cfg e d = Some (Inr (), d1)"
      "hm_get (pipelines (rt_state (dm_runtime d1))) (id p) = Some q"
    and q: "rests df t q" "walks (rc_host cfg) df (leads_to df (phase p) good) t"
    and m: "only_moves (id p) (rt_state (dm_runtime d)) (rt_state (dm_runtime d1))" by blast
  from q(2) assms(11,12) have t: "walk ex (leads_to df (phase p) good) (pl_phases df) = t"
    by (simp add: walks_def)
  from m assms(6) run(2) obtain ph st where "q = p\<lparr>phase := ph, status := st\<rparr>"
    by (auto simp: only_moves_def)
  with q(1) have "q = p\<lparr>phase := t, status := st\<rparr>" by (auto simp: rests_def ended_def)
  with run m show ?thesis unfolding t only_moves_def by blast
qed

section \<open>A runbook of shell commands, and one with an agent\<close>

definition build_command_def :: command_def where
  "build_command_def = \<lparr>cd_name = ''build'',
     cd_args = \<lparr>positional = [], flags = [], options = [], variadic = None\<rparr>,
     cd_defaults = [], cd_run = RunPipeline ''ci''\<rparr>"

definition ci_runbook :: runbook where
  "ci_runbook = runbook_default\<lparr>
     rb_commands := [(''build'', build_command_def)],
     rb_pipelines := [(''ci'', \<lparr>pl_name = ''ci'', pl_inputs = [], pl_defaults = [],
        pl_phases = [
          \<lparr>ph_name = ''lint'', ph_run = RunShell ''make lint'', ph_next = None, ph_on_fail = Some ''clean''\<rparr>,
          \<lparr>ph_name = ''test'', ph_run = RunShell ''make test'', ph_next = Some ''done'', ph_on_fail = None\<rparr>,
          \<lparr>ph_name = ''clean'', ph_run = RunShell ''make clean'', ph_next = None, ph_on_fail = None\<rparr>]\<rparr>)]\<rparr>"

definition ci_config :: "(nat \<times> nat) runtime_config" where
  "ci_config = demo_config\<lparr>rc_runbook := ci_runbook\<rparr>"

text \<open>If the tests fail an agent mends them, and they run again.\<close>

definition mend_pipeline :: pipeline_def where
  "mend_pipeline = \<lparr>pl_name = ''ci'', pl_inputs = [], pl_defaults = [],
     pl_phases = [
       \<lparr>ph_name = ''test'', ph_run = RunShell ''make test'', ph_next = Some ''done'', ph_on_fail = Some ''mend''\<rparr>,
       \<lparr>ph_name = ''mend'', ph_run = RunAgent ''coder'', ph_next = None, ph_on_fail = Some ''clean''\<rparr>,
       \<lparr>ph_name = ''again'', ph_run = RunShell ''make check'', ph_next = Some ''done'', ph_on_fail = None\<rparr>,
       \<lparr>ph_name = ''clean'', ph_run = RunShell ''make clean'', ph_next = Some ''failed'', ph_on_fail = None\<rparr>]\<rparr>"

definition mend_runbook :: runbook where
  "mend_runbook = runbook_default\<lparr>
     rb_commands := [(''build'', build_command_def)], rb_pipelines := [(''ci'', mend_pipeline)],
     rb_agents := [(''coder'', agent_def_default)]\<rparr>"

text \<open>A host on which one command fails.\<close>

definition failing_host :: "string \<Rightarrow> (nat \<times> nat) host" where
  "failing_host bad = plain_host\<lparr>h_shell := (\<lambda>c _ _. ok (Some (if c = bad then 2 else 0)))\<rparr>"

definition mend_config :: "(nat \<times> nat) runtime_config" where
  "mend_config = demo_config\<lparr>rc_runbook := mend_runbook, rc_host := failing_host ''make test''\<rparr>"

lemma plain_host_smooth: "smooth_host plain_host" "commands_succeed plain_host"
  by (simp_all add: smooth_host_def commands_succeed_def exits_with_def plain_host_defs ok_def)

lemma failing_host_smooth:
  "smooth_host (failing_host bad)" "exits_with (\<lambda>c. if c = bad then 2 else 0) (failing_host bad)"
  by (simp_all add: smooth_host_def exits_with_def failing_host_def plain_host_defs ok_def)

lemma failing_host_id: "h_next_id (failing_host bad) = h_next_id plain_host"
  by (simp add: failing_host_def)

lemma fresh_id: "h_next_id plain_host (rt_world (dm_runtime (daemon_of fresh_runtime))) = (''p0'', (0, 1))"
  by code_simp

lemma ci_facts:
  obtains df where "get_command (rc_runbook ci_config) ''build'' = Some build_command_def"
    "cd_run build_command_def = RunPipeline ''ci''" "get_pipeline_def (rc_runbook ci_config) ''ci'' = Some df"
    "shell_pipeline df" "smooth_host (rc_host ci_config)" "commands_succeed (rc_host ci_config)"
  using plain_host_smooth
  by (auto simp: ci_config_def ci_runbook_def build_command_def_def demo_config_def get_command_def
      get_pipeline_def_def hm_get_def shell_pipeline_def task_pipeline_def is_task_def forward_def terminal_def
      get_phase_def less_Suc_eq split: if_splits)

lemma mend_facts:
  "get_command (rc_runbook mend_config) ''build'' = Some build_command_def"
  "cd_run build_command_def = RunPipeline ''ci''"
  "get_pipeline_def (rc_runbook mend_config) knd = (if knd = ''ci'' then Some mend_pipeline else None)"
  "rc_host mend_config = failing_host ''make test''" "smooth_host (rc_host mend_config)"
  using failing_host_smooth
  by (simp_all add: mend_config_def mend_runbook_def build_command_def_def get_command_def
      get_pipeline_def_def hm_get_def)

lemma mend_task: "task_pipeline mend_pipeline" "plain_pipeline mend_pipeline"
  by (auto simp: mend_pipeline_def task_pipeline_def is_task_def forward_def terminal_def get_phase_def
      less_Suc_eq plain_pipeline_def plain_command_def split: if_splits)

lemma mend_agents: "agents_start mend_config mend_pipeline"
proof -
  have "get_agent (rc_runbook mend_config) ''coder'' = Some agent_def_default"
    by (simp add: mend_config_def mend_runbook_def get_agent_def hm_get_def)
  moreover have "\<exists>effs w1. build_spawn_effects (failing_host bad) agent_def_default p pid a ins dr root w = (Inr effs, w1)"
    for bad p pid a ins dr root w
    by (simp add: build_spawn_effects_def prepare_for_agent_def get_prompt_def agent_def_default_def
        failing_host_def plain_host_defs comp_defs Let_def)
  moreover have "\<exists>i w1. sess_spawn (h_sessions (failing_host bad)) n dr c env w = (Inr i, w1)" for bad n dr c env w
    by (simp add: failing_host_def plain_host_defs ok_def)
  ultimately show ?thesis
    by (auto simp: agents_start_def agent_starts_def mend_pipeline_def mend_facts(4))
qed

lemma mend_runbook_tasks: "task_runbook mend_config"
  using mend_task(1) mend_agents by (simp add: task_runbook_def mend_facts(3))

theorem command_runs_pipeline_witness:
  "\<exists>d1 q. process_event ci_config (CommandInvoked ''build'' []) (daemon_of fresh_runtime) = Some (Inr (), d1) \<and>
    hm_get (pipelines (rt_state (dm_runtime d1))) ''p0'' = Some q \<and> kind q = ''ci'' \<and>
    phase q = ''done'' \<and> status q = Completed"
proof -
  from ci_facts obtain df where c: "get_command (rc_runbook ci_config) ''build'' = Some build_command_def"
    "cd_run build_command_def = RunPipeline ''ci''" "get_pipeline_def (rc_runbook ci_config) ''ci'' = Some df"
    "shell_pipeline df" "smooth_host (rc_host ci_config)" "commands_succeed (rc_host ci_config)" .
  have tp: "task_pipeline df" using c(4) by (simp add: shell_pipeline_def)
  have "h_next_id (rc_host ci_config) (rt_world (dm_runtime (daemon_of fresh_runtime))) = (''p0'', (0, 1))"
    using fresh_id by (simp add: ci_config_def demo_config_def)
  from command_runs_pipeline [OF c(5,1-3) tp shell_agents [OF c(4)] this, of "[]"] c(4,6)
  show ?thesis by blast
qed

lemma mend_id: "h_next_id (rc_host mend_config) (rt_world (dm_runtime (daemon_of fresh_runtime))) = (''p0'', (0, 1))"
  using fresh_id by (simp add: mend_facts(4) failing_host_id)

lemma mend_exits: "exits_with (\<lambda>c. if c = ''make test'' then 2 else 0) (rc_host mend_config)"
  using failing_host_smooth(2) by (simp add: mend_facts(4))

text \<open>The tests fail, so the pipeline stops at the agent.\<close>

theorem pipeline_walks_witness:
  "\<exists>d1. process_event mend_config (CommandInvoked ''build'' []) (daemon_of fresh_runtime) = Some (Inr (), d1) \<and>
    map_option phase (hm_get (pipelines (rt_state (dm_runtime d1))) ''p0'') = Some ''mend''"
proof -
  have "get_pipeline_def (rc_runbook mend_config) ''ci'' = Some mend_pipeline" by (simp add: mend_facts(3))
  note run = pipeline_walks [OF mend_facts(5,1,2) this mend_task(1) mend_agents mend_id mend_exits mend_task(2), of "[]"]
  have "walk (\<lambda>c. if c = ''make test'' then 2 else 0) (initial_phase mend_pipeline) (pl_phases mend_pipeline) = ''mend''"
    by (simp add: mend_pipeline_def initial_phase_def first_phase_def)
  with run show ?thesis by simp
qed

text \<open>A pipeline at the agent: when it is done the tests run again, and succeed.\<close>

definition mending :: pipeline where
  "mending = pipeline_new ''p0'' ''x'' ''ci'' [] ''mend'' 0"

definition mending_runtime :: "(nat \<times> nat) runtime" where
  "mending_runtime =
     runtime_new \<lparr>wal_file = [], wal_sequence = 0\<rparr>
       (state_default\<lparr>pipelines := [(''p0'', mending)],
          workspaces := [(''p0'', \<lparr>ws_id = ''p0'', ws_path = ''/w/x'', ws_branch = ''feature/x''\<rparr>)]\<rparr>) (0, 1)"

lemma mending_facts:
  "hm_get (pipelines (rt_state mending_runtime)) ''p0'' = Some mending"
  "hm_get (workspaces (rt_state mending_runtime)) ''p0'' \<noteq> None"
  "get_phase mend_pipeline (phase mending) \<noteq> None"
  by (auto simp: mending_runtime_def runtime_new_def state_wf_def settled_def at_rest_def state_default_def
      hm_wf_def hm_get_def mending_def pipeline_new_def agent_phase_def mend_facts(3) mend_pipeline_def
      get_phase_def is_agent_def split: if_splits)

lemma mending_found: "rt_get_pipeline mending_runtime ''p'' = Some mending"
  by code_simp

theorem agent_event_walks_witness:
  "\<exists>d1 st. process_event mend_config (AgentDone ''p'') (daemon_of mending_runtime) = Some (Inr (), d1) \<and>
    hm_get (pipelines (rt_state (dm_runtime d1))) ''p0'' = Some (mending\<lparr>phase := ''done'', status := st\<rparr>) \<and>
   (\<exists>d2 st. process_event mend_config (AgentError ''p'' ''stuck'') (daemon_of mending_runtime) = Some (Inr (), d2) \<and>
    hm_get (pipelines (rt_state (dm_runtime d2))) ''p0'' = Some (mending\<lparr>phase := ''done'', status := st\<rparr>))"
proof -
  let ?d = "daemon_of mending_runtime"
  have 1: "get_pipeline_def (rc_runbook mend_config) (kind mending) = Some mend_pipeline"
    "id mending = ''p0''" "session_id mending = None"
    by (simp_all add: mend_facts(3) mending_def pipeline_new_def)
  have 2: "hm_get (pipelines (rt_state (dm_runtime ?d))) (id mending) = Some mending"
    "hm_get (workspaces (rt_state (dm_runtime ?d))) (id mending) \<noteq> None"
    "rt_get_pipeline (dm_runtime ?d) ''p'' = Some mending"
    using mending_facts(1,2) mending_found by (simp_all add: 1(2) daemon_of_def)
  note run = agent_event_walks [OF mend_facts(5) mend_agents mend_task(1) 1(1) mending_facts(3) 2(1) 1(3)
      2(2,3) _ mend_exits mend_task(2)]
  have "walk (\<lambda>c. if c = ''make test'' then 2 else 0) (leads_to mend_pipeline (phase mending) good)
      (pl_phases mend_pipeline) = ''done''" for good
    by (cases good) (simp_all add: mend_pipeline_def mending_def pipeline_new_def leads_to_def get_phase_def
        next_phase_def)
  with run [of "AgentDone ''p''" True] run [of "AgentError ''p'' ''stuck''" False "''stuck''"] 1(2)
  show ?thesis by simp blast
qed

end
