(* ===== verification/Daemon_Program.thy ===== *)
theory Daemon_Program
  imports Daemon_Life Client_Properties
begin

text \<open>
  The daemon as a whole program, \<open>main\<close> of \<open>crates/daemon/src/main.rs\<close> from its arguments to its end:
  the start, the signal handlers, and the loop that serves its inputs one after the other until one of
  them stops it. The world may change as it likes between two turns. The second half says when the
  program stops, and that nothing but a request that brings an event makes it do anything.
\<close>

section \<open>The program\<close>

datatype main_error = MainIo io_error | MainLifecycle lifecycle_error

text \<open>What the process gets from outside: \<open>pr_signal\<close> registers the handler of a signal.\<close>

record 'w process =
  pr_os :: "'w os"
  pr_host :: "'w host"
  pr_runner :: "'w runner"
  pr_args :: "string list"
  pr_cwd :: "'w \<Rightarrow> io_error + path"
  pr_signal :: "string \<Rightarrow> ('w, io_error, unit) comp"
  pr_codec :: codec

definition program_root :: "string list \<Rightarrow> io_error + path \<Rightarrow> io_error + path" where
  "program_root args cwd = (if 1 < length args then Inr (args ! 1) else cwd)"

text \<open>Up to the line \<open>READY\<close> and the first reading of the clock of the session checks. A signal handler
  that cannot be registered ends the program without a shutdown.\<close>

definition program_ready ::
  "'w process \<Rightarrow> ('w, main_error, 'w runtime_config \<times> 'w loop_state) comp" where
  "program_ready pr =
     bind (map_err MainIo (\<lambda>w. (program_root (pr_args pr) (pr_cwd pr w), w))) (\<lambda>root.
     bind (map_err MainLifecycle (daemon_main (pr_os pr) (pr_host pr) (pr_runner pr) root)) (\<lambda>(cfg, d).
     bind (map_err MainIo (pr_signal pr ''SIGTERM'')) (\<lambda>_.
     bind (map_err MainIo (pr_signal pr ''SIGINT'')) (\<lambda>_ w.
       (case h_now (pr_host pr) w of
          (now, w1) \<Rightarrow> (Inr (cfg, \<lparr>lp_daemon = set_world w1 d, lp_last_check = now\<rparr>), w1))))))"

text \<open>The loop over its inputs, each with what happens to the world before it: whether it has stopped,
  and the state then; \<open>None\<close> if a turn does not return.\<close>

fun serve ::
  "'w os \<Rightarrow> 'w runtime_config \<Rightarrow> codec \<Rightarrow> 'w session_adapter \<Rightarrow> (('w \<Rightarrow> 'w) \<times> loop_input) list \<Rightarrow>
   'w loop_state \<Rightarrow> (bool \<times> 'w loop_state) option" where
  "serve os cfg c tmux [] l = Some (False, l)"
| "serve os cfg c tmux ((outside, inp) # rest) l =
     (case loop_step os cfg c tmux inp
         (l\<lparr>lp_daemon := set_world (outside (rt_world (dm_runtime (lp_daemon l)))) (lp_daemon l)\<rparr>) of
        None \<Rightarrow> None
      | Some (True, l1) \<Rightarrow> Some (True, l1)
      | Some (False, l1) \<Rightarrow> serve os cfg c tmux rest l1)"

datatype 'w program_end =
    ProgramFailed main_error 'w
  | Serving "'w loop_state"
  | Exited "'w loop_state"

definition run_program ::
  "'w process \<Rightarrow> (('w \<Rightarrow> 'w) \<times> loop_input) list \<Rightarrow> 'w \<Rightarrow> 'w program_end option" where
  "run_program pr ins w =
     (case program_ready pr w of
        (Inl e, w1) \<Rightarrow> Some (ProgramFailed e w1)
      | (Inr (cfg, l), _) \<Rightarrow>
          map_option (\<lambda>(stop, l1). if stop then Exited l1 else Serving l1)
            (serve (pr_os pr) cfg (pr_codec pr) (tmux_session (pr_runner pr)) ins l))"

section \<open>Serving\<close>

lemma serve_append:
  "serve os cfg c tmux (xs @ ys) l =
     (case serve os cfg c tmux xs l of
        None \<Rightarrow> None
      | Some (True, l1) \<Rightarrow> Some (True, l1)
      | Some (False, l1) \<Rightarrow> serve os cfg c tmux ys l1)"
proof (induction xs arbitrary: l)
  case (Cons x xs)
  obtain outside inp where x: "x = (outside, inp)" by fastforce
  show ?case
  proof (cases "loop_step os cfg c tmux inp
      (l\<lparr>lp_daemon := set_world (outside (rt_world (dm_runtime (lp_daemon l)))) (lp_daemon l)\<rparr>)")
    case (Some y)
    then show ?thesis using Cons.IH x by (cases y; cases "fst y") simp_all
  qed (simp add: x)
qed simp

lemma serve_runs:
  "serve os cfg c tmux ins l = Some (False, l1) \<Longrightarrow> daemon_runs os cfg c tmux l0 l \<Longrightarrow>
   daemon_runs os cfg c tmux l0 l1"
proof (induction ins arbitrary: l)
  case (Cons x ins)
  obtain outside inp where x: "x = (outside, inp)" by fastforce
  let ?l = "l\<lparr>lp_daemon := set_world (outside (rt_world (dm_runtime (lp_daemon l)))) (lp_daemon l)\<rparr>"
  from Cons.prems(1) x obtain l2 where "loop_step os cfg c tmux inp ?l = Some (False, l2)"
    and s: "serve os cfg c tmux ins l2 = Some (False, l1)"
    by (auto split: option.splits prod.splits bool.splits)
  with loop_outside [OF Cons.prems(2)] loop_turn have "daemon_runs os cfg c tmux l0 l2" by blast
  with Cons.IH s show ?case by blast
qed simp

text \<open>A program that has served its inputs and goes on.\<close>

lemma run_program_Serving:
  assumes "run_program pr ins w = Some (Serving l)"
  obtains cfg l0 w1 where "program_ready pr w = (Inr (cfg, l0), w1)"
    and "serve (pr_os pr) cfg (pr_codec pr) (tmux_session (pr_runner pr)) ins l0 = Some (False, l)"
  using assms by (auto simp: run_program_def split: prod.splits sum.splits if_splits)

lemma run_program_append:
  assumes "program_ready pr w = (Inr (cfg, l0), w1)"
    and "serve (pr_os pr) cfg (pr_codec pr) (tmux_session (pr_runner pr)) xs l0 = Some (False, l)"
  shows "run_program pr (xs @ ys) w =
    map_option (\<lambda>(stop, l1). if stop then Exited l1 else Serving l1)
      (serve (pr_os pr) cfg (pr_codec pr) (tmux_session (pr_runner pr)) ys l)"
  using assms by (simp add: run_program_def serve_append)

text \<open>The daemon of a program that is ready is one that has started.\<close>

lemma program_ready_started:
  assumes "program_ready pr w = (Inr (cfg, l), w1)"
  obtains dc u d v where "startup (pr_os pr) (pr_host pr) (pr_runner pr) dc u = (Inr (cfg, d), v)"
    and "lp_daemon l = set_world w1 d"
proof -
  from assms obtain root u d v where m: "daemon_main (pr_os pr) (pr_host pr) (pr_runner pr) root u = (Inr (cfg, d), v)"
    and l: "lp_daemon l = set_world w1 d"
    unfolding program_ready_def
    by (fastforce elim!: bind_InrE simp: map_err_def split: prod.splits sum.splits)
  from m obtain dc u1 where "startup (pr_os pr) (pr_host pr) (pr_runner pr) dc u1 = (Inr (cfg, d), v)"
    unfolding daemon_main_def
    by (fastforce elim!: bind_InrE split: prod.splits sum.splits)
  with that l show thesis by blast
qed

section \<open>A daemon that is left alone\<close>

text \<open>The requests that bring the runtime an event. \<open>internal_tx\<close> is stored and never sent to, so an
  internal event never comes.\<close>

fun brings_event :: "request \<Rightarrow> bool" where
  "brings_event (EventRequest _) = True"
| "brings_event (SessionSend _ _) = True"
| "brings_event (PipelineResume _) = True"
| "brings_event (PipelineFail _ _) = True"
| "brings_event _ = False"

definition passive_input :: "codec \<Rightarrow> loop_input \<Rightarrow> bool" where
  "passive_input c inp =
     (case inp of
        Connection rd rt wt \<Rightarrow>
          (case fst (read_request (cd_request c) rt rd) of Inl _ \<Rightarrow> True | Inr req \<Rightarrow> \<not> brings_event req)
      | InternalEvent _ \<Rightarrow> False
      | _ \<Rightarrow> True)"

definition idle_daemon :: "'w daemon \<Rightarrow> bool" where
  "idle_daemon d \<longleftrightarrow> dm_scheduler d = scheduler_new \<and> state_wf (rt_state (dm_runtime d)) \<and>
     unlinked (rt_state (dm_runtime d))"

text \<open>The runtime is the same but for the world.\<close>

definition only_world :: "'w daemon \<Rightarrow> 'w daemon \<Rightarrow> bool" where
  "only_world d d1 \<longleftrightarrow> dm_scheduler d1 = dm_scheduler d \<and> (\<exists>w. dm_runtime d1 = dm_runtime (set_world w d))"

lemma only_world_refl: "only_world d d"
  unfolding only_world_def
  by (rule conjI [OF refl exI [of _ "rt_world (dm_runtime d)"]]) (simp add: set_world_def)

lemma only_world_set: "only_world d (set_world w d)"
  by (auto simp: only_world_def)

lemma only_world_trans: "only_world d d1 \<Longrightarrow> only_world d1 d2 \<Longrightarrow> only_world d d2"
  by (auto simp: only_world_def set_world_def)

lemma only_world_idle: "only_world d d1 \<Longrightarrow> idle_daemon d \<Longrightarrow> idle_daemon d1"
  by (auto simp: only_world_def idle_daemon_def set_world_def)

lemma request_only_world:
  assumes "\<not> brings_event req"
  shows "\<exists>resp d1. handle_request cfg v d req = Some (resp, d1) \<and> only_world d d1"
proof (cases req)
  case StatusRequest
  then show ?thesis by (simp add: only_world_set del: status_response_def split: prod.split)
next
  case Shutdown
  then show ?thesis using only_world_refl [of d] by (simp add: only_world_def set_world_def)
qed (use assms only_world_refl in \<open>simp_all del: handle_query.simps\<close>)

lemma connection_only_world:
  assumes "passive_input c (Connection rd rt wt)"
  shows "\<exists>res out d1. handle_connection cfg c rt wt rd d = Some (res, out, d1) \<and> only_world d d1"
proof (cases "fst (read_request (cd_request c) rt rd)")
  case (Inl e)
  then show ?thesis using only_world_refl by (cases e) (simp_all add: handle_connection_def)
next
  case (Inr req)
  with assms request_only_world [of req cfg "cd_version c" d] obtain resp d1 where
    "handle_request cfg (cd_version c) d req = Some (resp, d1)" "only_world d d1"
    by (auto simp: passive_input_def)
  with Inr show ?thesis by (auto simp: handle_connection_def split: prod.split sum.split)
qed

lemma session_check_only_world:
  assumes "idle_daemon d"
  shows "only_world d (run_session_check cfg tmux d)"
proof -
  have none: "session_id p = None" if "p \<in> set (map snd (pipelines (rt_state (dm_runtime d))))" for p
    using that assms by (auto simp: idle_daemon_def state_wf_def unlinked_def hm.entries_lookup)
  have "check_each tmux ps w = ([], w)" if "\<forall>p \<in> set ps. session_id p = None" for ps w
    using that by (induction ps) (simp_all add: check_session_def)
  with none have "check_sessions tmux (rt_state (dm_runtime d)) w = ([], w)" for w
    by (simp add: check_sessions_def)
  then show ?thesis by (simp add: run_session_check_def Let_def only_world_set)
qed

lemma tick_only_world:
  assumes "idle_daemon (lp_daemon l)"
  shows "\<exists>l1. loop_tick cfg tmux l = Some l1 \<and> only_world (lp_daemon l) (lp_daemon l1)"
proof -
  have "dm_scheduler (lp_daemon l) = scheduler_new" using assms by (simp add: idle_daemon_def)
  note h = heartbeat_noop [OF this, of cfg]
  have "only_world (lp_daemon l) (run_session_check cfg tmux (set_world w (lp_daemon l)))" for w
    by (rule only_world_trans [OF only_world_set
          session_check_only_world [OF only_world_idle [OF only_world_set assms]]])
  then show ?thesis
    using only_world_set by (auto simp: loop_tick_def h set_world_def split: prod.split)
qed

lemma shutdown_only_world: "only_world d d1 \<Longrightarrow> only_world d (shutdown os d1)"
  by (simp add: shutdown_def Let_def only_world_trans [OF _ only_world_set])

lemma step_only_world:
  assumes "passive_input c inp" and "idle_daemon (lp_daemon l)"
  shows "\<exists>stop l1. loop_step os cfg c tmux inp l = Some (stop, l1) \<and> only_world (lp_daemon l) (lp_daemon l1)"
proof (cases inp)
  case (Connection rd rt wt)
  with connection_only_world [of c rd rt wt cfg "lp_daemon l"] assms(1) shutdown_only_world show ?thesis
    by (fastforce simp: loop_step_def)
next
  case Tick
  with tick_only_world [OF assms(2), of cfg tmux] shutdown_only_world show ?thesis
    by (fastforce simp: loop_step_def)
next
  case (InternalEvent e)
  with assms(1) show ?thesis by (simp add: passive_input_def)
qed (use only_world_refl shutdown_only_world in \<open>auto simp: loop_step_def\<close>)

lemma serve_only_world:
  assumes "\<forall>x \<in> set ins. passive_input c (snd x)"
  shows "idle_daemon (lp_daemon l) \<Longrightarrow>
    \<exists>stop l1. serve os cfg c tmux ins l = Some (stop, l1) \<and> only_world (lp_daemon l) (lp_daemon l1)"
  using assms
proof (induction ins arbitrary: l)
  case (Cons x ins)
  obtain outside inp where x: "x = (outside, inp)" by fastforce
  let ?d = "set_world (outside (rt_world (dm_runtime (lp_daemon l)))) (lp_daemon l)"
  have idle: "idle_daemon ?d" by (rule only_world_idle [OF only_world_set Cons.prems(1)])
  from step_only_world [of c inp "l\<lparr>lp_daemon := ?d\<rparr>" os cfg tmux] Cons.prems(2) x idle obtain stop l1 where
    step: "loop_step os cfg c tmux inp (l\<lparr>lp_daemon := ?d\<rparr>) = Some (stop, l1)"
    and w: "only_world ?d (lp_daemon l1)" by auto
  note l1 = only_world_trans [OF only_world_set w]
  show ?case
  proof (cases stop)
    case True
    with step l1 x show ?thesis by auto
  next
    case False
    from Cons.IH [OF only_world_idle [OF w idle]] Cons.prems(2) step x False l1 show ?thesis
      by (fastforce intro: only_world_trans)
  qed
qed (auto simp: only_world_refl)

lemma started_idle:
  assumes "startup os base run c w = (Inr (cfg, d), w1)"
  shows "idle_daemon d" and "\<not> dm_shutdown_requested d"
  using startup_state [OF assms] assms by (auto simp: idle_daemon_def startup_def split: prod.splits sum.splits)

lemma serving_idle:
  assumes "program_ready pr w = (Inr (cfg, l0), w1)"
    and "serve (pr_os pr) cfg (pr_codec pr) (tmux_session (pr_runner pr)) ins l0 = Some (False, l)"
  shows "idle_daemon (lp_daemon l)"
proof -
  from assms(1) obtain dc u d v where
    s: "startup (pr_os pr) (pr_host pr) (pr_runner pr) dc u = (Inr (cfg, d), v)"
    and l0: "lp_daemon l0 = set_world w1 d" by (rule program_ready_started)
  from only_world_idle [OF only_world_set started_idle(1) [OF s]] l0 have i: "idle_daemon (lp_daemon l0)"
    by simp
  note run = serve_runs [OF assms(2) loop_start]
  show ?thesis
    using i daemon_runs_scheduler [OF run] wf_rt.reaches_I [OF daemon_runs_reaches [OF run]]
      unlinked_rt.reaches_I [OF daemon_runs_reaches [OF run]] by (simp add: idle_daemon_def)
qed

lemma reconcile_untimed: "reconcile_state (untimed st) = reconcile_state st"
proof -
  have "map snd (pipelines (untimed st)) = map untime (map snd (pipelines st))"
    by (simp add: untimed_def hm_map_def case_prod_unfold comp_def)
  moreover have "is_terminal (untime p) = is_terminal p" and "id (untime p) = id p" and "name (untime p) = name p"
    and "phase (untime p) = phase p" for p
    by (simp_all add: untime_def is_terminal_def)
  moreover have "sessions (untimed st) = sessions st" by (simp add: untimed_def)
  ultimately show ?thesis by (simp add: reconcile_state_def Let_def filter_map comp_def)
qed

text \<open>A daemon that starts on the log of another warns of exactly the unfinished pipelines and the sessions
  that one left.\<close>

lemma startup_warns:
  assumes "text_tells (os_de os) t st" and "log_left os (dc_wal_path c) t"
    and "startup os base run c w = (Inr (cfg, d), w')"
  shows "reconcile_state (rt_state (dm_runtime d)) = reconcile_state st"
  using startup_text(1) [OF assms(1) refl assms(2,3)] reconcile_untimed by metis

section \<open>Stopping\<close>

definition asks_to_stop :: "codec \<Rightarrow> loop_input \<Rightarrow> bool" where
  "asks_to_stop c inp =
     (case inp of
        Connection rd rt wt \<Rightarrow> fst (read_request (cd_request c) rt rd) = Inr Shutdown
      | Signal \<Rightarrow> True
      | _ \<Rightarrow> False)"

lemma step_goes_on:
  assumes "loop_step os cfg c tmux inp l = Some (False, l1)"
    and "\<not> dm_shutdown_requested (lp_daemon l)"
  shows "\<not> asks_to_stop c inp" and "\<not> dm_shutdown_requested (lp_daemon l1)"
proof -
  show r: "\<not> dm_shutdown_requested (lp_daemon l1)"
    using assms(1) by (auto simp: loop_step_def split: option.splits bool.splits if_splits)
  show "\<not> asks_to_stop c inp"
  proof (cases inp)
    case (Connection rd rt wt)
    with assms(1) obtain res out where
      h: "handle_connection cfg c rt wt rd (lp_daemon l) = Some (res, out, lp_daemon l1)"
      by (auto simp: loop_step_def split: option.splits bool.splits if_splits)
    have "lp_daemon l1 = (lp_daemon l)\<lparr>dm_shutdown_requested := True\<rparr>"
      if "fst (read_request (cd_request c) rt rd) = Inr Shutdown"
      using h that by (auto simp: handle_connection_def split: prod.splits sum.splits)
    then have "dm_shutdown_requested (lp_daemon l1)"
      if "fst (read_request (cd_request c) rt rd) = Inr Shutdown" using that by simp
    with r Connection show ?thesis by (auto simp: asks_to_stop_def)
  next
    case Signal
    with assms(1) show ?thesis by (simp add: loop_step_def)
  qed (simp_all add: asks_to_stop_def)
qed

lemma serve_goes_on:
  "serve os cfg c tmux ins l = Some (False, l1) \<Longrightarrow> \<not> dm_shutdown_requested (lp_daemon l) \<Longrightarrow>
   (\<forall>x \<in> set ins. \<not> asks_to_stop c (snd x)) \<and> \<not> dm_shutdown_requested (lp_daemon l1)"
proof (induction ins arbitrary: l)
  case (Cons x ins)
  obtain outside inp where x: "x = (outside, inp)" by fastforce
  let ?l = "l\<lparr>lp_daemon := set_world (outside (rt_world (dm_runtime (lp_daemon l)))) (lp_daemon l)\<rparr>"
  from Cons.prems(1) x obtain l2 where step: "loop_step os cfg c tmux inp ?l = Some (False, l2)"
    and s: "serve os cfg c tmux ins l2 = Some (False, l1)"
    by (auto split: option.splits prod.splits bool.splits)
  from step_goes_on [OF step] Cons.prems(2) have "\<not> asks_to_stop c inp"
    and "\<not> dm_shutdown_requested (lp_daemon l2)" by simp_all
  with Cons.IH [OF s] x show ?case by simp
qed simp

text \<open>The turn that stops: of the daemon's state only the three files go.\<close>

lemma step_stops:
  assumes "asks_to_stop c inp"
  shows "\<exists>l1. loop_step os cfg c tmux inp l = Some (True, l1) \<and>
    dm_runtime (lp_daemon l1) = dm_runtime (shutdown os (lp_daemon l))"
proof (cases inp)
  case (Connection rd rt wt)
  with assms have "fst (read_request (cd_request c) rt rd) = Inr Shutdown" by (simp add: asks_to_stop_def)
  then obtain res out where
    "handle_connection cfg c rt wt rd (lp_daemon l) = Some (res, out, (lp_daemon l)\<lparr>dm_shutdown_requested := True\<rparr>)"
    by (cases "write_response (cd_response c) wt ShuttingDown []"; cases "fst (write_response (cd_response c) wt ShuttingDown [])")
      (auto simp: handle_connection_def)
  with Connection show ?thesis by (simp add: loop_step_def shutdown_def set_world_def Let_def)
next
  case Signal
  then show ?thesis by (simp add: loop_step_def)
qed (use assms in \<open>simp_all add: asks_to_stop_def\<close>)

lemma shutdown_files:
  fixes d :: "files daemon"
  assumes "os_exists os = os_exists file_os" and "os_remove_file os = os_remove_file file_os"
  shows "hm_get (fl_content (rt_world (dm_runtime (shutdown os d)))) p =
      (if p \<in> {dc_socket_path (dm_config d), dc_version_path (dm_config d), dc_lock_path (dm_config d)} then None
       else hm_get (fl_content (rt_world (dm_runtime d))) p)"
    and "rt_executor (dm_runtime (shutdown os d)) =
      (rt_executor (dm_runtime d))\<lparr>ex_world := rt_world (dm_runtime (shutdown os d))\<rparr>"
proof -
  have "hm_get (fl_content (remove_if_exists os p u)) = (hm_get (fl_content u))(p := None)" for p u
    using assms by (auto simp: remove_if_exists_def file_os_def hm_contains_def fun_eq_iff)
  then show "hm_get (fl_content (rt_world (dm_runtime (shutdown os d)))) p =
      (if p \<in> {dc_socket_path (dm_config d), dc_version_path (dm_config d), dc_lock_path (dm_config d)} then None
       else hm_get (fl_content (rt_world (dm_runtime d))) p)"
    by (auto simp: shutdown_def Let_def)
qed (simp add: shutdown_def set_world_def Let_def)

section \<open>Properties\<close>

text \<open>C24: the daemon does nothing by itself. Whatever it has served so far, as long as no request brings
  it an event, every turn of its loop returns and leaves its state, its log, its timers and its watchers
  as they are: the heartbeat finds no timer that fires, whatever timers the runtime has set, the check of
  the sessions finds no session to ask for, and what a start found unfinished in the log is neither
  resumed nor failed.\<close>

theorem only_requests_act:
  assumes "run_program pr before w = Some (Serving l)"
    and "\<forall>x \<in> set after. passive_input (pr_codec pr) (snd x)"
  shows "\<exists>l1 v. run_program pr (before @ after) w \<in> {Some (Serving l1), Some (Exited l1)} \<and>
    dm_runtime (lp_daemon l1) = dm_runtime (set_world v (lp_daemon l))"
proof -
  from assms(1) obtain cfg l0 w1 where ready: "program_ready pr w = (Inr (cfg, l0), w1)"
    and run: "serve (pr_os pr) cfg (pr_codec pr) (tmux_session (pr_runner pr)) before l0 = Some (False, l)"
    by (rule run_program_Serving)
  from serve_only_world [OF assms(2) serving_idle [OF ready run]] obtain stop l1 where
    "serve (pr_os pr) cfg (pr_codec pr) (tmux_session (pr_runner pr)) after l = Some (stop, l1)"
    and w: "only_world (lp_daemon l) (lp_daemon l1)" by blast
  with run_program_append [OF ready run, of after]
  have "run_program pr (before @ after) w \<in> {Some (Serving l1), Some (Exited l1)}" by simp
  with w show ?thesis by (auto simp: only_world_def)
qed

text \<open>C25: the program serves until it is asked to stop, and then stops at once. A signal or a
  \<open>Shutdown\<close> request that can be read ends it, whatever would come after and even when the answer cannot
  be written; nothing before it was such an input. The socket, the lock file and the version file are
  gone, every other file, the runtime's log, state and timers are what they were.\<close>

theorem program_stops:
  fixes pr :: "files process"
  assumes "run_program pr before w = Some (Serving l)" and "asks_to_stop (pr_codec pr) inp"
    and "os_exists (pr_os pr) = os_exists file_os" and "os_remove_file (pr_os pr) = os_remove_file file_os"
  defines "c \<equiv> dm_config (lp_daemon l)" and "r \<equiv> dm_runtime (lp_daemon l)"
  shows "(\<forall>x \<in> set before. \<not> asks_to_stop (pr_codec pr) (snd x)) \<and>
    (\<exists>l1. run_program pr (before @ (outside, inp) # after) w = Some (Exited l1) \<and>
      (\<forall>p. hm_get (fl_content (rt_world (dm_runtime (lp_daemon l1)))) p =
        (if p \<in> {dc_socket_path c, dc_version_path c, dc_lock_path c} then None
         else hm_get (fl_content (outside (rt_world r))) p)) \<and>
      rt_executor (dm_runtime (lp_daemon l1)) =
        (rt_executor r)\<lparr>ex_world := rt_world (dm_runtime (lp_daemon l1))\<rparr>)"
proof -
  from assms(1) obtain cfg l0 w1 where ready: "program_ready pr w = (Inr (cfg, l0), w1)"
    and run: "serve (pr_os pr) cfg (pr_codec pr) (tmux_session (pr_runner pr)) before l0 = Some (False, l)"
    by (rule run_program_Serving)
  from ready obtain dc u d v where
    s: "startup (pr_os pr) (pr_host pr) (pr_runner pr) dc u = (Inr (cfg, d), v)"
    and l0: "lp_daemon l0 = set_world w1 d" by (rule program_ready_started)
  from serve_goes_on [OF run] started_idle(2) [OF s] l0
  have never: "\<forall>x \<in> set before. \<not> asks_to_stop (pr_codec pr) (snd x)" by simp
  let ?d = "set_world (outside (rt_world r)) (lp_daemon l)"
  from step_stops [OF assms(2), of "pr_os pr" cfg "tmux_session (pr_runner pr)" "l\<lparr>lp_daemon := ?d\<rparr>"]
  obtain l1 where step: "loop_step (pr_os pr) cfg (pr_codec pr) (tmux_session (pr_runner pr)) inp
      (l\<lparr>lp_daemon := ?d\<rparr>) = Some (True, l1)"
    and l1: "dm_runtime (lp_daemon l1) = dm_runtime (shutdown (pr_os pr) ?d)" by auto
  have exited: "run_program pr (before @ (outside, inp) # after) w = Some (Exited l1)"
    using step by (simp add: run_program_append [OF ready run] r_def)
  note files = shutdown_files [OF assms(3,4), of ?d]
  have "rt_executor (dm_runtime (lp_daemon l1)) =
      (rt_executor r)\<lparr>ex_world := rt_world (dm_runtime (lp_daemon l1))\<rparr>"
    unfolding l1 by (subst files(2)) (simp add: set_world_def r_def)
  with never exited files(1) show ?thesis by (auto simp: l1 c_def)
qed

section \<open>A program on the small file system\<close>

text \<open>The daemon of the project \<open>/p\<close>, on a log that holds a text.\<close>

definition log_process :: "string \<Rightarrow> files process" where
  "log_process t =
     \<lparr>pr_os = log_os t, pr_host = file_host, pr_runner = no_commands, pr_args = [''ojd'', ''/p''],
      pr_cwd = (\<lambda>_. Inr ''/''), pr_signal = (\<lambda>_. ok ()), pr_codec = ping_codec\<rparr>"

lemma log_os_paths: "for_project (log_os t) root w = for_project file_os root w"
proof -
  have o: "os_env (log_os t) = os_env file_os" "os_sha256 (log_os t) = os_sha256 file_os"
    "os_canonicalize (log_os t) = os_canonicalize file_os" by (simp_all add: log_os_def)
  have p: "project_hash (log_os t) = project_hash file_os" "state_dir (log_os t) = state_dir file_os"
    "socket_dir (log_os t) = socket_dir file_os"
    unfolding fun_eq_iff project_hash_def state_dir_def socket_dir_def o by simp_all
  show ?thesis unfolding for_project_def o p by simp
qed

lemma log_process_serves:
  assumes "wal_replay num_de (Inr t) = Inr ops" and "fl_locked w = []"
  shows "\<exists>cfg l. program_ready (log_process t) w = (Inr (cfg, l), rt_world (dm_runtime (lp_daemon l))) \<and>
    run_program (log_process t) [] w = Some (Serving l)"
proof -
  obtain dc where dc: "for_project file_os ''/p'' w = Inr dc"
    and log: "dc_log_path dc = ''/home/u/.local/state/oj/projects/01ff/daemon.log''"
    using file_os_config [of "''/p''" w] by auto
  have root: "for_project (log_os t) ''/p'' w = Inr dc" using dc log_os_paths by simp
  have par: "create_parent (log_os t) p = ok ()" for p
    by (simp add: create_parent_def io_def map_err_def ok_def fun_eq_iff split: option.split)
  have logging: "setup_logging (log_os t) dc = ok ()"
    by (simp add: setup_logging_def par log file_name_def dirname_def comp_defs fun_eq_iff)
  have app: "os_append (log_os t) = os_append file_os" by (simp add: log_os_def)
  obtain m where m: "write_startup_marker (log_os t) dc w = (Inr (), m)" and "fl_locked m = []"
    using assms(2) by (simp add: write_startup_marker_def par app file_os_append io_def comp_defs put_file_def)
  moreover have "fl_locked (trace (log_os t) dc level msg u) = fl_locked u" for level msg u
    by (simp add: trace_def app file_os_append put_file_def split: option.split)
  ultimately obtain cfg d v where s: "startup (log_os t) file_host no_commands dc
      (trace (log_os t) dc ''INFO'' (''Starting ojd for project: /p'') m) = (Inr (cfg, d), v)"
    using startup_on_log_at [OF assms(1), of dc _ file_host no_commands] by fastforce
  have main: "daemon_main (log_os t) file_host no_commands ''/p'' w = (Inr (cfg, d), v)"
    by (simp add: daemon_main_def comp_defs root m logging s)
  have now: "h_now file_host u = (fl_time u, u\<lparr>fl_time := fl_time u + 1\<rparr>)" for u
    by (simp add: file_host_def)
  have "\<exists>l. program_ready (log_process t) w = (Inr (cfg, l), rt_world (dm_runtime (lp_daemon l)))"
    by (simp add: program_ready_def log_process_def program_root_def comp_defs main now)
  then show ?thesis by (auto simp: run_program_def)
qed

text \<open>The daemon of a project in whose log a pipeline is unfinished: it serves for an hour of ticks, and
  the pipeline is in its first phase still.\<close>

theorem only_requests_act_witness:
  "\<exists>x l1 p. execute entry_host (Persist (PipelineCreate ''p'' ''build'' ''n'' [] ''init''))
      (empty_executor \<lparr>fl_content = [], fl_locked = [], fl_time = 3\<rparr>) = (Inr None, x) \<and>
    run_program (log_process (wal_file (ex_wal x)))
      (replicate 3600 (\<lambda>w. w\<lparr>fl_time := fl_time w + 1000000000\<rparr>, Tick)) no_files
      \<in> {Some (Serving l1), Some (Exited l1)} \<and>
    hm_get (pipelines (rt_state (dm_runtime (lp_daemon l1)))) ''p'' = Some p \<and> phase p = ''init''"
proof -
  let ?op = "PipelineCreate ''p'' ''build'' ''n'' [] ''init''"
  let ?e = "empty_executor \<lparr>fl_content = [], fl_locked = [], fl_time = 3\<rparr>"
  let ?after = "replicate 3600 (\<lambda>w :: files. w\<lparr>fl_time := fl_time w + 1000000000\<rparr>, Tick)"
  obtain x where x: "execute entry_host (Persist ?op) ?e = (Inr None, x)"
    by (simp add: execute_def exec_defs comp_defs entry_host_def file_host_def wal_append_def num_ser_def
        empty_executor_def)
  have told: "log_tells_state num_de x"
    by (rule log_tells_state_append [OF entry_host_reliable empty_executor_log x])
  then obtain ops where log: "wal_replay num_de (Inr (wal_file (ex_wal x))) = Inr ops"
    by (auto simp: log_tells_state_def log_holds_def)
  let ?pr = "log_process (wal_file (ex_wal x))"
  obtain cfg l where ready: "program_ready ?pr no_files = (Inr (cfg, l), rt_world (dm_runtime (lp_daemon l)))"
    and run: "run_program ?pr [] no_files = Some (Serving l)"
    using log_process_serves [OF log, of no_files] by (auto simp: no_files_def)
  from ready obtain dc u d v where "startup (pr_os ?pr) (pr_host ?pr) (pr_runner ?pr) dc u = (Inr (cfg, d), v)"
    and l: "lp_daemon l = set_world (rt_world (dm_runtime (lp_daemon l))) d" by (rule program_ready_started)
  then have s: "startup (log_os (wal_file (ex_wal x))) file_host no_commands dc u = (Inr (cfg, d), v)"
    by (simp add: log_process_def)
  have "untimed (rt_state (dm_runtime d)) = untimed (ex_state x)"
    using startup_tells(1) [OF _ _ s, of "\<lparr>rt_executor = x, rt_watchers = []\<rparr>"] told by simp
  moreover have "rt_state (dm_runtime (lp_daemon l)) = rt_state (dm_runtime d)"
    by (subst l) (simp add: set_world_def)
  ultimately have same: "untimed (rt_state (dm_runtime (lp_daemon l))) = untimed (ex_state x)" by simp
  obtain now where st: "ex_state x = apply_op now ?op state_default"
    using execute_persist [OF x] by (auto simp: empty_executor_def)
  obtain q where "hm_get (pipelines (ex_state x)) ''p'' = Some q" "phase q = ''init''"
    using st by (simp add: pipeline_new_def)
  with untimed_get [OF same] untime_fields(4) obtain p where
    p: "hm_get (pipelines (rt_state (dm_runtime (lp_daemon l)))) ''p'' = Some p" "phase p = ''init''" by metis
  have "\<forall>y \<in> set ?after. passive_input (pr_codec ?pr) (snd y)" by (simp add: passive_input_def)
  from only_requests_act [OF run this] obtain l1 w where
    e: "run_program ?pr ([] @ ?after) no_files \<in> {Some (Serving l1), Some (Exited l1)}"
    and r: "dm_runtime (lp_daemon l1) = dm_runtime (set_world w (lp_daemon l))" by blast
  have "hm_get (pipelines (rt_state (dm_runtime (lp_daemon l1)))) ''p'' = Some p"
    unfolding r using p(1) by (simp add: set_world_def)
  then show ?thesis by (intro exI conjI) (rule x, rule e [unfolded append_Nil], assumption, rule p(2))
qed

theorem program_stops_witness:
  "\<exists>l l1. run_program (log_process []) [] no_files = Some (Serving l) \<and>
    run_program (log_process []) ([] @ (\<lambda>w. w, Signal) # [(\<lambda>w. w, Tick)]) no_files = Some (Exited l1) \<and>
    hm_get (fl_content (rt_world (dm_runtime (lp_daemon l1)))) (dc_lock_path (dm_config (lp_daemon l))) = None"
proof -
  have "wal_replay num_de (Inr []) = Inr []" by (simp add: wal_replay_def)
  from log_process_serves [OF this, of no_files] obtain l where
    run: "run_program (log_process []) [] no_files = Some (Serving l)" by (auto simp: no_files_def)
  have stop: "asks_to_stop (pr_codec (log_process [])) Signal" by (simp add: asks_to_stop_def)
  have "os_exists (log_os []) = os_exists file_os" and "os_remove_file (log_os []) = os_remove_file file_os"
    by (simp_all add: log_os_def)
  then have fs: "os_exists (pr_os (log_process [])) = os_exists file_os"
    "os_remove_file (pr_os (log_process [])) = os_remove_file file_os" by (simp_all add: log_process_def)
  from program_stops [OF run stop fs, of "\<lambda>w. w" "[(\<lambda>w. w, Tick)]"] run show ?thesis by auto
qed

end
