(* ===== verification/Pipeline_Liveness.thy ===== *)
theory Pipeline_Liveness
  imports Pipeline_Properties Daemon_Program
begin

text \<open>
  Whether pipelines come to rest. On a host that works, and if they lead down their definitions, they
  do, whatever the daemon is asked; a pipeline that leads in a circle keeps the daemon in one call of
  \<open>process_event\<close> for ever.
\<close>

section \<open>No pipeline is left in the middle\<close>

lemma serve_keeps:
  assumes "smooth_host (rc_host cfg)" and "task_runbook cfg"
  shows "settled_daemon (rc_runbook cfg) (lp_daemon l) \<Longrightarrow>
    \<exists>stop l1. serve os cfg c tmux ins l = Some (stop, l1) \<and> settled_daemon (rc_runbook cfg) (lp_daemon l1)"
proof (induction ins arbitrary: l)
  case (Cons x ins)
  obtain outside inp where x: "x = (outside, inp)" by fastforce
  let ?l = "l\<lparr>lp_daemon := set_world (outside (rt_world (dm_runtime (lp_daemon l)))) (lp_daemon l)\<rparr>"
  have "settled_daemon (rc_runbook cfg) (lp_daemon ?l)" using Cons.prems by simp
  from step_keeps [OF assms this, of os c tmux inp] obtain stop l2 where
    step: "loop_step os cfg c tmux inp ?l = Some (stop, l2)"
    and l2: "settled_daemon (rc_runbook cfg) (lp_daemon l2)" by blast
  show ?case
  proof (cases stop)
    case True
    with step l2 x show ?thesis by (auto intro: exI [of _ True])
  next
    case False
    with Cons.IH [OF l2] step x show ?thesis by simp
  qed
qed (auto intro: exI [of _ False])

lemma nothing_settled:
  "pipelines (rt_state (dm_runtime d)) = [] \<Longrightarrow> state_wf (rt_state (dm_runtime d)) \<Longrightarrow>
   dm_scheduler d = scheduler_new \<Longrightarrow> settled_daemon rb d"
  by (simp add: settled_daemon_def settled_def hm_get_def)

text \<open>C6: from a daemon without pipelines on, as a start on a log that tells of none leaves it, no
  pipeline is left in the middle and the daemon never hangs. If the host works and every pipeline of the
  runbook is one of shell commands and agents that leads down its definition, then the main loop gets
  through any sequence of requests, events, ticks and signals, whatever happens to the world between
  them, and after it every pipeline has ended or is in a phase whose directive runs an agent. In
  particular none is left in the phase of a shell command.\<close>

theorem no_pipeline_stuck:
  assumes "smooth_host (rc_host cfg)" and "task_runbook cfg"
    and "pipelines (rt_state (dm_runtime (lp_daemon l0))) = []"
    and "state_wf (rt_state (dm_runtime (lp_daemon l0)))" and "dm_scheduler (lp_daemon l0) = scheduler_new"
  shows "\<exists>stop l. serve os cfg c tmux ins l0 = Some (stop, l) \<and>
    (\<forall>pid p. hm_get (pipelines (rt_state (dm_runtime (lp_daemon l)))) pid = Some p \<longrightarrow>
       is_terminal p \<or> agent_phase (rc_runbook cfg) (kind p) (phase p))"
proof -
  from serve_keeps [OF assms(1,2) nothing_settled [OF assms(3-5)]] obtain stop l where
    s: "serve os cfg c tmux ins l0 = Some (stop, l)" and st: "settled_daemon (rc_runbook cfg) (lp_daemon l)"
    by blast
  have "is_terminal p \<or> agent_phase (rc_runbook cfg) (kind p) (phase p)"
    if "hm_get (pipelines (rt_state (dm_runtime (lp_daemon l)))) pid = Some p" for pid p
    using settledD [OF _ that] st by (simp add: settled_daemon_def at_rest_def is_terminal_iff)
  with s show ?thesis by blast
qed

text \<open>A daemon that is asked to build twice, with the clock running in between. Its runbook has a pipeline
  with an agent.\<close>

theorem no_pipeline_stuck_witness:
  "\<forall>os. \<exists>stop l. serve os mend_config ping_codec noop_session
      [(\<lambda>w. w, InternalEvent (CommandInvoked ''build'' [])), (\<lambda>(t, n). (t + 60, n), Tick),
       (\<lambda>w. w, InternalEvent (CommandInvoked ''build'' [])), (\<lambda>w. w, InternalEvent (AgentDone ''p0''))]
      \<lparr>lp_daemon = daemon_of fresh_runtime, lp_last_check = 0\<rparr> = Some (stop, l) \<and>
    (\<forall>pid p. hm_get (pipelines (rt_state (dm_runtime (lp_daemon l)))) pid = Some p \<longrightarrow>
       is_terminal p \<or> agent_phase mend_runbook (kind p) (phase p))"
proof -
  have 1: "pipelines (rt_state (dm_runtime (daemon_of fresh_runtime))) = []"
    "state_wf (rt_state (dm_runtime (daemon_of fresh_runtime)))"
    "dm_scheduler (daemon_of fresh_runtime) = scheduler_new"
    by (simp_all add: daemon_of_def fresh_runtime_def runtime_new_def state_default_def state_wf_def)
  have rb: "rc_runbook mend_config = mend_runbook" by (simp add: mend_config_def)
  show ?thesis
    using no_pipeline_stuck [OF mend_facts(5) mend_runbook_tasks,
        of "\<lparr>lp_daemon = daemon_of fresh_runtime, lp_last_check = 0\<rparr>", unfolded loop_state.simps, OF 1]
    unfolding rb by blast
qed

section \<open>Phases that lead to each other\<close>

text \<open>A set of shell phases that successful commands do not leave: one that is its own next phase, or
  several that lead around in a circle, with those that lead to them.\<close>

definition circles :: "pipeline_def \<Rightarrow> string set \<Rightarrow> bool" where
  "circles d ns \<longleftrightarrow> (\<forall>n \<in> ns. \<not> terminal n \<and> leads_to d n True \<in> ns \<and>
     (\<exists>phd c. get_phase d n = Some phd \<and> ph_run phd = RunShell c))"

definition circling :: "runbook \<Rightarrow> string set \<Rightarrow> string \<Rightarrow> string \<Rightarrow> 'w runtime \<Rightarrow> bool" where
  "circling rb ns pid n r \<longleftrightarrow> n \<in> ns \<and>
     (\<exists>p d. hm_get (pipelines (rt_state r)) pid = Some p \<and> id p = pid \<and> phase p = n \<and>
        get_pipeline_def rb (kind p) = Some d \<and> circles d ns)"

lemma circles_next:
  assumes "circles d ns" and "phase p \<in> ns" and "get_pipeline_def rb (kind p) = Some d"
  shows "next_phase_name rb p = Some (leads_to d (phase p) True)"
proof -
  from assms(1,2) obtain phd where ph: "get_phase d (phase p) = Some phd"
    and to: "leads_to d (phase p) True \<in> ns" by (auto simp: circles_def)
  have "leads_to d (phase p) True \<noteq> ''done''" using assms(1) to by (auto simp: circles_def terminal_def)
  with ph assms(3) show ?thesis
    by (auto simp: next_phase_name_def leads_to_def split: option.splits if_splits)
qed

lemma succeeding_code:
  assumes "commands_succeed h" and "code_of h c code" shows "code = 0"
  using assms by (auto simp: commands_succeed_def code_of_def)

lemma circling_start:
  assumes h: "smooth_host (rc_host cfg)" "commands_succeed (rc_host cfg)"
    and d: "get_pipeline_def (rc_runbook cfg) (kind p) = Some d" and ns: "circles d ns" "n \<in> ns"
    and p: "hm_get (pipelines (rt_state r)) pid = Some p" "id p = pid" "phase p = n"
  shows "\<exists>s. start_phase cfg pid n ins w r = (Inr [ShellCompleted pid n 0], s) \<and>
    circling (rc_runbook cfg) ns pid n s"
proof -
  from ns obtain phd c where "get_phase d n = Some phd" "ph_run phd = RunShell c" by (auto simp: circles_def)
  from start_shell [OF h(1) d this p(1), of ins w] obtain s where
    s: "start_phase cfg pid n ins w r = (Inr [ShellCompleted pid n 0], s)"
      "applies [PhaseStatusUpdate pid Running] r s"
    using succeeding_code [OF h(2)] by blast
  then have "hm_get (pipelines (rt_state s)) pid = Some (p\<lparr>status := Running\<rparr>)"
    using p(1) by (auto simp: applies_def)
  with s(1) d ns p show ?thesis by (auto simp: circling_def)
qed

lemma circling_step:
  assumes h: "smooth_host (rc_host cfg)" "commands_succeed (rc_host cfg)"
    and c: "circling (rc_runbook cfg) ns pid n r"
  shows "\<exists>m s. handle_event cfg (ShellCompleted pid n 0) r = (Inr [ShellCompleted pid m 0], s) \<and>
    circling (rc_runbook cfg) ns pid m s"
proof -
  from c obtain p d where p: "hm_get (pipelines (rt_state r)) pid = Some p" "id p = pid" "phase p = n"
    and d: "get_pipeline_def (rc_runbook cfg) (kind p) = Some d" and ns: "circles d ns" "n \<in> ns"
    by (auto simp: circling_def)
  let ?m = "leads_to d n True"
  have m: "?m \<in> ns" "get_phase d ?m \<noteq> None" "\<not> is_terminal p"
    using ns p(3) by (auto simp: circles_def is_terminal_iff)
  have nx: "next_phase_name (rc_runbook cfg) p = Some ?m"
    using circles_next [OF ns(1) _ d] ns(2) p(3) by simp
  obtain u where u: "run_effects cfg (phase_transition_effects p ?m) r = (Inr [], u)"
    "applies [PipelineTransition pid ?m] r u"
    using run_effects_smooth [OF h(1) smooth_effects(2), of p ?m r] p(2) by auto
  let ?p = "p\<lparr>phase := ?m, status := Pending\<rparr>"
  have "hm_get (pipelines (rt_state u)) pid = Some ?p" using u(2) p(1) by (auto simp: applies_def)
  then obtain s where s: "start_phase cfg pid ?m (inputs p) (workspace_path_of cfg p) u =
      (Inr [ShellCompleted pid ?m 0], s)" "circling (rc_runbook cfg) ns pid ?m s"
    using circling_start [OF h, of ?p d ns ?m u pid "inputs p" "workspace_path_of cfg p"] d ns m(1) p(2)
    by auto
  have "handle_event cfg (ShellCompleted pid n 0) r = (Inr [ShellCompleted pid ?m 0], s)"
    using p d nx u(1) s(1) m
    by (simp add: shell_completed_eq [OF p(1)] advance_pipeline_def has_phase_def_def comp_defs)
  with s(2) show ?thesis by blast
qed

lemma circling_forever:
  assumes h: "smooth_host (rc_host cfg)" "commands_succeed (rc_host cfg)"
    and y: "process_events cfg0 pending r = Some y"
  shows "cfg0 = cfg \<Longrightarrow> circling (rc_runbook cfg) ns pid n r \<Longrightarrow> pending = [ShellCompleted pid n 0] \<Longrightarrow> False"
proof (induction arbitrary: n rule: process_events.raw_induct [OF _ y, consumes 0, case_names step])
  case (step f cfg0 pending r y)
  from circling_step [OF h step.prems(2)] obtain m s where
    s: "handle_event cfg (ShellCompleted pid n 0) r = (Inr [ShellCompleted pid m 0], s)"
      "circling (rc_runbook cfg) ns pid m s" by blast
  have "f cfg [ShellCompleted pid m 0] s = Some y"
    using step.hyps s(1) step.prems(1,3) by simp
  from step.IH [OF this refl s(2) refl] show ?case .
qed

section \<open>A loop that does not return\<close>

text \<open>C23: the hypothesis on the order of the phases is needed. On a host that works and whose commands
  all succeed, if the phases of a pipeline that success leads to, from the first on, are shell commands
  without end, as when one is its own next phase or two name each other, then the processing of the
  command that creates the pipeline never returns.\<close>

theorem process_event_spins:
  assumes "smooth_host (rc_host cfg)" and "commands_succeed (rc_host cfg)"
    and "get_command (rc_runbook cfg) command = Some cm" and "cd_run cm = RunPipeline knd"
    and "get_pipeline_def (rc_runbook cfg) knd = Some df" and "first_phase df = Some fp"
    and "ph_name fp \<in> ns" and "circles df ns"
  shows "process_event cfg (CommandInvoked command args) d = None"
proof -
  let ?r = "dm_runtime d"
  obtain pid w where i: "h_next_id (rc_host cfg) (rt_world ?r) = (pid, w)" by fastforce
  from create_smooth [OF assms(1,5,6) i, of args] obtain v p dir where
    v: "create_pipeline cfg knd args ?r = start_phase cfg pid (ph_name fp) args dir v"
    and p: "hm_get (pipelines (rt_state v)) pid = Some p" "created_as pid knd args p" "phase p = ph_name fp"
    by blast
  have k: "get_pipeline_def (rc_runbook cfg) (kind p) = Some df" "id p = pid"
    using assms(5) p(2) by (simp_all add: created_as_def)
  from circling_start [OF assms(1,2) k(1) assms(8,7) p(1) k(2) p(3), of args dir] obtain s where
    s: "start_phase cfg pid (ph_name fp) args dir v = (Inr [ShellCompleted pid (ph_name fp) 0], s)"
      "circling (rc_runbook cfg) ns pid (ph_name fp) s" by blast
  have e: "handle_event cfg (CommandInvoked command args) ?r = (Inr [ShellCompleted pid (ph_name fp) 0], s)"
    using assms(3,4) v s(1) by (simp add: handle_event_def handle_command_def comp_defs)
  have "process_events cfg [ShellCompleted pid (ph_name fp) 0] s = None"
    using circling_forever [OF assms(1,2) _ refl s(2) refl] not_None_eq by metis
  then have "process_events cfg [CommandInvoked command args] ?r = None"
    using e by (subst process_events.simps) simp
  then show ?thesis by (simp add: process_event_def)
qed

text \<open>A pipeline that checks and waits in turn, and never finds what it waits for.\<close>

definition poll_pipeline :: pipeline_def where
  "poll_pipeline = \<lparr>pl_name = ''poll'', pl_inputs = [], pl_defaults = [], pl_phases = [
     \<lparr>ph_name = ''check'', ph_run = RunShell ''check'', ph_next = None, ph_on_fail = None\<rparr>,
     \<lparr>ph_name = ''wait'', ph_run = RunShell ''sleep 1'', ph_next = Some ''check'', ph_on_fail = None\<rparr>]\<rparr>"

definition poll_config :: "(nat \<times> nat) runtime_config" where
  "poll_config = demo_config\<lparr>rc_runbook := runbook_default\<lparr>rb_pipelines := [(''poll'', poll_pipeline)],
     rb_commands := [(''poll'', \<lparr>cd_name = ''poll'',
        cd_args = \<lparr>positional = [], flags = [], options = [], variadic = None\<rparr>,
        cd_defaults = [], cd_run = RunPipeline ''poll''\<rparr>)]\<rparr>\<rparr>"

theorem process_event_spins_witness:
  "process_event poll_config (CommandInvoked ''poll'' []) (daemon_of fresh_runtime) = None"
proof (rule process_event_spins)
  show "smooth_host (rc_host poll_config)" "commands_succeed (rc_host poll_config)"
    using plain_host_smooth by (simp_all add: poll_config_def demo_config_def)
  show "get_command (rc_runbook poll_config) ''poll'' = Some \<lparr>cd_name = ''poll'',
      cd_args = \<lparr>positional = [], flags = [], options = [], variadic = None\<rparr>,
      cd_defaults = [], cd_run = RunPipeline ''poll''\<rparr>"
    "get_pipeline_def (rc_runbook poll_config) ''poll'' = Some poll_pipeline"
    by (simp_all add: poll_config_def get_command_def get_pipeline_def_def hm_get_def)
  show "first_phase poll_pipeline = Some (pl_phases poll_pipeline ! 0)"
    by (simp add: poll_pipeline_def first_phase_def)
  show "ph_name (pl_phases poll_pipeline ! 0) \<in> {''check'', ''wait''}" by (simp add: poll_pipeline_def)
  show "circles poll_pipeline {''check'', ''wait''}"
    by (simp add: circles_def poll_pipeline_def get_phase_def terminal_def leads_to_def next_phase_def)
qed simp

end
