(* ===== verification/Request_Properties.thy ===== *)
theory Request_Properties
  imports Client_Properties Pipeline_Properties
begin

text \<open>
  Requests across the socket: a client whose bytes reach the daemon of \<open>Server\<close> and whose reply is what
  the daemon writes back.
\<close>

section \<open>The connection\<close>

text \<open>The daemon reads the bytes the client wrote and the client reads those the daemon wrote. How long
  that takes is up to the machine and to the daemon, which carries a request out before it answers and
  has other events to handle: until the request is written, and from then on until the answer has been
  read. Each side gives up after a time of its own (\<open>tokio::time::timeout\<close>): the client on writing and on
  reading, the daemon on reading the request and on writing the answer, of which nothing more arrives
  then.\<close>

record 'w latency =
  lt_write :: "byte list \<Rightarrow> 'w daemon \<Rightarrow> duration"
  lt_answer :: "byte list \<Rightarrow> 'w daemon \<Rightarrow> duration"
  lt_request_late :: "byte list \<Rightarrow> 'w daemon \<Rightarrow> bool"
  lt_response_late :: "byte list \<Rightarrow> 'w daemon \<Rightarrow> bool"

text \<open>A request that the client could not write in time is cut and the daemon drops it. A request that the
  daemon has read is carried out whether or not the client still waits for the answer; an event that the
  daemon never finishes is an answer that never comes. Here the client's world is the daemon.\<close>

definition daemon_exchange ::
  "'w runtime_config \<Rightarrow> codec \<Rightarrow> 'w latency \<Rightarrow> byte list \<Rightarrow> duration \<Rightarrow> duration \<Rightarrow> 'w daemon \<Rightarrow>
   exchange \<times> 'w daemon" where
  "daemon_exchange cfg cd lt bytes read_timeout write_timeout d =
     (if write_timeout < lt_write lt bytes d then (WriteTimedOut, d)
      else (case handle_connection cfg cd (lt_request_late lt bytes d) (lt_response_late lt bytes d)
                   \<lparr>rd_bytes = bytes, rd_error = None\<rparr> d of
              None \<Rightarrow> (ReadTimedOut, d)
            | Some (_, out, d1) \<Rightarrow>
                (if read_timeout < lt_answer lt bytes d then ReadTimedOut
                 else Replied \<lparr>rd_bytes = out, rd_error = None\<rparr>, d1)))"

definition connected_to ::
  "'w runtime_config \<Rightarrow> codec \<Rightarrow> 'w latency \<Rightarrow> path \<Rightarrow> 'w daemon cli_os \<Rightarrow> bool" where
  "connected_to cfg cd lt sock c \<longleftrightarrow>
     co_connect c sock = ok () \<and> co_exchange c sock = daemon_exchange cfg cd lt"

text \<open>The bytes of a request; the request is delivered if it is written and read in time, and it is
  answered if it is delivered and the answer is written and read in time as well.\<close>

definition sent :: "'w cli_os \<Rightarrow> request \<Rightarrow> byte list" where
  "sent c req = (case co_encode c req of
     Inl _ \<Rightarrow> [] | Inr p \<Rightarrow> to_be_bytes (of_nat (length p)) @ p)"

definition delivered :: "'w daemon cli_os \<Rightarrow> 'w latency \<Rightarrow> request \<Rightarrow> 'w daemon \<Rightarrow> bool" where
  "delivered c lt req d \<longleftrightarrow>
     lt_write lt (sent c req) d \<le> timeout_ipc c d \<and> \<not> lt_request_late lt (sent c req) d"

definition answered :: "'w daemon cli_os \<Rightarrow> 'w latency \<Rightarrow> request \<Rightarrow> 'w daemon \<Rightarrow> bool" where
  "answered c lt req d \<longleftrightarrow> delivered c lt req d \<and>
     lt_answer lt (sent c req) d \<le> timeout_ipc c d \<and> \<not> lt_response_late lt (sent c req) d"

text \<open>The JSON codecs of the two sides read back what the other side wrote.\<close>

definition reads_back :: "codec \<Rightarrow> 'w cli_os \<Rightarrow> bool" where
  "reads_back cd c \<longleftrightarrow>
     (\<forall>req p. co_encode c req = Inr p \<longrightarrow> cd_request cd p = Inr req) \<and>
     (\<forall>resp p. cd_response cd resp = Inr p \<longrightarrow> co_decode c p = Inr resp)"

text \<open>The message is written and is not over the limit.\<close>

definition fits :: "('m \<Rightarrow> string + byte list) \<Rightarrow> 'm \<Rightarrow> bool" where
  "fits ser m \<longleftrightarrow> (\<exists>p. ser m = Inr p \<and> length p \<le> max_message_size)"

lemma encode_fits: "fits ser m \<Longrightarrow> \<exists>p. encode ser m = Inr p \<and> ser m = Inr p \<and> length p \<le> max_message_size"
  by (auto simp: fits_def encode_def)

lemma read_framed [simp]:
  "length p \<le> max_message_size \<Longrightarrow>
   read_message \<lparr>rd_bytes = to_be_bytes (of_nat (length p)) @ p, rd_error = e\<rparr> =
     (Inr p, \<lparr>rd_bytes = [], rd_error = e\<rparr>)"
  using read_written_message [of p "[]" e] by simp

lemma read_nothing: "read_message \<lparr>rd_bytes = [], rd_error = None\<rparr> = (Inl ConnectionClosed, \<lparr>rd_bytes = [], rd_error = None\<rparr>)"
  by (simp add: read_message_def comp_defs read_exact_def)

lemma write_response_cases:
  "(fits ser resp \<and> (\<exists>p. ser resp = Inr p \<and> length p \<le> max_message_size \<and>
      write_response ser False resp [] = (Inr (), to_be_bytes (of_nat (length p)) @ p))) \<or>
   (\<not> fits ser resp \<and> (\<exists>e. write_response ser False resp [] = (Inl e, [])))"
  by (auto simp: fits_def write_response_def encode_def write_message_def comp_defs Let_def
      split: sum.split)

text \<open>A client whose connection leads to the daemon.\<close>

locale daemon_connection =
  fixes cfg :: "'w runtime_config" and cd :: codec and lt :: "'w latency" and sock :: path
    and c :: "'w daemon cli_os"
  assumes connected: "connected_to cfg cd lt sock c" and codecs: "reads_back cd c"
begin

text \<open>What a request gets from the daemon, and what becomes of the daemon.\<close>

lemma send_connected:
  assumes "fits (co_encode c) req"
  shows "send c sock req d =
    (if timeout_ipc c d < lt_write lt (sent c req) d then (Inl (ClientProtocol ProtoTimeout), d)
     else if lt_request_late lt (sent c req) d then
       (Inl (ClientProtocol (if timeout_ipc c d < lt_answer lt (sent c req) d then ProtoTimeout
          else ConnectionClosed)), d)
     else (case handle_request cfg (cd_version cd) d req of
         None \<Rightarrow> (Inl (ClientProtocol ProtoTimeout), d)
       | Some (resp, d1) \<Rightarrow>
           (if timeout_ipc c d < lt_answer lt (sent c req) d then Inl (ClientProtocol ProtoTimeout)
            else if lt_response_late lt (sent c req) d \<or> \<not> fits (cd_response cd) resp
              then Inl (ClientProtocol ConnectionClosed)
            else Inr resp, d1)))"
proof -
  from encode_fits [OF assms] obtain p where p: "encode (co_encode c) req = Inr p"
      "co_encode c req = Inr p" "length p \<le> max_message_size" by blast
  let ?bytes = "to_be_bytes (of_nat (length p)) @ p"
  have b: "sent c req = ?bytes" using p(2) by (simp add: sent_def)
  have "cd_request cd p = Inr req" using codecs p(2) by (simp add: reads_back_def)
  with p(3) have "fst (read_request (cd_request cd) False \<lparr>rd_bytes = ?bytes, rd_error = None\<rparr>) = Inr req"
    by (simp add: read_request_def comp_defs decode_def)
  then have h: "handle_connection cfg cd False late \<lparr>rd_bytes = ?bytes, rd_error = None\<rparr> d =
      (case handle_request cfg (cd_version cd) d req of
         None \<Rightarrow> None
       | Some (resp, d1) \<Rightarrow>
           (case write_response (cd_response cd) late resp [] of
              (Inl e, out) \<Rightarrow> Some (Inl (ServerProtocol e), out, d1)
            | (Inr _, out) \<Rightarrow> Some (Inr (), out, d1)))" for late
    by (simp add: handle_connection_def)
  have l: "handle_connection cfg cd True late \<lparr>rd_bytes = ?bytes, rd_error = None\<rparr> d =
      Some (Inl ServerTimeout, [], d)" for late
    by (simp add: handle_connection_def read_request_def fail_def)
  have w: "write_message p [] = (Inr (), ?bytes)" using p(3) by (simp add: write_message_def Let_def)
  have s: "send c sock req d =
      (case daemon_exchange cfg cd lt ?bytes (timeout_ipc c d) (timeout_ipc c d) d of
         (WriteTimedOut, w1) \<Rightarrow> (Inl (ClientProtocol ProtoTimeout), w1)
       | (WriteError e, w1) \<Rightarrow> (Inl (ClientProtocol (ProtoIo e)), w1)
       | (ReadTimedOut, w1) \<Rightarrow> (Inl (ClientProtocol ProtoTimeout), w1)
       | (Replied rd, w1) \<Rightarrow>
           (case fst (read_message rd) of
              Inl e \<Rightarrow> (Inl (ClientProtocol e), w1)
            | Inr bs \<Rightarrow> proto (from_result (decode (co_decode c) bs)) w1))"
    using connected p(1) w by (simp add: send_def send_with_timeout_def connected_to_def proto_def comp_defs)
  show ?thesis
  proof (cases "handle_request cfg (cd_version cd) d req")
    case None
    then show ?thesis
      by (cases "lt_request_late lt ?bytes d") (simp_all add: s b daemon_exchange_def h l read_nothing)
  next
    case (Some x)
    obtain resp d1 where x: "x = (resp, d1)" by fastforce
    have late: "\<exists>e. write_response (cd_response cd) True resp [] = (Inl e, [])"
      by (auto simp: write_response_def encode_def comp_defs split: sum.split)
    show ?thesis
    proof (cases "lt_request_late lt ?bytes d")
      case True
      then show ?thesis by (simp add: s b daemon_exchange_def l read_nothing)
    next
      case in_time: False
      show ?thesis
      proof (cases "lt_response_late lt ?bytes d")
        case True
        then show ?thesis using Some x late in_time
          by (auto simp: s b daemon_exchange_def h read_nothing)
      next
        case False
        with write_response_cases [of "cd_response cd" resp] show ?thesis
          using Some x codecs in_time
          by (auto simp: s b daemon_exchange_def h reads_back_def decode_def proto_def comp_defs read_nothing)
      qed
    qed
  qed
qed

lemma send_event_connected:
  assumes "fits (co_encode c) (EventRequest e)"
    and "fits (cd_response cd) (EventResponse True)"
  shows "send_event c sock e d = (Inr (), d1) \<longleftrightarrow>
    process_event cfg e d = Some (Inr (), d1) \<and> answered c lt (EventRequest e) d"
proof -
  note send = send_connected [OF assms(1), of d]
  show ?thesis
  proof (cases "process_event cfg e d")
    case None
    then show ?thesis using send
      by (simp add: send_event_def bind_def respond_def)
  next
    case (Some x)
    obtain r d2 where x: "x = (r, d2)" by fastforce
    show ?thesis
    proof (cases r)
      case (Inl err)
      then show ?thesis using Some x send
        by (auto simp: send_event_def bind_def respond_def unexpected_def fail_def)
    next
      case (Inr u)
      then show ?thesis using Some x send assms(2)
        by (auto simp: send_event_def bind_def respond_def ok_def answered_def delivered_def)
    qed
  qed
qed

text \<open>An event that is delivered and takes longer than the client waits.\<close>

lemma send_event_late:
  assumes "fits (co_encode c) (EventRequest e)" and "delivered c lt (EventRequest e) d"
    and "timeout_ipc c d < lt_answer lt (sent c (EventRequest e)) d"
    and "process_event cfg e d = Some (r, d1)"
  shows "send_event c sock e d = (Inl (ClientProtocol ProtoTimeout), d1)"
  using send_connected [OF assms(1), of d] assms(2-4)
  by (cases r) (simp_all add: send_event_def bind_def respond_def delivered_def)

lemma show_connected:
  assumes "fits (co_encode c) (QueryRequest (GetPipeline i))"
    and "fits (cd_response cd) (PipelineResponse (map_option detail_of (get_pipeline (rt_state (dm_runtime d)) i)))"
    and "answered c lt (QueryRequest (GetPipeline i)) d"
  shows "client_get_pipeline c sock i d =
    (Inr (map_option detail_of (get_pipeline (rt_state (dm_runtime d)) i)), d)"
  using send_connected [OF assms(1), of d] assms(2,3)
  by (simp add: client_get_pipeline_def comp_defs answered_def delivered_def)

end

section \<open>Properties\<close>


text \<open>C28: \<open>oj run\<close> reports a command as started exactly if its arguments are valid, the daemon has
  processed the event with the arguments bound by \<open>parse_args\<close> without an error, and the answer was there
  within the client's time-out; if the event is processed but takes longer, \<open>oj run\<close> reports a time-out.
  An unknown command or invalid arguments are errors that never reach the daemon.\<close>

theorem run_reports_started:
  assumes "connected_to cfg cd lt sock c" and "reads_back cd c"
    and "get_command rb command = Some cm"
    and "request = EventRequest (CommandInvoked command (parse_args cm args (named_args named)))"
    and "fits (co_encode c) request"
    and "fits (cd_response cd) (EventResponse True)"
  shows "(run_command c sock rb command args named d = (Inr shown, d1) \<longleftrightarrow>
      shown = [''Started: '' @ command] \<and> validate_args cm args (named_args named) = Inr () \<and>
      process_event cfg (CommandInvoked command (parse_args cm args (named_args named))) d =
        Some (Inr (), d1) \<and> answered c lt request d) \<and>
    (validate_args cm args (named_args named) = Inr () \<and>
      process_event cfg (CommandInvoked command (parse_args cm args (named_args named))) d =
        Some (Inr (), d1) \<and>
      delivered c lt request d \<and> timeout_ipc c d < lt_answer lt (sent c request) d \<longrightarrow>
      run_command c sock rb command args named d = (Inl (CliClient (ClientProtocol ProtoTimeout)), d1)) \<and>
    (validate_args cm args (named_args named) = Inl e \<longrightarrow>
      run_command c sock rb command args named d = (Inl (CliArgs e), d)) \<and>
    (get_command rb other = None \<longrightarrow>
      run_command c sock rb other args named d = (Inl (CliOther (''unknown command: '' @ other)), d))"
proof -
  let ?e = "CommandInvoked command (parse_args cm args (named_args named))"
  note connection = daemon_connection.intro [OF assms(1,2)]
  have fits: "fits (co_encode c) (EventRequest ?e)" using assms(4,5) by simp
  obtain r d2 where s: "send_event c sock ?e d = (r, d2)" by fastforce
  have started: "(r = Inr () \<and> d2 = d1) \<longleftrightarrow>
      process_event cfg ?e d = Some (Inr (), d1) \<and> answered c lt request d"
    using daemon_connection.send_event_connected [OF connection fits assms(6), of d d1] s assms(4) by auto
  have late: "r = Inl (ClientProtocol ProtoTimeout) \<and> d2 = d1"
    if "process_event cfg ?e d = Some (Inr (), d1)" "delivered c lt request d"
      "timeout_ipc c d < lt_answer lt (sent c request) d"
    using daemon_connection.send_event_late [OF connection fits, of d "Inr ()" d1] s assms(4) that by auto
  have "run_command c sock rb command args named d =
      (case validate_args cm args (named_args named) of
         Inl e \<Rightarrow> (Inl (CliArgs e), d)
       | Inr _ \<Rightarrow> (case r of Inl x \<Rightarrow> Inl (CliClient x) | Inr _ \<Rightarrow> Inr [''Started: '' @ command], d2))"
    using assms(3) s by (auto simp: run_command_def comp_defs cli_client_def split: sum.split)
  moreover have "run_command c sock rb other args named d =
      (Inl (CliOther (''unknown command: '' @ other)), d)" if "get_command rb other = None"
    using that by (simp add: run_command_def comp_defs)
  ultimately show ?thesis using started late by (auto split: sum.split sum.split_asm)
qed

text \<open>C5: from end to end. A user runs a command whose pipeline consists of shell commands and leads down
  its definition, and all commands succeed. \<open>oj run\<close> reports it as started if they take no longer than the
  client's IPC time-out and reports a time-out otherwise; in both cases \<open>oj pipeline show\<close> with the new
  id, once it is answered in time, shows the pipeline with its name and kind in phase \<open>done\<close> as
  \<open>Completed\<close>. The client and the daemon have read the same runbook and the messages fit the limit.\<close>

theorem run_then_show:
  assumes "connected_to cfg cd lt sock c" and "reads_back cd c"
    and "smooth_host (rc_host cfg)" and "commands_succeed (rc_host cfg)"
    and "get_command (rc_runbook cfg) command = Some cm" and "cd_run cm = RunPipeline knd"
    and "get_pipeline_def (rc_runbook cfg) knd = Some df" and "shell_pipeline df"
    and "h_next_id (rc_host cfg) (rt_world (dm_runtime d)) = (pid, w)"
    and "validate_args cm args (named_args named) = Inr ()"
    and "bound = parse_args cm args (named_args named)"
    and "nm = (case hm_get bound ''name'' of Some n \<Rightarrow> n | None \<Rightarrow> pid)"
    and "fits (co_encode c) (EventRequest (CommandInvoked command bound))"
    and "fits (cd_response cd) (EventResponse True)"
    and "fits (co_encode c) (QueryRequest (GetPipeline pid))"
    and "fits (cd_response cd) (PipelineResponse (Some \<lparr>dt_id = pid, dt_name = nm, dt_kind = knd,
      dt_phase = ''done'', dt_phase_status = ''Completed'', dt_inputs = bound, dt_workspace_path = None,
      dt_session_id = None, dt_error = None\<rparr>))"
    and "delivered c lt (EventRequest (CommandInvoked command bound)) d"
    and "\<not> lt_response_late lt (sent c (EventRequest (CommandInvoked command bound))) d"
    and "\<And>d1. process_event cfg (CommandInvoked command bound) d = Some (Inr (), d1) \<Longrightarrow>
      answered c lt (QueryRequest (GetPipeline pid)) d1"
  shows "\<exists>d1 lines. run_command c sock (rc_runbook cfg) command args named d =
      (if lt_answer lt (sent c (EventRequest (CommandInvoked command bound))) d \<le> timeout_ipc c d
       then Inr [''Started: '' @ command] else Inl (CliClient (ClientProtocol ProtoTimeout)), d1) \<and>
    do_pipeline c sock (PipelineShow pid) d1 = (Inr lines, d1) \<and>
    take 4 lines = [''Pipeline: '' @ pid, ''  Name: '' @ nm, ''  Kind: '' @ knd,
      ''  Phase: done (Completed)'']"
proof -
  note connection = daemon_connection.intro [OF assms(1,2)]
  from shell_command_ends [OF assms(3,5-9), of bound] assms(4) obtain d1 q where
    p: "process_event cfg (CommandInvoked command bound) d = Some (Inr (), d1)"
    and q: "hm_get (pipelines (rt_state (dm_runtime d1))) pid = Some q" "created_as pid knd bound q"
    and e: "ended ''done'' q" by blast
  from e have s: "phase q = ''done''" "status q = Completed" by (simp_all add: ended_def)
  have "send_event c sock (CommandInvoked command bound) d =
      (if lt_answer lt (sent c (EventRequest (CommandInvoked command bound))) d \<le> timeout_ipc c d
       then Inr () else Inl (ClientProtocol ProtoTimeout), d1)"
    using daemon_connection.send_event_connected [OF connection assms(13,14), of d d1]
      daemon_connection.send_event_late [OF connection assms(13,17) _ p] p assms(17,18)
    by (auto simp: answered_def not_le)
  then have run: "run_command c sock (rc_runbook cfg) command args named d =
      (if lt_answer lt (sent c (EventRequest (CommandInvoked command bound))) d \<le> timeout_ipc c d
       then Inr [''Started: '' @ command] else Inl (CliClient (ClientProtocol ProtoTimeout)), d1)"
    using assms(5,10,11) by (simp add: run_command_def comp_defs cli_client_def)
  let ?dt = "\<lparr>dt_id = pid, dt_name = nm, dt_kind = knd, dt_phase = ''done'', dt_phase_status = ''Completed'',
    dt_inputs = bound, dt_workspace_path = None, dt_session_id = None, dt_error = None\<rparr>"
  have "map_option detail_of (get_pipeline (rt_state (dm_runtime d1)) pid) = Some ?dt"
    using q s assms(12) by (simp add: get_pipeline_def detail_of_def created_as_def)
  with daemon_connection.show_connected [OF connection assms(15), of d1] assms(16) assms(19) [OF p]
  have "do_pipeline c sock (PipelineShow pid) d1 = (Inr (pipeline_lines ?dt), d1)"
    by (simp add: cli_client_def comp_defs)
  with run show ?thesis by (simp add: pipeline_lines_def)
qed

text \<open>A client of a daemon in a world of its own: there are no files and no environment, time stands
  still, and three requests and three responses have an encoding.\<close>

definition bare_os :: "'w os" where
  "bare_os =
     \<lparr>os_canonicalize = (\<lambda>p _. Inr p), os_env = (\<lambda>_ _. None), os_sha256 = (\<lambda>_. []),
      os_parent = dirname, os_exists = (\<lambda>_ _. False), os_create_dir_all = (\<lambda>_. ok ()),
      os_create_file = (\<lambda>_. ok ()), os_try_lock = (\<lambda>_. ok ()), os_write_line = (\<lambda>_ _. ok ()),
      os_write_file = (\<lambda>_ _. ok ()), os_append = (\<lambda>_ _. ok ()), os_remove_file = (\<lambda>_. ok ()),
      os_bind = (\<lambda>_. ok ()), os_open_log = (\<lambda>_. ok []),
      os_read_file = (\<lambda>_ _. Inl (IoError NotFound ''no file'')), os_read_dir = (\<lambda>_ _. Inr []),
      os_toml = demo_toml_lib demo_toml, os_de = Inl, os_format = (\<lambda>_ _ _. None),
      os_pid = 1, os_version = ''0.1''\<rparr>"

definition ci_detail :: pipeline_detail where
  "ci_detail =
     \<lparr>dt_id = ''p0'', dt_name = ''p0'', dt_kind = ''ci'', dt_phase = ''done'', dt_phase_status = ''Completed'',
      dt_inputs = [], dt_workspace_path = None, dt_session_id = None, dt_error = None\<rparr>"

definition small_codec :: codec where
  "small_codec =
     \<lparr>cd_request = (\<lambda>bs. if bs = [1] then Inr Ping
        else if bs = [2] then Inr (EventRequest (CommandInvoked ''build'' []))
        else if bs = [5] then Inr (QueryRequest (GetPipeline ''p0'')) else Inl ''unknown''),
      cd_response = (\<lambda>r. if r = Pong then Inr [3]
        else if r = EventResponse True then Inr [4]
        else if r = PipelineResponse (Some ci_detail) then Inr [6] else Inl ''no encoding''),
      cd_version = ''0.1''\<rparr>"

text \<open>Delays: a daemon that takes some time over one request; and a client connected with some delays.\<close>

definition takes :: "duration \<Rightarrow> byte list \<Rightarrow> 'w latency" where
  "takes t bytes = \<lparr>lt_write = (\<lambda>_ _. 0), lt_answer = (\<lambda>bs _. if bs = bytes then t else 0),
     lt_request_late = (\<lambda>_ _. False), lt_response_late = (\<lambda>_ _. False)\<rparr>"

definition socket_client :: "'w runtime_config \<Rightarrow> 'w latency \<Rightarrow> 'w daemon cli_os" where
  "socket_client cfg lt =
     \<lparr>co_os = bare_os, co_now = (\<lambda>d. (0, d)), co_sleep = (\<lambda>_ d. d), co_spawn = (\<lambda>_ _. ok 0),
      co_try_wait = (\<lambda>_. ok None), co_status = (\<lambda>_ _. ok (''exit status: 0'', True)),
      co_wait = (\<lambda>_ _ w. Some (Inr (''exit status: 0'', True), w)),
      co_current_dir = (\<lambda>_. Inr ''/p''), co_current_exe = (\<lambda>_. Inr ''/bin/oj''),
      co_is_dir = (\<lambda>_ _. False), co_connect = (\<lambda>_. ok ()),
      co_exchange = (\<lambda>_. daemon_exchange cfg small_codec lt),
      co_encode = (\<lambda>r. if r = Ping then Inr [1]
        else if r = EventRequest (CommandInvoked ''build'' []) then Inr [2]
        else if r = QueryRequest (GetPipeline ''p0'') then Inr [5] else Inl ''no encoding''),
      co_decode = (\<lambda>bs. if bs = [3] then Inr Pong
        else if bs = [4] then Inr (EventResponse True)
        else if bs = [6] then Inr (PipelineResponse (Some ci_detail)) else Inl ''unknown''),
      co_version = ''0.1''\<rparr>"

lemma socket_client_connected:
  "connected_to cfg small_codec lt sock (socket_client cfg lt)" "reads_back small_codec (socket_client cfg lt)"
  "fits (co_encode (socket_client cfg lt)) Ping"
  "fits (co_encode (socket_client cfg lt)) (EventRequest (CommandInvoked ''build'' []))"
  "fits (cd_response small_codec) Pong" "fits (cd_response small_codec) (EventResponse True)"
  "fits (co_encode (socket_client cfg lt)) (QueryRequest (GetPipeline ''p0''))"
  "fits (cd_response small_codec) (PipelineResponse (Some ci_detail))"
  by (simp_all add: connected_to_def reads_back_def fits_def socket_client_def small_codec_def
      max_message_size_def)

interpretation socket: daemon_connection cfg small_codec lt sock "socket_client cfg lt" for cfg lt sock
  by unfold_locales (rule socket_client_connected)+

text \<open>The client waits five seconds; in the examples the build may take as long as that or ten.\<close>

lemma socket_client_waits: "timeout_ipc (socket_client cfg lt) d = from_secs 5"
  by (simp add: timeout_ipc_def parse_duration_ms_def socket_client_def bare_os_def)

lemma socket_client_sends:
  "sent (socket_client cfg lt) Ping = to_be_bytes 1 @ [1]"
  "sent (socket_client cfg lt) (EventRequest (CommandInvoked ''build'' [])) = to_be_bytes 1 @ [2]"
  "sent (socket_client cfg lt) (QueryRequest (GetPipeline ''p0'')) = to_be_bytes 1 @ [5]"
  by (simp_all add: sent_def socket_client_def)

definition build_takes :: "nat \<Rightarrow> 'w latency" where
  "build_takes s = takes (from_secs s) (to_be_bytes 1 @ [2])"

lemma build_takes_facts:
  "lt_write (build_takes s) bs d = 0" "\<not> lt_request_late (build_takes s) bs d"
  "\<not> lt_response_late (build_takes s) bs d"
  "lt_answer (build_takes s) bs d = (if bs = to_be_bytes 1 @ [2] then from_secs s else 0)"
  by (simp_all add: build_takes_def takes_def)

lemmas socket_client_facts = socket_client_waits socket_client_sends build_takes_facts answered_def delivered_def


theorem run_reports_started_witness:
  "(\<exists>d1. run_command (socket_client demo_config (build_takes 5)) ''/s'' demo_runbook ''build'' [] []
       (daemon_of fresh_runtime) = (Inr [''Started: build''], d1)) =
     (\<exists>d1. process_event demo_config (CommandInvoked ''build'' []) (daemon_of fresh_runtime) =
       Some (Inr (), d1)) \<and>
   run_command (socket_client demo_config (build_takes 10)) ''/s'' demo_runbook ''build'' [] []
       (daemon_of fresh_runtime) \<noteq> (Inr [''Started: build''], daemon_of fresh_runtime) \<and>
   run_command (socket_client demo_config (build_takes 10)) ''/s'' demo_runbook ''deploy'' [] []
     (daemon_of fresh_runtime) =
     (Inl (CliOther ''unknown command: deploy''), daemon_of fresh_runtime)"
proof -
  obtain cm where cm: "get_command demo_runbook ''build'' = Some cm"
    and parsed: "parse_args cm [] (named_args []) = []"
    and valid: "validate_args cm [] (named_args []) = Inr ()"
    by (simp add: get_command_def demo_runbook_def hm_get_def parse_args_def named_args_def
        bind_variadic_def validate_args_def check_variadic_def)
  have unknown: "get_command demo_runbook ''deploy'' = None"
    by (simp add: get_command_def demo_runbook_def hm_get_def)
  have fits: "fits (co_encode (socket_client demo_config lt))
      (EventRequest (CommandInvoked ''build'' (parse_args cm [] (named_args []))))" for lt
    by (simp add: parsed socket_client_connected)
  note run = run_reports_started [OF socket_client_connected(1,2) cm refl fits socket_client_connected(6),
      unfolded parsed valid]
  show ?thesis
    using run [where lt = "build_takes 5" and sock = "''/s''" and d = "daemon_of fresh_runtime"]
      run [where lt = "build_takes 10" and sock = "''/s''" and d = "daemon_of fresh_runtime"] unknown
    by (auto simp: socket_client_facts from_secs_def)
qed

theorem run_then_show_witness:
  "\<exists>d1 lines. run_command (socket_client ci_config (build_takes 10)) ''/s'' (rc_runbook ci_config) ''build''
      [] [] (daemon_of fresh_runtime) = (Inl (CliClient (ClientProtocol ProtoTimeout)), d1) \<and>
    do_pipeline (socket_client ci_config (build_takes 10)) ''/s'' (PipelineShow ''p0'') d1 = (Inr lines, d1) \<and>
    take 4 lines = [''Pipeline: p0'', ''  Name: p0'', ''  Kind: ci'', ''  Phase: done (Completed)'']"
proof -
  from ci_facts obtain df where c: "get_command (rc_runbook ci_config) ''build'' = Some build_command_def"
    "cd_run build_command_def = RunPipeline ''ci''" "get_pipeline_def (rc_runbook ci_config) ''ci'' = Some df"
    "shell_pipeline df" "smooth_host (rc_host ci_config)" "commands_succeed (rc_host ci_config)" .
  have args: "validate_args build_command_def [] (named_args []) = Inr ()"
    "[] = parse_args build_command_def [] (named_args [])"
    by (simp_all add: build_command_def_def parse_args_def named_args_def bind_variadic_def validate_args_def
        check_variadic_def hm_get_def)
  have i: "h_next_id (rc_host ci_config) (rt_world (dm_runtime (daemon_of fresh_runtime))) = (''p0'', (0, 1))"
    using fresh_id by (simp add: ci_config_def demo_config_def)
  have nm: "''p0'' = (case hm_get [] ''name'' of Some n \<Rightarrow> n | None \<Rightarrow> ''p0'')" by (simp add: hm_get_def)
  have "delivered (socket_client ci_config (build_takes 10)) (build_takes 10)
      (EventRequest (CommandInvoked ''build'' [])) (daemon_of fresh_runtime)"
    by (simp add: socket_client_facts)
  moreover have "answered (socket_client ci_config (build_takes 10)) (build_takes 10)
      (QueryRequest (GetPipeline ''p0'')) d1" for d1
    by (simp add: socket_client_facts)
  moreover note run_then_show [OF socket_client_connected(1,2) c(5,6,1-4) i args nm
      socket_client_connected(4,6,7,8) [unfolded ci_detail_def], of "build_takes 10" "''/s''"]
  ultimately show ?thesis by (simp add: socket_client_facts from_secs_def)
qed

end
