(* ===== verification/Spec2Isabelle.thy ===== *)
theory Spec2Isabelle
  imports Arg_Spec_Print Template Session_Log Completion Failed_Start Pipeline_Liveness Request_Properties
begin

text \<open>
  A verification development for otters (\<open>crates/\<close>): a daemon that runs pipelines of shell commands
  and coding agents for a project, and the command line that talks to it.

  \<^bold>\<open>The program.\<close> A runbook (\<open>crates/runbook\<close>) defines commands, pipelines with their phases, agents and
  workers. The command line (\<open>crates/cli\<close>) finds the project, starts its daemon if none is running,
  checks the arguments against the runbook and sends a request over a Unix socket
  (\<open>crates/daemon/src/protocol.rs\<close>, \<open>server.rs\<close>); an event in it goes to the runtime (\<open>crates/engine/src/runtime.rs\<close>), which looks at the
  materialised state (\<open>crates/storage/src/state.rs\<close>) and runs effects through the executor
  (\<open>crates/engine/src/executor.rs\<close>): operations are written to a log (\<open>crates/storage/src/wal.rs\<close>) and then
  applied to the state, sessions and worktrees are created through adapters (\<open>crates/adapters\<close>), timers
  are set (\<open>scheduler.rs\<close>), shell commands are run and their completion is an event that is fed back
  (\<open>crates/daemon/src/lifecycle.rs\<close>). A daemon that starts replays the log.

  \<^bold>\<open>The theories\<close>, each opening with what it holds:
  \<^item> \<open>Prelude\<close>: strings, maps with the iteration order of a list, and state-passing computations that
    return an error or a value and keep the state in both cases.
  \<^item> \<open>Core_Types\<close>, \<open>Pipeline_State\<close>: \<open>crates/core\<close>, its events, operations, effects, ids, clocks, pipelines
    and workers.
  \<^item> \<open>Storage\<close>: \<open>crates/storage\<close>, the state, its operations and the log.
  \<^item> \<open>Template\<close>, \<open>Arg_Spec\<close>, \<open>Arg_Spec_Print\<close>, \<open>Runbook\<close>, \<open>Runbook_Parser\<close>: \<open>crates/runbook\<close>,
    templates, the parser of argument specifications with a printer it inverts, commands, pipelines,
    agents, and the parser that takes a runbook from a TOML value.
  \<^item> \<open>Adapters\<close>: \<open>crates/adapters\<close>, sessions, repositories and notifications as records of operations.
  \<^item> \<open>Scheduler\<close>, \<open>Session_Log\<close>, \<open>Executor\<close>, \<open>Phases\<close>, \<open>Monitor\<close>, \<open>Runtime\<close>: \<open>crates/engine\<close>. The runtime
    is a state of the executor (log, state, timers, outside world) and the watchers; its configuration is
    an argument. \<open>Runtime_Invariants\<close> gives the reachable states and the invariants every handler
    preserves, \<open>Runtime_Behaviour\<close> what a handler does to the state, and \<open>Runtime_Properties\<close>,
    \<open>Runtime_Events\<close> and \<open>Monitor_Properties\<close> the properties of the handlers.
  \<^item> \<open>Event_Loop\<close>, \<open>Loop_Properties\<close>, \<open>Protocol\<close>, \<open>Server\<close>, \<open>Lifecycle\<close>, \<open>Lifecycle_Properties\<close>:
    \<open>crates/daemon\<close>, the processing of events, the framing of messages, the requests, start-up, the main
    loop and shutdown.
  \<^item> \<open>Workflow\<close>: the abstract specification of the engine, a machine whose configurations are a phase and
    a status and whose steps are the edges of the runbook, with the proof that every handler follows it;
    \<open>Daemon_Life\<close> carries this over the turns of the main loop and over crashes and restarts.
    \<open>Daemon_Program\<close> is \<open>main\<close> as a whole, from its arguments to its end, with what stops the program and
    what it does when it is left alone: nothing.
    \<open>Pipeline_Walk\<close> is a reference that runs a pipeline in one walk down its definition, \<open>Pipeline_Runs\<close>
    shows that the runtime agrees with it on a host that works, \<open>Pipeline_Rest\<close> that then no event leaves
    a pipeline in the middle, and \<open>Pipeline_Properties\<close> states this of the daemon. \<open>Pipeline_Liveness\<close>
    has both sides of whether pipelines come to rest: the main loop gets through any inputs and leaves
    none in the middle if the pipelines lead down their definitions, and a pipeline that leads in a
    circle never lets go of it. \<open>Completion\<close> shows over any later history that the completion of a shell
    command acts at most once.
  \<^item> \<open>Client\<close>, \<open>Cli\<close>: \<open>crates/cli\<close>, the client of the daemon (\<open>client.rs\<close>) and the commands from their
    parsed form to the lines they print (\<open>main.rs\<close>, \<open>commands\<close>). \<open>Client_Properties\<close> relates the command
    line to the daemon's files, \<open>Failed_Start\<close> follows the reason of a failed start through the daemon's
    log to the user, and \<open>Request_Properties\<close> relates its requests to the daemon's handlers,
    from \<open>oj run\<close> to what \<open>oj pipeline show\<close> prints. How long the two ends take is a record of latencies,
    and the client's time-outs run out where they exceed them.

  \<^bold>\<open>How the code is modelled.\<close> A struct is a record and an enum a datatype with the constructors of the
  source. A function that changes state or the outside world is a computation from the state to a result
  and the new state, and an error keeps the state it was reached with, as effects are not rolled back.
  The outside world is a type parameter: the calls of the operating system, of the JSON, TOML, hash and id
  libraries and of time are the fields of the records \<open>host\<close>, \<open>os\<close>, \<open>toml_lib\<close> and \<open>cli_os\<close>, so the theorems hold for every
  behaviour of them; what a theorem needs of them is one of its hypotheses, with a witness in which
  concrete functions meet it. A hash map is a list of entries with distinct keys; the theorems that hold
  whatever the order of its iteration say so through its lookups. Strings are lists of characters with
  the code points up to U+00FF: white space and the mapping to lower case are those of Rust on that range,
  and lengths and cuts, which the code counts in bytes, are counted in characters, which is the same for
  ASCII.
  Times and durations are natural numbers of nanoseconds; sums of instants are not bounded.

  \<^bold>\<open>Interfaces\<close> are locales, each with its interpretation on the model: \<open>hash_map\<close> in \<open>Prelude\<close>,
  \<open>timer_queue\<close> in \<open>Scheduler\<close>, \<open>session_contract\<close> in \<open>Adapters\<close>, \<open>executor_invariant\<close> in \<open>Executor\<close>, 
  \<open>start_invariant\<close>, \<open>phase_invariant\<close> and \<open>command_invariant\<close> in \<open>Runtime_Invariants\<close>, which carry an
  invariant of single effects to the start of a phase, to every handler and to every reachable state;
  \<open>workflow_relation\<close> in \<open>Workflow\<close>, a relation between two moments that every operation the edges of
  the runbook permit preserves, which gives that the handlers follow the runbook (\<open>workflow\<close>), also when
  they are killed on the way (\<open>cuts\<close>), and that they keep to the record of a pipeline (\<open>keeping\<close>, in
  \<open>Completion\<close>); \<open>log_file\<close> in \<open>Failed_Start\<close>, a file to which the daemon only appends; and
  \<open>daemon_connection\<close> in \<open>Request_Properties\<close>, a client whose bytes reach the daemon after the latencies
  of a connection.

  \<^bold>\<open>Loops.\<close> Every loop of the code that ends is a structural or measured recursion. The loop of
  \<open>process_event\<close> may run forever: it is a partial function whose value \<open>None\<close> means that it does not
  return, \<open>process_event_returns\<close> shows when it returns and \<open>process_event_spins\<close> that it may not. The
  client's loops, which wait for time to pass (\<open>retry_loop\<close>, \<open>poll_startup_error\<close>, \<open>wait_loop\<close>) or go up
  the directories (\<open>find_oj\<close>), are partial functions too, and a child in the foreground may run for ever
  (\<open>co_wait\<close> is then \<open>None\<close>); \<open>cli_main_returns\<close> shows that every command returns when the clock behaves
  and the children it waits for end. There is no fuel.

  \<^bold>\<open>Not modelled.\<close> Log output through \<open>tracing\<close>, apart from the fields of an effect and the two lines
  that \<open>main\<close> writes around the start of the daemon (\<open>trace\<close>, with the subscriber's filter and format as
  \<open>os_format\<close>), which are written at once and not by its worker thread; the TOML
  library and the derived deserialisers (the record \<open>toml_lib\<close>); the derived JSON codecs; the interleaving
  of tasks, as the daemon's loop handles one request, event or tick at a time and its locks are never
  contended; the line \<open>READY\<close> of \<open>main.rs\<close>; the parsing of the command line by clap;
  the state of a file or process beyond what the operations of \<open>os\<close> and \<open>cli_os\<close> return.
\<close>

end
